(* ===== verification/Prelude.thy ===== *)
theory Prelude
  imports Main "HOL-Library.Word" "HOL-Library.Product_Lexorder"
begin

text \<open>
  Shared vocabulary of the development: machine integers and byte strings, Rust's
  \<open>Result\<close> with its early return, panics as values, slice indexing, big-endian
  encodings, \<open>std::time\<close> arithmetic, and the generic interfaces (fixed-width codecs,
  transition systems with an invariant) that the component theories instantiate.
\<close>

unbundle bit_operations_syntax

section \<open>Machine integers, byte strings, results\<close>

type_synonym u8 = "8 word"
type_synonym u16 = "16 word"
type_synonym u32 = "32 word"
type_synonym u64 = "64 word"
type_synonym u128 = "128 word"
type_synonym bytes = "u8 list"

text \<open>
  \<open>Result<T, E>\<close> is the sum \<open>'e + 'a\<close>. \<open>Err\<close> carries either an error value or
  \<open>Panic\<close>: the outcome of an out-of-range index or slice, which unwinds like an error
  that no caller inspects. Keeping it as a value lets panic freedom be stated.
\<close>

type_synonym ('a, 'e) result = "'e + 'a"

abbreviation Ok :: "'a \<Rightarrow> ('a, 'e) result" where
  "Ok \<equiv> Inr"

abbreviation Err :: "'e \<Rightarrow> ('a, 'e) result" where
  "Err \<equiv> Inl"

datatype error_kind =
  InvalidInput | InvalidData | UnexpectedEof | NetworkUnreachable | PermissionDenied
  | AlreadyExists | NotFound | OtherKind

text \<open>An \<open>anyhow::Error\<close> is a message, or a context around the error that caused it.\<close>

datatype error = IoError error_kind string | Anyhow string | Context string error | Panic

definition rbind :: "('a, 'e) result \<Rightarrow> ('a \<Rightarrow> ('b, 'e) result) \<Rightarrow> ('b, 'e) result" where
  "rbind r f = (case r of Inl e \<Rightarrow> Inl e | Inr x \<Rightarrow> f x)"

definition ok_or :: "'a option \<Rightarrow> 'e \<Rightarrow> ('a, 'e) result" where
  "ok_or x e = (case x of None \<Rightarrow> Err e | Some y \<Rightarrow> Ok y)"

definition res_ok :: "('a, 'e) result \<Rightarrow> 'a option" where
  "res_ok r = (case r of Inl _ \<Rightarrow> None | Inr x \<Rightarrow> Some x)"

text \<open>\<open>Result::context\<close>; a panic unwinds through it.\<close>

definition with_context :: "string \<Rightarrow> ('a, error) result \<Rightarrow> ('a, error) result" where
  "with_context msg r = (case r of Inr x \<Rightarrow> Ok x | Inl Panic \<Rightarrow> Err Panic | Inl e \<Rightarrow> Err (Context msg e))"

text \<open>\<open>{error}\<close> shows the outermost message, \<open>{error:#}\<close> the chain of causes.\<close>

definition error_text :: "error \<Rightarrow> string" where
  "error_text e = (case e of IoError _ msg \<Rightarrow> msg | Anyhow msg \<Rightarrow> msg | Context msg _ \<Rightarrow> msg | Panic \<Rightarrow> ''panic'')"

fun error_chain :: "error \<Rightarrow> string" where
  "error_chain (Context msg e) = msg @ '': '' @ error_chain e"
| "error_chain e = error_text e"

text \<open>\<open>value[i]\<close> and \<open>&value[a..b]\<close>: out of range is a panic.\<close>

definition index :: "'a list \<Rightarrow> nat \<Rightarrow> ('a, error) result" where
  "index xs i = (if i < length xs then Ok (xs ! i) else Err Panic)"

definition slice :: "'a list \<Rightarrow> nat \<Rightarrow> nat \<Rightarrow> ('a list, error) result" where
  "slice xs a b = (if a \<le> b \<and> b \<le> length xs then Ok (take (b - a) (drop a xs)) else Err Panic)"

text \<open>\<open>copy_from_slice\<close> into an array of \<open>n\<close> bytes: another length is a panic.\<close>

definition copy_exact :: "nat \<Rightarrow> 'a list \<Rightarrow> ('a list, error) result" where
  "copy_exact n xs = (if length xs = n then Ok xs else Err Panic)"

text \<open>A \<open>for\<close> loop whose body can fail, collecting its results.\<close>

primrec mapR :: "('a \<Rightarrow> ('b, 'e) result) \<Rightarrow> 'a list \<Rightarrow> ('b list, 'e) result" where
  "mapR f [] = Ok []"
| "mapR f (x # xs) = rbind (f x) (\<lambda>y. rbind (mapR f xs) (\<lambda>ys. Ok (y # ys)))"

definition rmap :: "('a \<Rightarrow> 'b) \<Rightarrow> ('a, 'e) result \<Rightarrow> ('b, 'e) result" where
  "rmap f r = rbind r (\<lambda>x. Ok (f x))"

text \<open>\<open>usize::checked_add\<close> (64-bit target) and \<open>u16::try_from(usize)\<close>.\<close>

definition usize_checked_add :: "nat \<Rightarrow> nat \<Rightarrow> nat option" where
  "usize_checked_add a b = (if int a + int b < 2 ^ 64 then Some (a + b) else None)"

definition u16_try_from :: "nat \<Rightarrow> u16 option" where
  "u16_try_from n = (if int n < 2 ^ 16 then Some (word_of_nat n) else None)"

definition starts_with :: "'a list \<Rightarrow> 'a list \<Rightarrow> bool" where
  "starts_with xs p = (take (length p) xs = p)"

section \<open>Big-endian byte order\<close>

text \<open>
  \<open>to_be n w\<close> is \<open>w.to_be_bytes()\<close> for an integer of \<open>n\<close> bytes, \<open>from_be\<close> is
  \<open>from_be_bytes\<close>; both are used at 2, 4, 8 and 16 bytes.
\<close>

primrec to_be :: "nat \<Rightarrow> 'a::len word \<Rightarrow> bytes" where
  "to_be 0 w = []"
| "to_be (Suc n) w = ucast (drop_bit (8 * n) w) # to_be n w"

definition be_step :: "'a::len word \<Rightarrow> u8 \<Rightarrow> 'a word" where
  "be_step acc b = push_bit 8 acc OR ucast b"

definition from_be :: "bytes \<Rightarrow> 'a::len word" where
  "from_be bs = foldl be_step 0 bs"

section \<open>Durations and instants\<close>

text \<open>
  \<open>Duration\<close>, \<open>Instant\<close> and \<open>SystemTime\<close> are nanosecond counts. \<open>Instant::duration_since\<close>
  saturates at zero, which is subtraction on \<open>nat\<close>.
\<close>

type_synonym duration = nat
type_synonym instant = nat

definition from_millis :: "nat \<Rightarrow> duration" where
  "from_millis n = n * 1000000"

definition from_secs :: "nat \<Rightarrow> duration" where
  "from_secs n = n * 1000000000"

definition duration_since :: "instant \<Rightarrow> instant \<Rightarrow> duration" where
  "duration_since a b = a - b"

section \<open>Automation\<close>

named_theorems result_simps \<open>rewriting results and their early return\<close>
named_theorems byte_simps \<open>lengths and round trips of byte encodings\<close>
named_theorems time_simps \<open>durations as nanosecond counts\<close>

text \<open>Offsets stay numerals: \<open>n + 2\<close> is not rewritten to successors.\<close>

declare add_2_eq_Suc [simp del] add_2_eq_Suc' [simp del]

lemma rbind_simps [simp]:
  "rbind (Inr x) f = f x"
  "rbind (Inl e) f = Inl e"
  by (simp_all add: rbind_def)

lemma rbind_eq_Inr [result_simps]: "rbind r f = Inr y \<longleftrightarrow> (\<exists>x. r = Inr x \<and> f x = Inr y)"
  by (cases r) auto

lemma rbind_eq_Inl [result_simps]:
  "rbind r f = Inl e \<longleftrightarrow> r = Inl e \<or> (\<exists>x. r = Inr x \<and> f x = Inl e)"
  by (cases r) auto

lemma with_context_simps [simp]:
  "with_context msg (Inr x) = Inr x"
  "with_context msg (Inl (IoError k s)) = Inl (Context msg (IoError k s))"
  "with_context msg (Inl (Anyhow s)) = Inl (Context msg (Anyhow s))"
  "with_context msg (Inl (Context s e)) = Inl (Context msg (Context s e))"
  "with_context msg (Inl Panic) = Inl Panic"
  by (simp_all add: with_context_def)

lemma with_context_Ok [simp]: "with_context msg r = Inr x \<longleftrightarrow> r = Inr x"
  by (simp add: with_context_def split: sum.split error.split)

lemma with_context_Err: "(\<exists>e. with_context msg r = Inl e) \<longleftrightarrow> (\<exists>e. r = Inl e)"
  by (auto simp: with_context_def split: sum.split error.split)

lemma ok_or_simps [simp]:
  "ok_or (Some x) e = Inr x"
  "ok_or None e = Inl e"
  by (simp_all add: ok_or_def)

lemma ok_or_eq [result_simps]:
  "ok_or x e = Inr y \<longleftrightarrow> x = Some y"
  "ok_or x e = Inl e' \<longleftrightarrow> x = None \<and> e = e'"
  by (cases x; auto)+

lemma res_ok_simps [simp]: "res_ok (Inr x) = Some x" "res_ok (Inl e) = None"
  by (simp_all add: res_ok_def)

lemma rmap_simps [simp]:
  "rmap f (Inr x) = Inr (f x)"
  "rmap f (Inl e) = Inl e"
  by (simp_all add: rmap_def)

lemma rmap_eq [result_simps]:
  "rmap f r = Inr y \<longleftrightarrow> (\<exists>x. r = Inr x \<and> y = f x)"
  "rmap f r = Inl e \<longleftrightarrow> r = Inl e"
  by (cases r; auto)+

lemma mapR_Ok: "(\<And>x. x \<in> set xs \<Longrightarrow> f x = Inr (g x)) \<Longrightarrow> mapR f xs = Inr (map g xs)"
  by (induction xs) auto

lemma mapR_Inr: "mapR f xs = Inr ys \<longleftrightarrow> list_all2 (\<lambda>x y. f x = Inr y) xs ys"
  by (induction xs arbitrary: ys) (auto simp: rbind_eq_Inr list_all2_Cons1)

lemma mapR_cong [fundef_cong]:
  "xs = ys \<Longrightarrow> (\<And>x. x \<in> set ys \<Longrightarrow> f x = g x) \<Longrightarrow> mapR f xs = mapR g ys"
  by (induction xs arbitrary: ys) auto

lemma copy_exact_ok [simp]: "length xs = n \<Longrightarrow> copy_exact n xs = Inr xs"
  by (simp add: copy_exact_def)

lemma index_ok [simp]: "i < length xs \<Longrightarrow> index xs i = Inr (xs ! i)"
  by (simp add: index_def)

lemma slice_ok [simp]:
  "a \<le> b \<Longrightarrow> b \<le> length xs \<Longrightarrow> slice xs a b = Inr (take (b - a) (drop a xs))"
  by (simp add: slice_def)

lemma starts_with_append [simp]: "starts_with (p @ xs) p"
  by (simp add: starts_with_def)

lemma starts_with_iff: "starts_with xs p \<longleftrightarrow> (\<exists>ys. xs = p @ ys)"
  by (metis append_eq_conv_conj starts_with_def)

lemma find_SomeD: "find P xs = Some x \<Longrightarrow> x \<in> set xs \<and> P x"
  by (induction xs) (auto split: if_splits)

lemma find_filter_relevant: "(\<And>x. P x \<Longrightarrow> Q x) \<Longrightarrow> find P (filter Q xs) = find P xs"
  by (induction xs) auto

lemma distinct_count_one: "distinct xs \<Longrightarrow> x \<in> set xs \<Longrightarrow> count_list xs x = 1"
  by (induction xs) auto

lemma u16_try_from_simps:
  "n < 65536 \<Longrightarrow> u16_try_from n = Some (word_of_nat n)"
  "65536 \<le> n \<Longrightarrow> u16_try_from n = None"
  by (simp_all add: u16_try_from_def)

lemma unat_u16_of_nat: "n < 65536 \<Longrightarrow> unat (word_of_nat n :: u16) = n"
  by (simp add: unat_of_nat take_bit_eq_mod)

lemma length_to_be [simp, byte_simps]: "length (to_be n w) = n"
  by (induction n) auto

lemma foldl_be_step:
  "foldl be_step acc (to_be n w) = push_bit (8 * n) acc OR take_bit (8 * n) w"
  for acc w :: "'a::len word"
proof (induction n arbitrary: acc)
  case 0
  then show ?case by (simp)
next
  case (Suc n)
  have "push_bit (8 * n) (be_step acc (ucast (drop_bit (8 * n) w))) OR take_bit (8 * n) w
      = push_bit (8 * Suc n) acc OR take_bit (8 * Suc n) w"
    by (rule bit_word_eqI) (auto simp: be_step_def bit_simps ac_simps)
  with Suc show ?case by simp
qed

lemma from_be_to_be [byte_simps]: "LENGTH('a) \<le> 8 * n \<Longrightarrow> from_be (to_be n w) = w"
  for w :: "'a::len word"
proof -
  assume "LENGTH('a) \<le> 8 * n"
  then have "take_bit (8 * n) w = w"
    by (intro bit_word_eqI) (auto simp: bit_simps dest: bit_imp_le_length)
  then show ?thesis
    by (simp add: from_be_def foldl_be_step)
qed

lemma to_be_snoc: "to_be (Suc n) w = to_be n (drop_bit 8 w) @ [ucast w]"
  for w :: "'a::len word"
  by (induction n) (simp_all add: add.commute)

lemma from_be_snoc: "from_be (bs @ [b]) = be_step (from_be bs) b"
  by (simp add: from_be_def)

lemma from_be_bound: "bit (from_be bs :: 'a::len word) k \<Longrightarrow> k < 8 * length bs"
proof (induction bs arbitrary: k rule: rev_induct)
  case Nil
  then show ?case by (simp add: from_be_def)
next
  case (snoc b bs)
  then show ?case
    by (auto simp: from_be_snoc be_step_def bit_simps dest: bit_imp_le_length)
      (metis less_diff_conv2 add.commute)+
qed

lemma be_step_bytes:
  assumes "\<And>k. bit (w :: 'a::len word) k \<Longrightarrow> 8 + k < LENGTH('a)" and "8 \<le> LENGTH('a)"
  shows "drop_bit 8 (be_step w b) = w" and "ucast (be_step w b) = b"
proof -
  show "drop_bit 8 (be_step w b) = w"
    by (rule bit_word_eqI) (use assms in \<open>auto simp: be_step_def bit_simps dest: bit_imp_le_length\<close>)
  show "ucast (be_step w b) = b"
    by (rule bit_word_eqI) (use assms in \<open>auto simp: be_step_def bit_simps dest: bit_imp_le_length\<close>)
qed

lemma to_be_from_be [byte_simps]:
  "8 * length bs \<le> LENGTH('a) \<Longrightarrow> to_be (length bs) (from_be bs :: 'a::len word) = bs"
proof (induction bs rule: rev_induct)
  case Nil
  then show ?case by simp
next
  case (snoc b bs)
  let ?w = "from_be bs :: 'a word"
  have "8 + k < LENGTH('a)" if "bit ?w k" for k
    using from_be_bound [OF that] snoc.prems by simp
  moreover have "8 \<le> LENGTH('a)"
    using snoc.prems by simp
  ultimately have "drop_bit 8 (be_step ?w b) = ?w" "ucast (be_step ?w b) = b"
    using be_step_bytes [of ?w b] by blast+
  with snoc show ?case
    by (simp add: to_be_snoc from_be_snoc del: to_be.simps)
qed

section \<open>Interface: fixed-width codecs\<close>

text \<open>
  A wire format of a fixed number of bytes: decoding inverts encoding on the values the
  format can carry. Framing lemmas for fields embedded in a larger message follow once for
  every such format.
\<close>

locale fixed_codec =
  fixes enc :: "'a \<Rightarrow> bytes"
    and dec :: "bytes \<Rightarrow> 'a option"
    and width :: nat
    and carried :: "'a \<Rightarrow> bool"
  assumes enc_width: "carried x \<Longrightarrow> length (enc x) = width"
    and dec_enc: "carried x \<Longrightarrow> dec (enc x) = Some x"
begin

lemma enc_inject: "carried x \<Longrightarrow> carried y \<Longrightarrow> enc x = enc y \<longleftrightarrow> x = y"
  by (metis dec_enc option.inject)

lemma dec_prefix: "carried x \<Longrightarrow> dec (take width (enc x @ rest)) = Some x"
  by (simp add: dec_enc enc_width)

lemma dec_embedded: "carried x \<Longrightarrow> dec (take width (drop (length pre) (pre @ enc x @ rest))) = Some x"
  by (simp add: dec_enc enc_width)

end

text \<open>A strict format has one encoding per value: nothing but that encoding decodes to it.\<close>

locale strict_codec = fixed_codec +
  assumes dec_only: "dec bs = Some x \<Longrightarrow> carried x \<and> bs = enc x"
begin

lemma dec_iff: "dec bs = Some x \<longleftrightarrow> carried x \<and> bs = enc x"
  using dec_enc dec_only by blast

lemma dec_width: "dec bs = Some x \<Longrightarrow> length bs = width"
  using dec_only enc_width by blast

lemma dec_inject: "dec bs = Some x \<Longrightarrow> dec cs = Some x \<Longrightarrow> bs = cs"
  using dec_only by blast

end

section \<open>Interface: bounded queues\<close>

text \<open>
  What the forwarding tasks rely on of a bounded channel: offering an item either appends
  it or, when the queue is full, leaves the queue as it was; taking an item returns the
  oldest. \<open>send_each\<close> is the \<open>for\<close> loop that offers one item after another and stops at
  the first error.
\<close>

primrec send_each :: "('q \<Rightarrow> 'a \<Rightarrow> ('q \<times> bool, 'e) result) \<Rightarrow> 'q \<Rightarrow> 'a list \<Rightarrow> ('q, 'e) result" where
  "send_each put q [] = Ok q"
| "send_each put q (x # xs) = rbind (put q x) (\<lambda>(q', _). send_each put q' xs)"

locale bounded_queue =
  fixes put :: "'q \<Rightarrow> 'a \<Rightarrow> ('q \<times> bool, 'e) result"
    and get :: "'q \<Rightarrow> ('a \<times> 'q) option"
    and contents :: "'q \<Rightarrow> 'a list"
    and capacity :: "'q \<Rightarrow> nat"
    and wf :: "'q \<Rightarrow> bool"
  assumes wf_bounded: "wf q \<Longrightarrow> length (contents q) \<le> capacity q"
    and put_stored: "wf q \<Longrightarrow> put q x = Ok (q', True) \<Longrightarrow>
      contents q' = contents q @ [x] \<and> capacity q' = capacity q \<and> wf q'"
    and put_dropped: "wf q \<Longrightarrow> put q x = Ok (q', False) \<Longrightarrow>
      q' = q \<and> length (contents q) = capacity q"
    and get_oldest: "wf q \<Longrightarrow> get q = Some (x, q') \<Longrightarrow>
      contents q = x # contents q' \<and> capacity q' = capacity q \<and> wf q'"
begin

lemma put_wf: "wf q \<Longrightarrow> put q x = Ok (q', b) \<Longrightarrow> wf q' \<and> capacity q' = capacity q"
  by (cases b) (auto dest: put_stored put_dropped)

lemma send_each_contents: "wf q \<Longrightarrow> send_each put q xs = Ok q' \<Longrightarrow>
    wf q' \<and> capacity q' = capacity q \<and>
    contents q' = contents q @ take (capacity q - length (contents q)) xs"
proof (induction xs arbitrary: q)
  case Nil
  then show ?case by simp
next
  case (Cons x xs)
  then obtain q1 b where put: "put q x = Ok (q1, b)" and rest: "send_each put q1 xs = Ok q'"
    by (auto simp: result_simps)
  note IH = Cons.IH [OF conjunct1 [OF put_wf [OF Cons.prems(1) put]] rest]
  show ?case
  proof (cases b)
    case True
    with put put_stored [OF Cons.prems(1)]
    have "contents q1 = contents q @ [x]" and "capacity q1 = capacity q" and "wf q1"
      by auto
    with IH wf_bounded [of q1] show ?thesis
      by (auto simp: take_Cons')
  next
    case False
    with put have "q1 = q" and "length (contents q) = capacity q"
      using put_dropped [OF Cons.prems(1), of x q1] by auto
    with IH show ?thesis
      by simp
  qed
qed

end

section \<open>Interface: transition systems with an invariant\<close>

text \<open>
  A component's states evolve by labelled steps. What is proved of the initial states
  and kept by every step holds in every reachable state and along every run.
\<close>

inductive steps :: "('s \<Rightarrow> 'l \<Rightarrow> 's \<Rightarrow> bool) \<Rightarrow> 's \<Rightarrow> 'l list \<Rightarrow> 's \<Rightarrow> bool"
  for step :: "'s \<Rightarrow> 'l \<Rightarrow> 's \<Rightarrow> bool" where
  steps_Nil: "steps step s [] s"
| steps_Cons: "step s l t \<Longrightarrow> steps step t ls u \<Longrightarrow> steps step s (l # ls) u"

inductive_cases steps_NilE [elim!]: "steps step s [] t"
inductive_cases steps_ConsE [elim!]: "steps step s (l # ls) t"
inductive_simps steps_Nil_simp [simp]: "steps step s [] t"
inductive_simps steps_Cons_simp: "steps step s (l # ls) t"

lemma steps_append:
  "steps step s (ls @ ms) u \<longleftrightarrow> (\<exists>t. steps step s ls t \<and> steps step t ms u)"
  by (induction ls arbitrary: s) (auto simp: steps_Cons_simp)

locale invariant_system =
  fixes initial :: "'s \<Rightarrow> bool"
    and step :: "'s \<Rightarrow> 'l \<Rightarrow> 's \<Rightarrow> bool"
    and inv :: "'s \<Rightarrow> bool"
  assumes inv_initial: "initial s \<Longrightarrow> inv s"
    and inv_step: "inv s \<Longrightarrow> step s l t \<Longrightarrow> inv t"
begin

lemma inv_steps: "steps step s ls t \<Longrightarrow> inv s \<Longrightarrow> inv t"
  by (induction rule: steps.induct) (auto intro: inv_step)

lemma inv_reachable: "initial s \<Longrightarrow> steps step s ls t \<Longrightarrow> inv t"
  using inv_initial inv_steps by blast

lemma inv_every_prefix: "initial s \<Longrightarrow> steps step s (ls @ ms) t \<Longrightarrow>
    \<exists>u. steps step s ls u \<and> inv u \<and> steps step u ms t"
  by (auto simp: steps_append intro: inv_reachable)

end

section \<open>Interface: rate-limited actions\<close>

text \<open>
  Timed events act on a state. An action leaves a guard in the state that survives further
  events, unless the gap has passed, and a guarded state acts again only after the gap: then
  no two actions of a run are closer than the gap.
\<close>

locale rate_limited =
  fixes handle :: "'s \<Rightarrow> 'e \<Rightarrow> 's"
    and time :: "'e \<Rightarrow> instant"
    and permitted :: "'e \<Rightarrow> bool"
    and acts :: "'s \<Rightarrow> 'e \<Rightarrow> bool"
    and guarded :: "'s \<Rightarrow> instant \<Rightarrow> bool"
    and gap :: duration
  assumes acts_guarded: "permitted e \<Longrightarrow> acts s e \<Longrightarrow> guarded (handle s e) (time e)"
    and guarded_kept: "permitted e \<Longrightarrow> guarded s t \<Longrightarrow> t \<le> time e \<Longrightarrow>
      guarded (handle s e) t \<or> t + gap \<le> time e"
    and guarded_blocks: "permitted e \<Longrightarrow> guarded s t \<Longrightarrow> t \<le> time e \<Longrightarrow> acts s e \<Longrightarrow> t + gap \<le> time e"
begin

lemma guarded_until: "guarded s t \<Longrightarrow> sorted (t # map time (es @ [e])) \<Longrightarrow>
    \<forall>x\<in>set (es @ [e]). permitted x \<Longrightarrow> acts (foldl handle s es) e \<Longrightarrow> t + gap \<le> time e"
proof (induction es arbitrary: s)
  case Nil
  then show ?case using guarded_blocks by simp
next
  case (Cons x es)
  then consider "guarded (handle s x) t" | "t + gap \<le> time x"
    using guarded_kept [of x s t] by auto
  then show ?case
  proof cases
    case 1
    with Cons show ?thesis by simp
  next
    case 2
    moreover have "time x \<le> time e" using Cons.prems(2) by simp
    ultimately show ?thesis by simp
  qed
qed

lemma spaced: "sorted (map time (e1 # es @ [e2])) \<Longrightarrow> \<forall>x\<in>set (e1 # es @ [e2]). permitted x \<Longrightarrow>
    acts s e1 \<Longrightarrow> acts (foldl handle (handle s e1) es) e2 \<Longrightarrow> time e1 + gap \<le> time e2"
  using guarded_until [of "handle s e1" "time e1" es e2] acts_guarded [of e1 s] by simp

end

end
