(* ===== verification/Net.thy ===== *)
theory Net
  imports Prelude
begin

text \<open>
  What the program uses of \<open>std::net\<close> and of the standard hash containers: addresses as
  integers in network order, socket addresses with the flow and scope fields that take part
  in equality, the address predicates, and the unspecified iteration order of a \<open>HashSet\<close>.
\<close>

section \<open>Addresses\<close>

text \<open>
  An \<open>Ipv4Addr\<close> is its four octets read as a 32-bit integer, an \<open>Ipv6Addr\<close> its sixteen
  octets read as a 128-bit integer. \<open>SocketAddrV6\<close> carries \<open>flowinfo\<close> and \<open>scope_id\<close>,
  which \<open>==\<close> and \<open>Hash\<close> include and \<open>SocketAddr::new\<close> sets to zero.
\<close>

datatype ip_addr = IpV4 u32 | IpV6 u128

datatype socket_addr = SockV4 u32 u16 | SockV6 u128 u16 u32 u32

primrec sock_new :: "ip_addr \<Rightarrow> u16 \<Rightarrow> socket_addr" where
  "sock_new (IpV4 a) port = SockV4 a port"
| "sock_new (IpV6 a) port = SockV6 a port 0 0"

primrec sock_ip :: "socket_addr \<Rightarrow> ip_addr" where
  "sock_ip (SockV4 a port) = IpV4 a"
| "sock_ip (SockV6 a port flow scope) = IpV6 a"

primrec sock_port :: "socket_addr \<Rightarrow> u16" where
  "sock_port (SockV4 a port) = port"
| "sock_port (SockV6 a port flow scope) = port"

primrec is_ipv4 :: "ip_addr \<Rightarrow> bool" where
  "is_ipv4 (IpV4 a) = True"
| "is_ipv4 (IpV6 a) = False"

primrec is_loopback :: "ip_addr \<Rightarrow> bool" where
  "is_loopback (IpV4 a) = (drop_bit 24 a = 127)"
| "is_loopback (IpV6 a) = (a = 1)"

primrec is_unspecified :: "ip_addr \<Rightarrow> bool" where
  "is_unspecified (IpV4 a) = (a = 0)"
| "is_unspecified (IpV6 a) = (a = 0)"

primrec is_multicast :: "ip_addr \<Rightarrow> bool" where
  "is_multicast (IpV4 a) = (224 \<le> drop_bit 24 a \<and> drop_bit 24 a \<le> 239)"
| "is_multicast (IpV6 a) = (drop_bit 120 a = 255)"

definition to_ipv4_mapped :: "u128 \<Rightarrow> u32 option" where
  "to_ipv4_mapped a = (if drop_bit 32 a = 0xffff then Some (ucast a) else None)"

text \<open>The IPv4-mapped form \<open>::ffff:a.b.c.d\<close> in which a dual-stack socket reports IPv4 peers.\<close>

definition ipv4_mapped :: "u32 \<Rightarrow> u128" where
  "ipv4_mapped a = push_bit 32 0xffff OR ucast a"

text \<open>A datagram as it travels through the program's queues.\<close>

type_synonym datagram = "bytes \<times> socket_addr"

section \<open>The order on socket addresses\<close>

text \<open>The derived \<open>Ord\<close> of \<open>SocketAddr\<close>: IPv4 before IPv6, then field by field.\<close>

fun sock_key :: "socket_addr \<Rightarrow> nat \<times> nat \<times> nat \<times> nat \<times> nat" where
  "sock_key (SockV4 a port) = (0, unat a, unat port, 0, 0)"
| "sock_key (SockV6 a port flow scope) = (1, unat a, unat port, unat flow, unat scope)"

lemma sock_key_inject: "sock_key x = sock_key y \<Longrightarrow> x = y"
  by (cases x; cases y) (auto simp: word_unat_eq_iff)

instantiation socket_addr :: linorder
begin

definition less_eq_socket_addr :: "socket_addr \<Rightarrow> socket_addr \<Rightarrow> bool" where
  "less_eq_socket_addr x y = (sock_key x \<le> sock_key y)"

definition less_socket_addr :: "socket_addr \<Rightarrow> socket_addr \<Rightarrow> bool" where
  "less_socket_addr x y = (sock_key x < sock_key y)"

instance
proof
  fix x y z :: socket_addr
  show "(x < y) = (x \<le> y \<and> \<not> y \<le> x)"
    by (simp only: less_eq_socket_addr_def less_socket_addr_def less_le_not_le)
  show "x \<le> x"
    by (simp add: less_eq_socket_addr_def)
  show "x \<le> y \<Longrightarrow> y \<le> z \<Longrightarrow> x \<le> z"
    unfolding less_eq_socket_addr_def by (rule order_trans)
  show "x \<le> y \<Longrightarrow> y \<le> x \<Longrightarrow> x = y"
    unfolding less_eq_socket_addr_def by (rule sock_key_inject) (rule antisym)
  show "x \<le> y \<or> y \<le> x"
    unfolding less_eq_socket_addr_def by (rule linear)
qed

end

section \<open>Interface: iterating a hash container\<close>

text \<open>
  \<open>HashSet\<close> and \<open>HashMap\<close> iterate every element once, in an order that the randomised hasher
  leaves open. Operations that iterate take the order as an argument \<open>iter\<close>; theorems hold
  for every \<open>iter\<close> that enumerates a finite set without repetition.
\<close>

locale hash_order =
  fixes iter :: "'a set \<Rightarrow> 'a list"
  assumes iter_enumerates: "finite s \<Longrightarrow> distinct (iter s) \<and> set (iter s) = s"
begin

lemma iter_set: "finite s \<Longrightarrow> set (iter s) = s"
  by (simp add: iter_enumerates)

lemma iter_distinct: "finite s \<Longrightarrow> distinct (iter s)"
  by (simp add: iter_enumerates)

lemma iter_length: "finite s \<Longrightarrow> length (iter s) = card s"
  by (metis distinct_card iter_enumerates)

lemma iter_take_card: "finite s \<Longrightarrow> card (set (take n (iter s))) = min n (card s)"
  by (simp add: distinct_card iter_distinct iter_length)

end

text \<open>The order of the addresses themselves is one possible iteration order.\<close>

interpretation ascending: hash_order "sorted_list_of_set :: socket_addr set \<Rightarrow> socket_addr list"
  by unfold_locales simp

section \<open>Facts about addresses\<close>

lemma sock_new_sel [simp]: "sock_ip (sock_new ip port) = ip" "sock_port (sock_new ip port) = port"
  by (cases ip; simp)+

lemma ucast_low_half: "ucast (push_bit 32 h OR ucast a :: u128) = (a :: u32)"
  by (rule bit_word_eqI) (auto simp: bit_simps)

lemma drop_bit_low_half: "drop_bit 32 (push_bit 32 h OR ucast (a :: u32) :: u128) = take_bit 96 h"
  by (rule bit_word_eqI) (auto simp: bit_simps dest: bit_imp_le_length)

lemma to_ipv4_mapped_inverse: "to_ipv4_mapped (ipv4_mapped a) = Some a"
  unfolding to_ipv4_mapped_def ipv4_mapped_def ucast_low_half drop_bit_low_half by simp

lemma to_ipv4_mapped_Some: "to_ipv4_mapped w = Some a \<longleftrightarrow> w = ipv4_mapped a"
proof
  assume "to_ipv4_mapped w = Some a"
  then have hi: "drop_bit 32 w = 0xffff" and lo: "ucast w = a"
    by (auto simp: to_ipv4_mapped_def split: if_splits)
  have "w = push_bit 32 (drop_bit 32 w) OR ucast (ucast w :: u32)"
    by (rule bit_word_eqI) (auto simp: bit_simps)
  then show "w = ipv4_mapped a"
    by (simp add: ipv4_mapped_def hi lo)
qed (simp add: to_ipv4_mapped_inverse)

lemma ipv4_mapped_inject [simp]: "ipv4_mapped a = ipv4_mapped b \<longleftrightarrow> a = b"
  by (metis option.inject to_ipv4_mapped_inverse)

end
