(* ===== verification/Text.thy ===== *)
theory Text
  imports Prelude
begin

text \<open>
  The string operations the program takes from \<open>core\<close>: printing a decimal number, parsing an
  integer of a given radix and width, splitting into lines and fields, stripping a prefix.
  A \<open>str\<close> is a list of bytes read as characters; the program's own text is ASCII.
\<close>

section \<open>Numbers\<close>

definition digit_char :: "nat \<Rightarrow> char" where
  "digit_char d = char_of (48 + d)"

fun show_nat :: "nat \<Rightarrow> string" where
  "show_nat n = (if n < 10 then [digit_char n] else show_nat (n div 10) @ [digit_char (n mod 10)])"

declare show_nat.simps [simp del]

text \<open>\<open>char::to_digit\<close>.\<close>

definition to_digit :: "nat \<Rightarrow> char \<Rightarrow> nat option" where
  "to_digit radix c =
     (let n = of_char c :: nat;
          d = (if 48 \<le> n \<and> n \<le> 57 then n - 48
               else if 97 \<le> n \<and> n \<le> 122 then n - 87
               else if 65 \<le> n \<and> n \<le> 90 then n - 55
               else 36)
      in if d < radix then Some d else None)"

datatype int_error = Empty | InvalidDigit | PosOverflow

text \<open>\<open>from_str_radix\<close> of an unsigned integer type with largest value \<open>2 ^ bits - 1\<close>.\<close>

primrec parse_digits :: "nat \<Rightarrow> nat \<Rightarrow> nat \<Rightarrow> string \<Rightarrow> (nat, int_error) result" where
  "parse_digits radix bits acc [] = Ok acc"
| "parse_digits radix bits acc (c # cs) =
     (case to_digit radix c of
        None \<Rightarrow> Err InvalidDigit
      | Some d \<Rightarrow>
          if int (acc * radix) < 2 ^ bits \<and> int (acc * radix + d) < 2 ^ bits
          then parse_digits radix bits (acc * radix + d) cs
          else Err PosOverflow)"

definition from_str_radix :: "nat \<Rightarrow> nat \<Rightarrow> string \<Rightarrow> (nat, int_error) result" where
  "from_str_radix radix bits s =
     (case s of
        [] \<Rightarrow> Err Empty
      | [c] \<Rightarrow> if c = CHR ''+'' \<or> c = CHR ''-'' then Err InvalidDigit else parse_digits radix bits 0 [c]
      | c # cs \<Rightarrow> if c = CHR ''+'' then parse_digits radix bits 0 cs else parse_digits radix bits 0 s)"

section \<open>Lines, fields, prefixes\<close>

definition is_newline :: "char \<Rightarrow> bool" where
  "is_newline c \<longleftrightarrow> c = char_of (10 :: nat)"

text \<open>The ASCII part of \<open>char::is_whitespace\<close>: tab to carriage return, and space.\<close>

definition is_whitespace :: "char \<Rightarrow> bool" where
  "is_whitespace c \<longleftrightarrow> (let n = of_char c :: nat in (9 \<le> n \<and> n \<le> 13) \<or> n = 32)"

text \<open>\<open>str::lines\<close>: a final newline does not start another line, a line loses one trailing CR.\<close>

definition strip_cr :: "string \<Rightarrow> string" where
  "strip_cr l = (if l \<noteq> [] \<and> last l = char_of (13 :: nat) then butlast l else l)"

lemma dropWhile_tl_shorter: "s \<noteq> [] \<Longrightarrow> length (tl (dropWhile P s)) < length s"
  using length_dropWhile_le [of P s] by (cases s) auto

function split_lines :: "string \<Rightarrow> string list" where
  "split_lines s =
     (if s = [] then []
      else
        (let line = takeWhile (\<lambda>c. \<not> is_newline c) s; rest = dropWhile (\<lambda>c. \<not> is_newline c) s
         in (if rest = [] then [line] else strip_cr line # split_lines (tl rest))))"
  by pat_completeness auto
termination
  by (relation "measure length") (auto intro: dropWhile_tl_shorter simp del: length_tl)

declare split_lines.simps [simp del]

text \<open>\<open>str::split_whitespace\<close>: the maximal runs of characters that are not white space.\<close>

lemma field_shorter:
  assumes "dropWhile P s \<noteq> []"
  shows "length (dropWhile (\<lambda>c. \<not> P c) (dropWhile P s)) < length s"
proof -
  obtain c t where t: "dropWhile P s = c # t"
    using assms by (cases "dropWhile P s") auto
  then have "\<not> P c"
    using hd_dropWhile [of P s] by simp
  with t show ?thesis
    using length_dropWhile_le [of P s] length_dropWhile_le [of "\<lambda>c. \<not> P c" t] by simp
qed

function split_whitespace :: "string \<Rightarrow> string list" where
  "split_whitespace s =
     (let t = dropWhile is_whitespace s
      in if t = [] then []
         else takeWhile (\<lambda>c. \<not> is_whitespace c) t
                # split_whitespace (dropWhile (\<lambda>c. \<not> is_whitespace c) t))"
  by pat_completeness auto
termination
  by (relation "measure length") (auto intro: field_shorter)

declare split_whitespace.simps [simp del]

definition strip_prefix :: "string \<Rightarrow> string \<Rightarrow> string option" where
  "strip_prefix p s = (if starts_with s p then Some (drop (length p) s) else None)"

section \<open>Facts\<close>

lemma of_char_digit_char: "d < 10 \<Longrightarrow> (of_char (digit_char d) :: nat) = 48 + d"
  by (simp add: digit_char_def)

lemma to_digit_digit_char: "d < 10 \<Longrightarrow> 10 \<le> radix \<Longrightarrow> to_digit radix (digit_char d) = Some d"
  by (simp add: to_digit_def of_char_digit_char Let_def)

lemma show_nat_nonempty [simp]: "show_nat n \<noteq> []"
  by (subst show_nat.simps) simp

lemma parse_digits_append:
  "parse_digits radix bits acc (xs @ ys) =
     rbind (parse_digits radix bits acc xs) (\<lambda>a. parse_digits radix bits a ys)"
  by (induction xs arbitrary: acc) (simp_all split: option.split)

lemma parse_digits_show: "n < 2 ^ bits \<Longrightarrow> parse_digits 10 bits 0 (show_nat n) = Inr n"
proof (induction n rule: show_nat.induct)
  case (1 n)
  have n: "int n < 2 ^ bits"
    using "1.prems" by (metis of_nat_less_iff of_nat_numeral of_nat_power)
  show ?case
  proof (cases "n < 10")
    case True
    with n show ?thesis
      by (subst show_nat.simps) (simp add: to_digit_digit_char)
  next
    case False
    with "1.IH" "1.prems" have "parse_digits 10 bits 0 (show_nat (n div 10)) = Inr (n div 10)"
      using div_le_dividend le_less_trans by blast
    moreover have "parse_digits 10 bits (n div 10) [digit_char (n mod 10)] = Inr n"
    proof -
      have "int (n div 10 * 10) < 2 ^ bits" and "int (n div 10 * 10 + n mod 10) < 2 ^ bits"
        using n by (simp_all add: order_le_less_trans del: of_nat_mult of_nat_add)
      then show ?thesis
        by (simp add: to_digit_digit_char del: of_nat_mult of_nat_add of_nat_less_numeral_power_cancel_iff)
    qed
    ultimately show ?thesis
      using False by (subst show_nat.simps) (simp add: parse_digits_append del: parse_digits.simps)
  qed
qed

lemma parse_digits_bound: "parse_digits radix bits acc s = Inr n \<Longrightarrow> acc < 2 ^ bits \<Longrightarrow> n < 2 ^ bits"
proof (induction s arbitrary: acc)
  case (Cons c s)
  then show ?case
    by (auto split: option.splits if_splits)
      (metis of_nat_add of_nat_less_iff of_nat_mult of_nat_numeral of_nat_power)
qed simp

section \<open>Fields and lines of printed text\<close>

lemma takeWhile_word: "list_all P w \<Longrightarrow> rest = [] \<or> \<not> P (hd rest) \<Longrightarrow> takeWhile P (w @ rest) = w"
  by (cases rest; induction w) auto

lemma dropWhile_word: "list_all P w \<Longrightarrow> rest = [] \<or> \<not> P (hd rest) \<Longrightarrow> dropWhile P (w @ rest) = rest"
  by (cases rest; induction w) auto

lemma split_whitespace_word:
  assumes "w \<noteq> []" and "list_all (\<lambda>c. \<not> is_whitespace c) w" and "rest = [] \<or> is_whitespace (hd rest)"
  shows "split_whitespace (w @ rest) = w # split_whitespace rest"
proof -
  have "dropWhile is_whitespace (w @ rest) = w @ rest"
    using assms(1,2) by (cases w) auto
  then show ?thesis
    using assms takeWhile_word [OF assms(2)] dropWhile_word [OF assms(2)]
    by (subst split_whitespace.simps) (simp add: Let_def)
qed

lemma split_whitespace_space: "is_whitespace c \<Longrightarrow> split_whitespace (c # s) = split_whitespace s"
  by (subst (1 2) split_whitespace.simps) simp

lemma split_lines_Cons:
  assumes "list_all (\<lambda>c. \<not> is_newline c) line" and "is_newline nl"
  shows "split_lines (line @ nl # rest) = strip_cr line # split_lines rest"
  using assms takeWhile_word [OF assms(1), of "nl # rest"] dropWhile_word [OF assms(1), of "nl # rest"]
  by (subst split_lines.simps) (simp add: Let_def)

lemma split_lines_Nil [simp]: "split_lines [] = []"
  by (subst split_lines.simps) simp

lemma split_lines_concat:
  assumes "is_newline nl" and "list_all (\<lambda>l. list_all (\<lambda>c. \<not> is_newline c) l \<and> strip_cr l = l) ls"
  shows "split_lines (concat (map (\<lambda>l. l @ [nl]) ls)) = ls"
  using assms(2) by (induction ls) (simp_all add: split_lines_Cons [OF _ assms(1)])

section \<open>Hexadecimal text\<close>

definition hex_char :: "nat \<Rightarrow> char" where
  "hex_char d = char_of (if d < 10 then 48 + d else 55 + d)"

primrec show_hex :: "nat \<Rightarrow> nat \<Rightarrow> string" where
  "show_hex 0 n = []"
| "show_hex (Suc k) n = show_hex k (n div 16) @ [hex_char (n mod 16)]"

lemma of_char_hex_char: "d < 16 \<Longrightarrow> (of_char (hex_char d) :: nat) = (if d < 10 then 48 + d else 55 + d)"
  by (simp add: hex_char_def)

lemma to_digit_hex_char: "d < 16 \<Longrightarrow> to_digit 16 (hex_char d) = Some d"
  by (simp add: to_digit_def of_char_hex_char Let_def)

lemma length_show_hex [simp]: "length (show_hex k n) = k"
  by (induction k arbitrary: n) simp_all

lemma show_hex_chars: "c \<in> set (show_hex k n) \<Longrightarrow> \<exists>d < 16. c = hex_char d"
proof (induction k arbitrary: n)
  case (Suc k)
  then consider "c \<in> set (show_hex k (n div 16))" | "c = hex_char (n mod 16)"
    by auto
  then show ?case
  proof cases
    case 2
    moreover have "n mod 16 < 16" by simp
    ultimately show ?thesis by blast
  qed (rule Suc.IH)
qed simp

lemma parse_digits_show_hex:
  assumes "n < 16 ^ k" and "16 ^ k \<le> (2 :: nat) ^ bits"
  shows "parse_digits 16 bits 0 (show_hex k n) = Ok n"
  using assms
proof (induction k arbitrary: n)
  case (Suc k)
  have "16 ^ k \<le> (2 :: nat) ^ bits"
    using Suc.prems(2) by (metis le_add2 le_trans mult_2 numeral_Bit0 power_Suc mult_le_mono1 one_le_numeral mult_1)
  with Suc have IH: "parse_digits 16 bits 0 (show_hex k (n div 16)) = Ok (n div 16)"
    by (simp add: less_mult_imp_div_less mult.commute)
  have "n < 2 ^ bits" using Suc.prems by linarith
  then have "int n < 2 ^ bits" by (metis of_nat_less_iff of_nat_numeral of_nat_power)
  then have "int (n div 16 * 16) < 2 ^ bits" and "int (n div 16 * 16 + n mod 16) < 2 ^ bits"
    by (simp_all add: order_le_less_trans del: of_nat_mult of_nat_add)
  then have "parse_digits 16 bits (n div 16) [hex_char (n mod 16)] = Ok n"
    by (simp add: to_digit_hex_char del: of_nat_mult of_nat_add of_nat_less_numeral_power_cancel_iff)
  then show ?case
    by (simp add: parse_digits_append IH del: parse_digits.simps)
qed simp

definition plain_char :: "char \<Rightarrow> bool" where
  "plain_char c \<longleftrightarrow> \<not> is_newline c \<and> c \<noteq> char_of (13 :: nat)"

lemma hex_char_plain:
  "d < 16 \<Longrightarrow> hex_char d \<noteq> CHR ''+'' \<and> \<not> is_whitespace (hex_char d) \<and> plain_char (hex_char d)"
proof -
  assume "d < 16"
  then have code: "(of_char (hex_char d) :: nat) = (if d < 10 then 48 + d else 55 + d)"
    by (rule of_char_hex_char)
  have "(of_char (CHR ''+'') :: nat) = 43" by simp
  with code have "hex_char d \<noteq> CHR ''+''" by (auto split: if_splits)
  moreover have "\<not> is_whitespace (hex_char d)"
    using code by (simp add: is_whitespace_def Let_def)
  moreover have "hex_char d \<noteq> char_of (10 :: nat)" "hex_char d \<noteq> char_of (13 :: nat)"
    using code by (auto simp: of_char_of split: if_splits)
  ultimately show ?thesis
    by (simp add: plain_char_def is_newline_def)
qed

lemma from_str_radix_show_hex:
  assumes "n < 16 ^ k" and "2 \<le> k" and "16 ^ k \<le> (2 :: nat) ^ bits"
  shows "from_str_radix 16 bits (show_hex k n) = Ok n"
proof -
  obtain c c' cs where hex: "show_hex k n = c # c' # cs"
    using assms(2) length_show_hex [of k n]
    by (cases "show_hex k n"; cases "tl (show_hex k n)") auto
  then have "c \<noteq> CHR ''+''"
    using show_hex_chars [of c k n] hex_char_plain by auto
  with hex show ?thesis
    using parse_digits_show_hex [OF assms(1,3)]
    by (simp add: from_str_radix_def del: parse_digits.simps)
qed

end
