(* ===== verification/Utils.thy ===== *)
theory Utils
  imports Net Text
begin

text \<open>
  \<open>src/utils.rs\<close>: bounded UDP queues, task supervision and the two tasks that pump a socket.
  A tokio \<open>mpsc\<close> channel is its buffered items, its capacity and whether the receiving half
  is gone; the failure watch of \<open>TaskMonitor\<close> is the optional failure it holds.
\<close>

section \<open>Bounded queues\<close>

definition UDP_QUEUE_CAPACITY :: nat where "UDP_QUEUE_CAPACITY = 256"

record 'a channel =
  ch_items :: "'a list"
  ch_capacity :: nat
  ch_closed :: bool

definition channel_new :: "nat \<Rightarrow> 'a channel" where
  "channel_new n = \<lparr>ch_items = [], ch_capacity = n, ch_closed = False\<rparr>"

datatype try_send_error = Full | Closed

definition mpsc_try_send :: "'a channel \<Rightarrow> 'a \<Rightarrow> ('a channel, try_send_error) result" where
  "mpsc_try_send c x =
     (if ch_closed c then Err Closed
      else if ch_capacity c \<le> length (ch_items c) then Err Full
      else Ok (c\<lparr>ch_items := ch_items c @ [x]\<rparr>))"

definition try_send :: "'a channel \<Rightarrow> 'a \<Rightarrow> ('a channel \<times> bool, error) result" where
  "try_send sender message =
     (case mpsc_try_send sender message of
        Inr sender' \<Rightarrow> Ok (sender', True)
      | Inl Full \<Rightarrow> Ok (sender, False)
      | Inl Closed \<Rightarrow> Err (Anyhow ''UDP task stopped''))"

definition mpsc_try_recv :: "'a channel \<Rightarrow> ('a \<times> 'a channel) option" where
  "mpsc_try_recv c = (case ch_items c of [] \<Rightarrow> None | x # xs \<Rightarrow> Some (x, c\<lparr>ch_items := xs\<rparr>))"

definition channel_wf :: "'a channel \<Rightarrow> bool" where
  "channel_wf c \<longleftrightarrow> length (ch_items c) \<le> ch_capacity c"

section \<open>Task supervision\<close>

record task_failure =
  failed_task :: string
  failure_error :: string

type_synonym monitor = "task_failure option"

definition monitor_new :: monitor where
  "monitor_new = None"

definition report_failure :: "monitor \<Rightarrow> string \<Rightarrow> string \<Rightarrow> monitor" where
  "report_failure failure task err =
     (if failure \<noteq> None then failure else Some \<lparr>failed_task = task, failure_error = err\<rparr>)"

text \<open>What \<open>spawn\<close> reports when its future completes: success, error and panic are all failures.\<close>

definition spawn_completed :: "monitor \<Rightarrow> string \<Rightarrow> (unit, error) result \<Rightarrow> monitor" where
  "spawn_completed failure task outcome =
     (case outcome of
        Inr _ \<Rightarrow> report_failure failure task ''task ended unexpectedly''
      | Inl Panic \<Rightarrow> report_failure failure task ''task panicked''
      | Inl e \<Rightarrow> report_failure failure task (error_chain e))"

section \<open>The socket tasks\<close>

definition should_retry_udp_send :: "error \<Rightarrow> bool" where
  "should_retry_udp_send e = (case e of IoError kind _ \<Rightarrow> kind = NetworkUnreachable | _ \<Rightarrow> False)"

definition NETWORK_UNREACHABLE_RETRY_DELAY :: duration where
  "NETWORK_UNREACHABLE_RETRY_DELAY = from_secs 60"

definition short_send_message :: "nat \<Rightarrow> nat \<Rightarrow> string" where
  "short_send_message n len =
     ''UDP socket sent '' @ show_nat n @ '' bytes of a '' @ show_nat len @ ''-byte datagram''"

text \<open>
  The sender task takes datagrams off its queue and retries each until the socket accepts it.
  \<open>outcomes\<close> are the results of the successive \<open>send_to\<close> calls. The result is what was
  transmitted, what is still queued (the datagram in hand first), the time slept between
  retries, and how the task ended, if it did: \<open>None\<close> is a task that waits for the next
  datagram or for the socket.
\<close>

fun udp_sender ::
    "datagram list \<Rightarrow> bool \<Rightarrow> (nat, error) result list \<Rightarrow>
     datagram list \<times> datagram list \<times> duration \<times> (unit, error) result option" where
  "udp_sender [] rx_closed outcomes = ([], [], 0, if rx_closed then Some (Ok ()) else None)"
| "udp_sender (d # ds) rx_closed [] = ([], d # ds, 0, None)"
| "udp_sender (d # ds) rx_closed (Inr n # outcomes) =
     (if n = length (fst d) then
        (let (sent, left, slept, ended) = udp_sender ds rx_closed outcomes
         in (d # sent, left, slept, ended))
      else ([], d # ds, 0, Some (Err (Anyhow (short_send_message n (length (fst d)))))))"
| "udp_sender (d # ds) rx_closed (Inl e # outcomes) =
     (if should_retry_udp_send e then
        (let (sent, left, slept, ended) = udp_sender (d # ds) rx_closed outcomes
         in (sent, left, NETWORK_UNREACHABLE_RETRY_DELAY + slept, ended))
      else ([], d # ds, 0, Some (Err e)))"

text \<open>
  The receiver task copies each datagram of at most 64 KiB into its queue; a full queue
  drops the datagram, a closed queue or a socket error ends the task.
\<close>

fun udp_receiver ::
    "datagram channel \<Rightarrow> (datagram, error) result list \<Rightarrow> datagram channel \<times> (unit, error) result option" where
  "udp_receiver tx [] = (tx, None)"
| "udp_receiver tx (Inl e # outcomes) = (tx, Some (Err e))"
| "udp_receiver tx (Inr (buf, peer) # outcomes) =
     (case try_send tx (take (64 * 1024) buf, peer) of
        Inl e \<Rightarrow> (tx, Some (Err e))
      | Inr (tx', _) \<Rightarrow> udp_receiver tx' outcomes)"

text \<open>
  \<open>split_udp_socket\<close>: two queues of 256 datagrams and the two tasks between them and the socket.
  \<open>queued\<close> is what the other tasks put into the outgoing queue and \<open>rx_closed\<close> whether they all
  dropped it; when both tasks have ended, \<open>receiver_first\<close> says which ended first.
\<close>

record udp_socket =
  us_received :: "datagram channel"
  us_sent :: "datagram list"
  us_left :: "datagram list"
  us_monitor :: monitor

definition task_ended :: "string \<Rightarrow> (unit, error) result option \<Rightarrow> monitor \<Rightarrow> monitor" where
  "task_ended task ended m = (case ended of None \<Rightarrow> m | Some outcome \<Rightarrow> spawn_completed m task outcome)"

definition split_udp_socket ::
    "bool \<Rightarrow> monitor \<Rightarrow> (datagram, error) result list \<Rightarrow> datagram list \<Rightarrow> bool \<Rightarrow> (nat, error) result list \<Rightarrow> udp_socket" where
  "split_udp_socket receiver_first m received queued rx_closed sends =
     (let (rx, received_end) = udp_receiver (channel_new UDP_QUEUE_CAPACITY) received;
          (sent, left, _, sender_end) = udp_sender queued rx_closed sends;
          receiver = task_ended ''UDP socket receiver'' received_end;
          sender = task_ended ''UDP socket sender'' sender_end
      in \<lparr>us_received = rx, us_sent = sent, us_left = left,
          us_monitor = (if receiver_first then sender (receiver m) else receiver (sender m))\<rparr>)"

section \<open>Facts\<close>

lemma channel_new_wf [simp]: "channel_wf (channel_new n)"
  by (simp add: channel_wf_def channel_new_def)

lemma try_send_eq:
  "try_send c x =
     (if ch_closed c then Inl (Anyhow ''UDP task stopped'')
      else if ch_capacity c \<le> length (ch_items c) then Inr (c, False)
      else Inr (c\<lparr>ch_items := ch_items c @ [x]\<rparr>, True))"
  by (simp add: try_send_def mpsc_try_send_def)

interpretation udp_queue: bounded_queue try_send mpsc_try_recv ch_items ch_capacity channel_wf
proof
  fix q q' :: "'a channel" and x :: 'a
  show "channel_wf q \<Longrightarrow> length (ch_items q) \<le> ch_capacity q"
    by (simp add: channel_wf_def)
  show "channel_wf q \<Longrightarrow> try_send q x = Ok (q', True) \<Longrightarrow>
      ch_items q' = ch_items q @ [x] \<and> ch_capacity q' = ch_capacity q \<and> channel_wf q'"
    by (auto simp: try_send_eq channel_wf_def split: if_splits)
  show "channel_wf q \<Longrightarrow> try_send q x = Ok (q', False) \<Longrightarrow>
      q' = q \<and> length (ch_items q) = ch_capacity q"
    by (auto simp: try_send_eq channel_wf_def split: if_splits)
  show "channel_wf q \<Longrightarrow> mpsc_try_recv q = Some (x, q') \<Longrightarrow>
      ch_items q = x # ch_items q' \<and> ch_capacity q' = ch_capacity q \<and> channel_wf q'"
    by (cases "ch_items q") (auto simp: mpsc_try_recv_def channel_wf_def)
qed

lemma try_send_no_panic: "try_send c x \<noteq> Inl Panic"
  by (simp add: try_send_eq)

lemma report_failure_first: "report_failure (Some f) task err = Some f"
  by (simp add: report_failure_def)

lemma report_failure_some: "\<exists>f. report_failure m task err = Some f"
  by (cases m) (simp_all add: report_failure_def)

lemma spawn_completed_report: "\<exists>err. spawn_completed m task outcome = report_failure m task err"
  unfolding spawn_completed_def by (cases outcome) (auto split: error.split)

text \<open>The answers of the socket after which the sender sleeps and tries the same datagram again.\<close>

definition retried :: "(nat, error) result \<Rightarrow> bool" where
  "retried r = (case r of Inl e \<Rightarrow> should_retry_udp_send e | Inr _ \<Rightarrow> False)"

lemma retried_simps [simp]: "retried (Inl e) = should_retry_udp_send e" "\<not> retried (Inr n)"
  by (simp_all add: retried_def)

text \<open>Why the sender is where it is: waiting, closed, or stopped by the answer at the head of \<open>rest\<close>.\<close>

definition sender_stopped ::
    "bool \<Rightarrow> datagram list \<Rightarrow> (nat, error) result list \<Rightarrow> (unit, error) result option \<Rightarrow> bool" where
  "sender_stopped rx_closed left rest ended =
     (case ended of
        None \<Rightarrow> left = [] \<or> rest = []
      | Some (Inr _) \<Rightarrow> left = [] \<and> rx_closed
      | Some (Inl e) \<Rightarrow> left \<noteq> [] \<and> rest \<noteq> [] \<and> \<not> retried (hd rest) \<and>
          hd rest \<noteq> Inr (length (fst (hd left))))"

text \<open>The balance of a run of the sender: the datagrams, the answers used, and the delays.\<close>

definition sender_balance ::
    "datagram list \<Rightarrow> bool \<Rightarrow> (nat, error) result list \<Rightarrow>
     datagram list \<times> datagram list \<times> duration \<times> (unit, error) result option \<Rightarrow> bool" where
  "sender_balance queue rx_closed outcomes result = (case result of (sent, left, slept, ended) \<Rightarrow>
     queue = sent @ left \<and>
     (\<exists>used rest. outcomes = used @ rest \<and>
        filter (\<lambda>r. \<not> retried r) used = map (\<lambda>d. Inr (length (fst d))) sent \<and>
        slept = NETWORK_UNREACHABLE_RETRY_DELAY * length (filter retried used) \<and>
        sender_stopped rx_closed left rest ended))"

lemma sender_balance_stop:
  "sender_stopped rx_closed queue outcomes ended \<Longrightarrow> sender_balance queue rx_closed outcomes ([], queue, 0, ended)"
  by (force simp: sender_balance_def)

lemma sender_balance_accept:
  assumes "sender_balance ds rx_closed outcomes (sent, left, slept, ended)"
  shows "sender_balance (d # ds) rx_closed (Inr (length (fst d)) # outcomes) (d # sent, left, slept, ended)"
proof -
  obtain used rest where "outcomes = used @ rest" "sender_stopped rx_closed left rest ended" "ds = sent @ left"
    "filter (\<lambda>r. \<not> retried r) used = map (\<lambda>d. Inr (length (fst d))) sent"
    "slept = NETWORK_UNREACHABLE_RETRY_DELAY * length (filter retried used)"
    using assms by (auto simp: sender_balance_def)
  then show ?thesis
    unfolding sender_balance_def prod.case
    by (intro conjI exI [of _ "Inr (length (fst d)) # used"] exI [of _ rest]) simp_all
qed

lemma sender_balance_retry:
  assumes "sender_balance queue rx_closed outcomes (sent, left, slept, ended)" and "should_retry_udp_send e"
  shows "sender_balance queue rx_closed (Inl e # outcomes) (sent, left, NETWORK_UNREACHABLE_RETRY_DELAY + slept, ended)"
proof -
  obtain used rest where "outcomes = used @ rest" "sender_stopped rx_closed left rest ended" "queue = sent @ left"
    "filter (\<lambda>r. \<not> retried r) used = map (\<lambda>d. Inr (length (fst d))) sent"
    "slept = NETWORK_UNREACHABLE_RETRY_DELAY * length (filter retried used)"
    using assms(1) by (auto simp: sender_balance_def)
  then show ?thesis
    unfolding sender_balance_def prod.case
    using assms(2) by (intro conjI exI [of _ "Inl e # used"] exI [of _ rest]) simp_all
qed

lemma udp_sender_balance: "sender_balance queue rx_closed outcomes (udp_sender queue rx_closed outcomes)"
proof (induction queue rx_closed outcomes rule: udp_sender.induct)
  case (3 d ds rx_closed n outcomes)
  then show ?case
    by (cases "udp_sender ds rx_closed outcomes")
      (auto simp: sender_stopped_def intro: sender_balance_accept sender_balance_stop)
next
  case (4 d ds rx_closed e outcomes)
  then show ?case
    by (cases "udp_sender (d # ds) rx_closed outcomes")
      (auto simp: sender_stopped_def intro: sender_balance_retry sender_balance_stop)
qed (auto simp: sender_stopped_def intro!: sender_balance_stop)

text \<open>
  \<^bold>\<open>C22\<close>. The UDP sender neither loses, duplicates nor reorders a datagram: what it transmitted
  followed by what it still holds is the queue it was given, whatever the socket answers. The
  answers it consumed are one full-length acceptance per transmitted datagram and retries,
  each retry costing one delay; it only stops with an error on an answer that is neither, and
  it only waits when the queue or the answers are exhausted.
\<close>

theorem udp_sender_conserves:
  assumes "udp_sender queue rx_closed outcomes = (sent, left, slept, ended)"
  shows "queue = sent @ left \<and>
    (\<exists>used rest. outcomes = used @ rest \<and>
       filter (\<lambda>r. \<not> retried r) used = map (\<lambda>d. Inr (length (fst d))) sent \<and>
       slept = NETWORK_UNREACHABLE_RETRY_DELAY * length (filter retried used) \<and>
       sender_stopped rx_closed left rest ended)"
  using udp_sender_balance [of queue rx_closed outcomes] unfolding assms sender_balance_def by simp

theorem udp_sender_conserves_witness:
  "udp_sender [([1, 2], SockV4 1 1), ([3], SockV4 2 2)] False
     [Err (IoError NetworkUnreachable []), Ok 2, Err (IoError PermissionDenied [])] =
   ([([1, 2], SockV4 1 1)], [([3], SockV4 2 2)], from_secs 60, Some (Err (IoError PermissionDenied []))) \<and>
   [([1 :: u8, 2], SockV4 1 1), ([3], SockV4 2 2)] = [([1, 2], SockV4 1 1)] @ [([3], SockV4 2 2)]"
proof -
  have run: "udp_sender [([1, 2], SockV4 1 1), ([3], SockV4 2 2)] False
     [Err (IoError NetworkUnreachable []), Ok 2, Err (IoError PermissionDenied [])] =
   ([([1, 2], SockV4 1 1)], [([3], SockV4 2 2)], from_secs 60, Some (Err (IoError PermissionDenied [])))"
    by (simp add: should_retry_udp_send_def NETWORK_UNREACHABLE_RETRY_DELAY_def Let_def)
  show ?thesis
    by (rule conjI [OF run udp_sender_conserves [OF run, THEN conjunct1]])
qed

text \<open>
  A socket that fails is reported: if one of its two tasks ends, the monitor names that task; as
  long as both run the monitor is left alone; and an earlier failure is kept.
\<close>

lemma task_ended_simps [simp]:
  "task_ended task None m = m" "task_ended task ended (Some f) = Some f"
  by (simp_all add: task_ended_def spawn_completed_def report_failure_def split: option.split sum.split error.split)

lemma split_udp_socket_reports:
  assumes "udp_receiver (channel_new UDP_QUEUE_CAPACITY) received = (rx, received_end)"
    and "udp_sender queued rx_closed sends = (sent, left, slept, sender_end)"
  shows "us_monitor (split_udp_socket receiver_first m received queued rx_closed sends) =
    (if m \<noteq> None \<or> received_end = None \<and> sender_end = None then m
     else if sender_end = None \<or> received_end \<noteq> None \<and> receiver_first then task_ended ''UDP socket receiver'' received_end None
     else task_ended ''UDP socket sender'' sender_end None)"
proof -
  have kept: "\<exists>f. task_ended task (Some outcome) None = Some f" for task outcome
    by (auto simp: task_ended_def spawn_completed_def report_failure_def split: sum.split error.split)
  show ?thesis
    using assms kept [of "''UDP socket receiver''" "the received_end"] kept [of "''UDP socket sender''" "the sender_end"]
    by (cases m; cases received_end; cases sender_end) (auto simp: split_udp_socket_def Let_def)
qed

end
