(* ===== verification/Transport.thy ===== *)
theory Transport
  imports Utils
begin

text \<open>
  \<open>src/transport.rs\<close>: the set of remote candidates, the receive router of the Internet
  socket, and the two forwarding tasks between WireGuard's loopback socket and the Internet
  socket. Each iteration of a task takes the locks it needs and releases them, so a task is
  modelled by what one iteration does to the shared state it sees.
\<close>

section \<open>Candidates\<close>

definition MAX_PEER_REFLEXIVE_CANDIDATES :: nat where
  "MAX_PEER_REFLEXIVE_CANDIDATES = 64"

record candidate_set =
  advertised :: "socket_addr set"
  peer_reflexive :: "socket_addr set"

definition candidate_set_default :: candidate_set where
  "candidate_set_default = \<lparr>advertised = {}, peer_reflexive = {}\<rparr>"

definition contains :: "candidate_set \<Rightarrow> socket_addr \<Rightarrow> bool" where
  "contains cs address \<longleftrightarrow> address \<in> advertised cs \<or> address \<in> peer_reflexive cs"

definition addresses :: "(socket_addr set \<Rightarrow> socket_addr list) \<Rightarrow> candidate_set \<Rightarrow> socket_addr list" where
  "addresses iter cs =
     iter (advertised cs) @ filter (\<lambda>a. a \<notin> advertised cs) (iter (peer_reflexive cs))"

definition replace_advertised :: "candidate_set \<Rightarrow> socket_addr set \<Rightarrow> candidate_set" where
  "replace_advertised cs addrs = cs\<lparr>advertised := addrs\<rparr>"

definition add_peer_reflexive :: "candidate_set \<Rightarrow> socket_addr \<Rightarrow> candidate_set \<times> bool" where
  "add_peer_reflexive cs address =
     (if contains cs address \<or> card (peer_reflexive cs) = MAX_PEER_REFLEXIVE_CANDIDATES
      then (cs, False)
      else (cs\<lparr>peer_reflexive := insert address (peer_reflexive cs)\<rparr>, address \<notin> peer_reflexive cs))"

definition candidate_wf :: "candidate_set \<Rightarrow> bool" where
  "candidate_wf cs \<longleftrightarrow> finite (advertised cs) \<and> finite (peer_reflexive cs) \<and>
     card (peer_reflexive cs) \<le> MAX_PEER_REFLEXIVE_CANDIDATES"

section \<open>The receive router\<close>

datatype internet_packet_kind = KProbe | KStun | KData | KDrop

definition normalize_ipv4_mapped_source :: "socket_addr \<Rightarrow> socket_addr" where
  "normalize_ipv4_mapped_source source =
     (case source of
        SockV4 _ _ \<Rightarrow> source
      | SockV6 ip port _ _ \<Rightarrow>
          (case to_ipv4_mapped ip of None \<Rightarrow> source | Some ipv4 \<Rightarrow> sock_new (IpV4 ipv4) port))"

record receivers =
  probe_rx :: "datagram channel"
  stun_rx :: "datagram channel"
  data_rx :: "datagram channel"

definition receivers_new :: receivers where
  "receivers_new = \<lparr>probe_rx = channel_new UDP_QUEUE_CAPACITY, stun_rx = channel_new UDP_QUEUE_CAPACITY,
                    data_rx = channel_new UDP_QUEUE_CAPACITY\<rparr>"

text \<open>One iteration of the routing task.\<close>

definition route_packet ::
    "(bytes \<Rightarrow> (internet_packet_kind, error) result) \<Rightarrow> receivers \<Rightarrow> datagram \<Rightarrow> (receivers, error) result" where
  "route_packet classify rx d =
     (let (packet, raw_source) = d; source = normalize_ipv4_mapped_source raw_source in
      rbind (classify packet) (\<lambda>kind.
      (case kind of
         KProbe \<Rightarrow> rmap (\<lambda>(c, _). rx\<lparr>probe_rx := c\<rparr>) (try_send (probe_rx rx) (packet, source))
       | KStun \<Rightarrow> rmap (\<lambda>(c, _). rx\<lparr>stun_rx := c\<rparr>) (try_send (stun_rx rx) (packet, source))
       | KData \<Rightarrow> rmap (\<lambda>(c, _). rx\<lparr>data_rx := c\<rparr>) (try_send (data_rx rx) (packet, source))
       | KDrop \<Rightarrow> Ok rx)))"

section \<open>Forwarding\<close>

text \<open>\<open>LocalPeer\<close>: the queue to the loopback socket and WireGuard's last seen endpoint.\<close>

record local_peer =
  lp_sender :: "datagram channel"
  lp_addr :: "socket_addr option"

text \<open>One iteration of the loopback task: remember the endpoint, then send to every candidate.\<close>

definition loopback_forward ::
    "(socket_addr set \<Rightarrow> socket_addr list) \<Rightarrow> candidate_set \<Rightarrow> local_peer \<Rightarrow> datagram channel \<Rightarrow> datagram \<Rightarrow>
     local_peer \<times> (datagram channel, error) result" where
  "loopback_forward iter peers lp to_internet d =
     (let (packet, wireguard_addr) = d;
          lp' = (if lp_addr lp \<noteq> Some wireguard_addr then lp\<lparr>lp_addr := Some wireguard_addr\<rparr> else lp)
      in (lp', send_each try_send to_internet (map (\<lambda>remote_peer. (packet, remote_peer)) (addresses iter peers))))"

text \<open>One iteration of \<open>forward_inbound_traffic\<close>.\<close>

definition forward_inbound ::
    "candidate_set \<Rightarrow> local_peer \<Rightarrow> datagram \<Rightarrow> (local_peer, error) result" where
  "forward_inbound connections lp d =
     (let (packet, remote_peer) = d in
      if \<not> contains connections remote_peer then Ok lp
      else
        (case lp_addr lp of
           Some wireguard_addr \<Rightarrow>
             rmap (\<lambda>(c, _). lp\<lparr>lp_sender := c\<rparr>) (try_send (lp_sender lp) (packet, wireguard_addr))
         | None \<Rightarrow> Ok lp))"

section \<open>Opening the sockets\<close>

text \<open>What the operating system answers while a UDP socket is set up.\<close>

record socket_calls =
  sc_new :: "(unit, error) result"
  sc_set_only_v6 :: "bool \<Rightarrow> (unit, error) result"
  sc_bind :: "socket_addr \<Rightarrow> (unit, error) result"
  sc_set_nonblocking :: "bool \<Rightarrow> (unit, error) result"
  sc_from_std :: "(unit, error) result"
  sc_local_addr :: "(socket_addr, error) result"

text \<open>The result is the port the kernel chose, beside the open socket.\<close>

definition open_internet_socket :: "socket_calls \<Rightarrow> u16 \<Rightarrow> (u16, error) result" where
  "open_internet_socket calls requested_port =
     rbind (sc_new calls) (\<lambda>_.
     rbind (with_context ''Enabling dual-stack IPv4/IPv6 UDP support failed'' (sc_set_only_v6 calls False)) (\<lambda>_.
     rbind (sc_bind calls (sock_new (IpV6 0) requested_port)) (\<lambda>_.
     rbind (sc_set_nonblocking calls True) (\<lambda>_.
     rbind (sc_from_std calls) (\<lambda>_.
     rbind (sc_local_addr calls) (\<lambda>local_addr.
     Ok (sock_port local_addr)))))))"

text \<open>
  The set-up part of \<open>bind_loopback_and_forward\<close>: the endpoint WireGuard sends to listens on
  127.0.0.1, and no WireGuard address is known until its first packet.
\<close>

definition bind_loopback :: "socket_calls \<Rightarrow> u16 \<Rightarrow> (local_peer, error) result" where
  "bind_loopback calls port =
     rbind (sc_bind calls (sock_new (IpV4 0x7F000001) port)) (\<lambda>_.
     rbind (sc_local_addr calls) (\<lambda>_.
     Ok \<lparr>lp_sender = channel_new UDP_QUEUE_CAPACITY, lp_addr = None\<rparr>))"

text \<open>
  The task that \<open>bind_loopback_and_forward\<close> spawns, on the datagrams of WireGuard with the
  candidates at each, until the loopback queue is closed.
\<close>

fun loopback_task ::
    "(socket_addr set \<Rightarrow> socket_addr list) \<Rightarrow> local_peer \<Rightarrow> datagram channel \<Rightarrow> (candidate_set \<times> datagram) list \<Rightarrow>
     (local_peer \<times> datagram channel) \<times> (unit, error) result" where
  "loopback_task iter lp to_internet [] = ((lp, to_internet), Ok ())"
| "loopback_task iter lp to_internet ((peers, d) # rest) =
     (case loopback_forward iter peers lp to_internet d of
        (lp', Inl e) \<Rightarrow> ((lp', to_internet), Err e)
      | (lp', Inr to_internet') \<Rightarrow> loopback_task iter lp' to_internet' rest)"

definition bind_loopback_and_forward ::
    "(socket_addr set \<Rightarrow> socket_addr list) \<Rightarrow> socket_calls \<Rightarrow> u16 \<Rightarrow> monitor \<Rightarrow> datagram channel \<Rightarrow>
     (candidate_set \<times> datagram) list \<Rightarrow> bool \<Rightarrow> (local_peer \<times> datagram channel \<times> monitor, error) result" where
  "bind_loopback_and_forward iter calls port m to_internet observed closed =
     rbind (bind_loopback calls port) (\<lambda>local_peer.
       (let ((lp, q), r) = loopback_task iter local_peer to_internet observed
        in Ok (lp, q, task_ended ''loopback UDP forwarding'' (if closed \<or> r \<noteq> Ok () then Some r else None) m)))"

section \<open>Interface: the candidate table\<close>

text \<open>
  What the forwarding tasks, the probe handler and the DHT listener rely on: the listing is
  the membership test without repetition, renewing replaces what was advertised and keeps
  what was admitted, and admission is capped.
\<close>

locale candidate_table =
  fixes member :: "'c \<Rightarrow> 'a \<Rightarrow> bool"
    and listing :: "'c \<Rightarrow> 'a list"
    and admitted :: "'c \<Rightarrow> 'a set"
    and renew :: "'c \<Rightarrow> 'a set \<Rightarrow> 'c"
    and admit :: "'c \<Rightarrow> 'a \<Rightarrow> 'c \<times> bool"
    and cap :: nat
    and wf :: "'c \<Rightarrow> bool"
  assumes listing_set: "wf c \<Longrightarrow> set (listing c) = {a. member c a}"
    and listing_distinct: "wf c \<Longrightarrow> distinct (listing c)"
    and wf_renew: "wf c \<Longrightarrow> finite s \<Longrightarrow> wf (renew c s)"
    and renew_member: "member (renew c s) a \<longleftrightarrow> a \<in> s \<or> a \<in> admitted c"
    and renew_admitted: "admitted (renew c s) = admitted c"
    and wf_admit: "wf c \<Longrightarrow> wf (fst (admit c a))"
    and admit_member: "member (fst (admit c a)) b \<longleftrightarrow> member c b \<or> (snd (admit c a) \<and> b = a)"
    and admit_admitted: "admitted (fst (admit c a)) = (if snd (admit c a) then insert a (admitted c) else admitted c)"
    and admitted_capped: "wf c \<Longrightarrow> finite (admitted c) \<and> card (admitted c) \<le> cap"
begin

lemma wf_admit_all: "wf c \<Longrightarrow> wf (foldl (\<lambda>c a. fst (admit c a)) c as)"
  by (induction as arbitrary: c) (auto intro: wf_admit)

lemma admit_all_member: "member (foldl (\<lambda>c a. fst (admit c a)) c as) b \<Longrightarrow> member c b \<or> b \<in> set as"
proof (induction as arbitrary: c)
  case (Cons a as)
  then have "member (fst (admit c a)) b \<or> b \<in> set as"
    by simp
  then show ?case by (auto simp: admit_member)
qed simp

lemma admit_all_keeps: "a \<in> admitted c \<Longrightarrow> a \<in> admitted (foldl (\<lambda>c a. fst (admit c a)) c as)"
  by (induction as arbitrary: c) (auto simp: admit_admitted)

lemma admitted_member: "a \<in> admitted c \<Longrightarrow> finite s \<Longrightarrow> member (renew c s) a"
  by (simp add: renew_member)

lemma listing_after_renew: "wf c \<Longrightarrow> finite s \<Longrightarrow> set (listing (renew c s)) = s \<union> admitted c"
  by (auto simp: listing_set wf_renew renew_member)

lemma listing_length: "wf c \<Longrightarrow> finite s \<Longrightarrow> length (listing (renew c s)) \<le> card s + cap"
proof -
  assume wf: "wf c" and fin: "finite s"
  have "length (listing (renew c s)) = card (s \<union> admitted c)"
    using wf fin by (metis distinct_card listing_after_renew listing_distinct wf_renew)
  also have "\<dots> \<le> card s + card (admitted c)"
    by (rule card_Un_le)
  finally show ?thesis
    using admitted_capped [OF wf] by simp
qed

end

lemma candidate_set_default_wf [simp]: "candidate_wf candidate_set_default"
  by (simp add: candidate_wf_def candidate_set_default_def)

lemma contains_default [simp]: "\<not> contains candidate_set_default a"
  by (simp add: contains_def candidate_set_default_def)

text \<open>Every iteration order makes the program's candidate set such a table.\<close>

locale address_order = hash_order iter for iter :: "socket_addr set \<Rightarrow> socket_addr list"

sublocale address_order \<subseteq> candidates: candidate_table contains "addresses iter" peer_reflexive
    replace_advertised add_peer_reflexive MAX_PEER_REFLEXIVE_CANDIDATES candidate_wf
proof
  fix c :: candidate_set and a b :: socket_addr and s :: "socket_addr set"
  show "candidate_wf c \<Longrightarrow> set (addresses iter c) = {a. contains c a}"
    by (auto simp: addresses_def candidate_wf_def contains_def iter_set)
  show "candidate_wf c \<Longrightarrow> distinct (addresses iter c)"
    by (auto simp: addresses_def candidate_wf_def iter_set iter_distinct)
  show "candidate_wf c \<Longrightarrow> finite s \<Longrightarrow> candidate_wf (replace_advertised c s)"
    by (simp add: candidate_wf_def replace_advertised_def)
  show "contains (replace_advertised c s) a \<longleftrightarrow> a \<in> s \<or> a \<in> peer_reflexive c"
    by (simp add: contains_def replace_advertised_def)
  show "peer_reflexive (replace_advertised c s) = peer_reflexive c"
    by (simp add: replace_advertised_def)
  show "candidate_wf c \<Longrightarrow> candidate_wf (fst (add_peer_reflexive c a))"
    by (auto simp: candidate_wf_def add_peer_reflexive_def card_insert_if)
  show "contains (fst (add_peer_reflexive c a)) b \<longleftrightarrow>
      contains c b \<or> (snd (add_peer_reflexive c a) \<and> b = a)"
    by (auto simp: add_peer_reflexive_def contains_def)
  show "peer_reflexive (fst (add_peer_reflexive c a)) =
      (if snd (add_peer_reflexive c a) then insert a (peer_reflexive c) else peer_reflexive c)"
    by (auto simp: add_peer_reflexive_def contains_def)
  show "candidate_wf c \<Longrightarrow>
      finite (peer_reflexive c) \<and> card (peer_reflexive c) \<le> MAX_PEER_REFLEXIVE_CANDIDATES"
    by (simp add: candidate_wf_def)
qed

context address_order
begin

lemma candidates_listing: "candidate_wf cs \<Longrightarrow> contains cs a \<Longrightarrow> count_list (addresses iter cs) a = 1"
  using candidates.listing_distinct [of cs] candidates.listing_set [of cs]
  by (simp add: distinct_count_one)

lemma candidates_listing_bound: "candidate_wf cs \<Longrightarrow>
    set (addresses iter cs) = {a. contains cs a} \<and> distinct (addresses iter cs) \<and>
    length (addresses iter cs) \<le> card (advertised cs) + 64"
  using candidates.listing_length [of cs "advertised cs"]
  by (simp add: candidates.listing_set candidates.listing_distinct replace_advertised_def
      candidate_wf_def MAX_PEER_REFLEXIVE_CANDIDATES_def)

end

interpretation ascending_addresses: address_order sorted_list_of_set
  by unfold_locales

section \<open>Candidate histories\<close>

text \<open>
  The candidate set of a connection is changed by two tasks only: the DHT listener replaces
  the advertised addresses, the probe handler admits a source.
\<close>

datatype candidate_op = Renew "socket_addr set" | Admit socket_addr

primrec candidate_apply :: "candidate_set \<Rightarrow> candidate_op \<Rightarrow> candidate_set" where
  "candidate_apply cs (Renew s) = replace_advertised cs s"
| "candidate_apply cs (Admit a) = fst (add_peer_reflexive cs a)"

definition op_finite :: "candidate_op \<Rightarrow> bool" where
  "op_finite op = (case op of Renew s \<Rightarrow> finite s | Admit _ \<Rightarrow> True)"

lemma candidate_apply_wf: "candidate_wf cs \<Longrightarrow> op_finite op \<Longrightarrow> candidate_wf (candidate_apply cs op)"
  by (cases op) (simp_all add: op_finite_def ascending_addresses.candidates.wf_renew
      ascending_addresses.candidates.wf_admit)

lemma candidate_apply_reflexive:
  "peer_reflexive cs \<subseteq> peer_reflexive (candidate_apply cs op)"
  by (cases op) (auto simp: replace_advertised_def add_peer_reflexive_def)

lemma candidate_run_reflexive:
  "peer_reflexive cs \<subseteq> peer_reflexive (foldl candidate_apply cs ops)"
proof (induction ops arbitrary: cs)
  case (Cons op ops)
  then show ?case
    using candidate_apply_reflexive [of cs op] by fastforce
qed simp

lemma candidate_run_wf:
  "candidate_wf cs \<Longrightarrow> \<forall>op\<in>set ops. op_finite op \<Longrightarrow> candidate_wf (foldl candidate_apply cs ops)"
  by (induction ops arbitrary: cs) (auto intro: candidate_apply_wf)

text \<open>
  \<^bold>\<open>C20\<close>. Over every history of advertised refreshes and admissions, at most 64 sources are
  admitted as peer-reflexive; a further source is admitted exactly when it is not yet a
  candidate and the bound is not reached; and once admitted it stays a candidate, listed
  exactly once, whatever refreshes and admissions follow.
\<close>

theorem peer_reflexive_history:
  assumes order: "hash_order iter" and finite: "\<forall>op\<in>set (before @ after). op_finite op"
    and cs: "cs = foldl candidate_apply candidate_set_default before"
  shows "card (peer_reflexive cs) \<le> 64 \<and>
    (snd (add_peer_reflexive cs a) \<longleftrightarrow> \<not> contains cs a \<and> card (peer_reflexive cs) < 64) \<and>
    (snd (add_peer_reflexive cs a) \<longrightarrow>
       count_list (addresses iter (foldl candidate_apply (fst (add_peer_reflexive cs a)) after)) a = 1)"
proof (intro conjI impI)
  have wf: "candidate_wf cs"
    using finite unfolding cs by (intro candidate_run_wf) auto
  then show "card (peer_reflexive cs) \<le> 64"
    by (simp add: candidate_wf_def MAX_PEER_REFLEXIVE_CANDIDATES_def)
  then show "snd (add_peer_reflexive cs a) \<longleftrightarrow> \<not> contains cs a \<and> card (peer_reflexive cs) < 64"
    by (auto simp: add_peer_reflexive_def MAX_PEER_REFLEXIVE_CANDIDATES_def contains_def)
  assume added: "snd (add_peer_reflexive cs a)"
  let ?cs = "foldl candidate_apply (fst (add_peer_reflexive cs a)) after"
  have "a \<in> peer_reflexive (fst (add_peer_reflexive cs a))"
    using added by (auto simp: add_peer_reflexive_def)
  then have "contains ?cs a"
    using candidate_run_reflexive by (auto simp: contains_def)
  moreover have "candidate_wf ?cs"
    using finite wf ascending_addresses.candidates.wf_admit by (intro candidate_run_wf) auto
  ultimately show "count_list (addresses iter ?cs) a = 1"
    using address_order.candidates_listing [OF address_order.intro, OF order] by blast
qed

theorem peer_reflexive_history_witness:
  "snd (add_peer_reflexive candidate_set_default (SockV4 0xC0000201 10000)) \<and>
   count_list (addresses sorted_list_of_set (foldl candidate_apply
     (fst (add_peer_reflexive candidate_set_default (SockV4 0xC0000201 10000)))
     [Renew {SockV4 0xC0000202 10001}, Renew {}])) (SockV4 0xC0000201 10000) = 1"
proof -
  have "snd (add_peer_reflexive candidate_set_default (SockV4 0xC0000201 10000))"
    by (simp add: add_peer_reflexive_def candidate_set_default_def contains_def MAX_PEER_REFLEXIVE_CANDIDATES_def)
  then show ?thesis
    using peer_reflexive_history [OF ascending.hash_order_axioms, of "[]"
        "[Renew {SockV4 0xC0000202 10001}, Renew {}]" candidate_set_default "SockV4 0xC0000201 10000"]
    by (simp add: op_finite_def)
qed

section \<open>Delivery\<close>

text \<open>
  The inbound task over a sequence of iterations. Each iteration sees the candidate set and
  WireGuard's endpoint as the other tasks left them, and the queue as its last iteration did.
\<close>

fun forward_inbound_traffic ::
    "local_peer \<Rightarrow> (candidate_set \<times> socket_addr option \<times> datagram) list \<Rightarrow> (local_peer, error) result" where
  "forward_inbound_traffic lp [] = Ok lp"
| "forward_inbound_traffic lp ((connections, addr, d) # rest) =
     rbind (forward_inbound connections (lp\<lparr>lp_addr := addr\<rparr>) d) (\<lambda>lp'. forward_inbound_traffic lp' rest)"

text \<open>The datagrams that should reach WireGuard: those whose source was a candidate when read.\<close>

definition admitted_traffic :: "(candidate_set \<times> socket_addr option \<times> datagram) list \<Rightarrow> datagram list" where
  "admitted_traffic obs =
     map (\<lambda>(cs, addr, packet, source). (packet, the addr))
       (filter (\<lambda>(cs, addr, packet, source). contains cs source \<and> addr \<noteq> None) obs)"

lemma forward_inbound_send_each:
  "rmap lp_sender (forward_inbound_traffic lp obs) = send_each try_send (lp_sender lp) (admitted_traffic obs)"
proof (induction obs arbitrary: lp)
  case Nil
  then show ?case by (simp add: admitted_traffic_def)
next
  case (Cons x obs)
  obtain cs addr packet source where x: "x = (cs, addr, packet, source)"
    by (cases x)
  show ?case
  proof (cases "contains cs source \<and> addr \<noteq> None")
    case True
    then obtain wg where "addr = Some wg" by auto
    with True Cons.IH x show ?thesis
      by (cases "try_send (lp_sender lp) (packet, wg)")
        (auto simp: forward_inbound_def admitted_traffic_def)
  next
    case False
    with Cons.IH [of "lp\<lparr>lp_addr := addr\<rparr>"] x show ?thesis
      by (auto simp: forward_inbound_def admitted_traffic_def split: option.splits)
  qed
qed

lemma send_each_open: "\<not> ch_closed q \<Longrightarrow> \<exists>q'. send_each try_send q xs = Inr q' \<and> \<not> ch_closed q'"
  by (induction xs arbitrary: q) (auto simp: try_send_eq)

text \<open>
  While the send queue is open the loopback task does not fail: it stops only when its own
  queue is closed, and WireGuard's endpoint is that of the last datagram.
\<close>

lemma loopback_task_open:
  "\<not> ch_closed q \<Longrightarrow> \<exists>lp' q'. loopback_task iter lp q obs = ((lp', q'), Ok ()) \<and> \<not> ch_closed q' \<and>
     lp_sender lp' = lp_sender lp \<and> (obs \<noteq> [] \<longrightarrow> lp_addr lp' = Some (snd (snd (last obs))))"
proof (induction obs arbitrary: lp q)
  case (Cons x obs)
  obtain peers packet wg where x: "x = (peers, packet, wg)"
    by (cases x) auto
  obtain q' where q': "send_each try_send q (map (\<lambda>remote_peer. (packet, remote_peer)) (addresses iter peers)) = Inr q'"
    "\<not> ch_closed q'"
    using send_each_open [OF Cons.prems] by blast
  with Cons.IH [OF q'(2), of "if lp_addr lp \<noteq> Some wg then lp\<lparr>lp_addr := Some wg\<rparr> else lp"] show ?case
    by (auto simp: x loopback_forward_def)
qed simp

text \<open>
  \<^bold>\<open>C10\<close>. While the loopback queue is open the inbound task never stops, and it delivers to
  WireGuard exactly the datagrams whose source was a candidate at the time they were read and
  for which WireGuard's endpoint was known: unchanged, in order, without duplicates, up to the
  free space of the bounded queue. Nothing from any other source enters the queue.
\<close>

theorem inbound_delivers_admitted:
  assumes "channel_wf (lp_sender lp)" and "\<not> ch_closed (lp_sender lp)"
  shows "\<exists>lp'. forward_inbound_traffic lp obs = Ok lp' \<and> channel_wf (lp_sender lp') \<and>
    ch_items (lp_sender lp') = ch_items (lp_sender lp) @
      take (ch_capacity (lp_sender lp) - length (ch_items (lp_sender lp))) (admitted_traffic obs)"
proof -
  obtain q where q: "send_each try_send (lp_sender lp) (admitted_traffic obs) = Ok q"
    using send_each_open [OF assms(2)] by blast
  then obtain lp' where "forward_inbound_traffic lp obs = Ok lp'" "lp_sender lp' = q"
    using forward_inbound_send_each [of lp obs] by (auto simp: result_simps)
  with udp_queue.send_each_contents [OF assms(1) q] show ?thesis
    by auto
qed

theorem inbound_delivers_admitted_witness:
  "\<exists>lp'. forward_inbound_traffic \<lparr>lp_sender = channel_new 1, lp_addr = None\<rparr>
      [(candidate_set_default, Some (SockV4 0x7F000001 7), [1], SockV4 1 1),
       (\<lparr>advertised = {SockV4 1 1}, peer_reflexive = {}\<rparr>, Some (SockV4 0x7F000001 7), [2], SockV4 1 1)] = Ok lp' \<and>
    ch_items (lp_sender lp') = [([2], SockV4 0x7F000001 7)]"
  using inbound_delivers_admitted [of "\<lparr>lp_sender = channel_new 1, lp_addr = None\<rparr>"
      "[(candidate_set_default, Some (SockV4 0x7F000001 7), [1], SockV4 1 1),
        (\<lparr>advertised = {SockV4 1 1}, peer_reflexive = {}\<rparr>, Some (SockV4 0x7F000001 7), [2], SockV4 1 1)]"]
  by (auto simp: channel_new_def channel_wf_def admitted_traffic_def contains_def candidate_set_default_def)

text \<open>
  \<^bold>\<open>C21\<close>. An outbound iteration remembers the sender as WireGuard's endpoint and offers the
  packet to the Internet queue once for every candidate and for nothing else; with room for
  them all, every candidate receives exactly one copy.
\<close>

theorem loopback_broadcasts:
  assumes order: "hash_order iter" and wf: "candidate_wf peers"
    and queue: "channel_wf q" "\<not> ch_closed q"
    and room: "length (ch_items q) + card (advertised peers) + 64 \<le> ch_capacity q"
  shows "\<exists>q' new. loopback_forward iter peers lp q (packet, wg) = (lp\<lparr>lp_addr := Some wg\<rparr>, Ok q') \<and>
    ch_items q' = ch_items q @ new \<and> distinct new \<and>
    set new = {(packet, a) |a. contains peers a}"
proof -
  let ?new = "map (\<lambda>a. (packet, a)) (addresses iter peers)"
  obtain q' where q': "send_each try_send q ?new = Ok q'"
    using send_each_open [OF queue(2)] by blast
  have "set (addresses iter peers) = {a. contains peers a}" and dist: "distinct (addresses iter peers)"
    and "length (addresses iter peers) \<le> card (advertised peers) + 64"
    using address_order.candidates_listing_bound [OF address_order.intro, OF order wf] by simp_all
  then have "take (ch_capacity q - length (ch_items q)) ?new = ?new"
    and "set ?new = {(packet, a) |a. contains peers a}"
    using room by auto
  moreover have "distinct ?new"
    using dist by (simp add: distinct_map inj_on_def)
  ultimately show ?thesis
    using udp_queue.send_each_contents [OF queue(1) q'] q'
    by (intro exI [of _ q'] exI [of _ ?new]) (simp add: loopback_forward_def)
qed

theorem loopback_broadcasts_witness:
  "\<exists>q' new. loopback_forward sorted_list_of_set \<lparr>advertised = {SockV4 1 1, SockV4 2 2}, peer_reflexive = {}\<rparr>
      \<lparr>lp_sender = channel_new 1, lp_addr = None\<rparr> (channel_new 256) ([9], SockV4 0x7F000001 7)
      = (\<lparr>lp_sender = channel_new 1, lp_addr = Some (SockV4 0x7F000001 7)\<rparr>, Ok q') \<and>
    ch_items q' = new \<and> distinct new \<and> set new = {([9], SockV4 1 1), ([9], SockV4 2 2)}"
  using loopback_broadcasts [OF ascending.hash_order_axioms,
      of "\<lparr>advertised = {SockV4 1 1, SockV4 2 2}, peer_reflexive = {}\<rparr>" "channel_new 256"
         "\<lparr>lp_sender = channel_new 1, lp_addr = None\<rparr>" "[9]" "SockV4 0x7F000001 7"]
  by (auto simp: candidate_wf_def channel_new_def channel_wf_def contains_def MAX_PEER_REFLEXIVE_CANDIDATES_def)

end
