(* ===== verification/Probe.thy ===== *)
theory Probe
  imports Transport
begin

text \<open>
  \<open>src/probe.rs\<close>: the control-probe protocol. A frame is a magic and a 16-byte token; a peer
  echoes frames that carry its own token and thereby admits their source, and the sender
  recognises the echo of its outstanding probe. Instants and the percentages drawn by
  \<open>jitter\<close> are arguments; the base64 engine is the parameter \<open>b64_decode\<close>.
\<close>

section \<open>Constants, frames and tokens\<close>

definition MAGIC :: bytes where "MAGIC = [0x50, 0x32, 0x50, 0x43]"
definition FRAME_LEN :: nat where "FRAME_LEN = 20"
definition MAX_PROBE_PATHS :: nat where "MAX_PROBE_PATHS = 64"
definition MAX_REPLY_SOURCES :: nat where "MAX_REPLY_SOURCES = 256"
definition REPLY_INTERVAL :: duration where "REPLY_INTERVAL = from_secs 1"
definition ACK_TIMEOUT :: duration where "ACK_TIMEOUT = from_secs 3"

definition classify :: "bytes \<Rightarrow> bool" where
  "classify packet = starts_with packet MAGIC"

definition parse_frame :: "bytes \<Rightarrow> bytes option" where
  "parse_frame packet =
     (if length packet \<noteq> FRAME_LEN \<or> \<not> starts_with packet MAGIC then None
      else (let token = drop 4 packet in if length token = 16 then Some token else None))"

definition frame :: "bytes \<Rightarrow> bytes" where
  "frame token = MAGIC @ token"

definition decode_token :: "(string \<Rightarrow> bytes option) \<Rightarrow> string \<Rightarrow> bytes option" where
  "decode_token b64_decode token =
     (case b64_decode token of None \<Rightarrow> None
      | Some raw \<Rightarrow> if length raw = 16 then Some raw else None)"

text \<open>
  \<open>interval.mul_f64(percent / 100)\<close>. The intervals in use are 5 and 15 seconds: the product
  is a whole number of nanoseconds, and the conversion back to \<open>Duration\<close> rounds to the
  nearest nanosecond, far above the rounding error of the double product.
\<close>

definition jitter :: "nat \<Rightarrow> duration \<Rightarrow> duration" where
  "jitter percent interval = interval * percent div 100"

section \<open>The controller\<close>

record path =
  next_probe :: instant
  outstanding :: "instant option"
  verified :: bool
  fast_stage :: u8
  last_control_response :: "instant option"

record probe_state =
  local_token :: bytes
  remote_token :: "bytes option"
  paths :: "socket_addr \<rightharpoonup> path"
  reply_sources :: "socket_addr \<rightharpoonup> instant"

datatype probe_action = EchoAndAdmit | Acknowledged | DropPacket

definition probe_new :: "bytes \<Rightarrow> probe_state" where
  "probe_new token = \<lparr>local_token = token, remote_token = None, paths = Map.empty, reply_sources = Map.empty\<rparr>"

definition local_token_base64 :: "(bytes \<Rightarrow> string) \<Rightarrow> probe_state \<Rightarrow> string" where
  "local_token_base64 b64_encode st = b64_encode (local_token st)"

definition path_new :: "instant \<Rightarrow> path" where
  "path_new now = \<lparr>next_probe = now, outstanding = None, verified = False, fast_stage = 0,
                   last_control_response = None\<rparr>"

fun select_paths :: "socket_addr set \<Rightarrow> socket_addr list \<Rightarrow> socket_addr set" where
  "select_paths selected [] = selected"
| "select_paths selected (candidate # candidates) =
     (if card selected = MAX_PROBE_PATHS then selected
      else select_paths (insert candidate selected) candidates)"

definition update_remote ::
    "instant \<Rightarrow> probe_state \<Rightarrow> bytes option \<Rightarrow> socket_addr list \<Rightarrow> probe_state" where
  "update_remote now st token candidates =
     (let st = (if remote_token st \<noteq> token then st\<lparr>paths := Map.empty, remote_token := token\<rparr> else st) in
      (case remote_token st of
         None \<Rightarrow> st\<lparr>paths := Map.empty\<rparr>
       | Some _ \<Rightarrow>
           (let selected = select_paths {} candidates; retained = paths st |` selected
            in st\<lparr>paths := (\<lambda>a. if a \<in> selected \<and> retained a = None then Some (path_new now) else retained a)\<rparr>)))"

definition retain_recent :: "instant \<Rightarrow> (socket_addr \<rightharpoonup> instant) \<Rightarrow> (socket_addr \<rightharpoonup> instant)" where
  "retain_recent now m =
     (\<lambda>a. case m a of None \<Rightarrow> None
          | Some seen \<Rightarrow> if duration_since now seen < REPLY_INTERVAL then Some seen else None)"

definition packet_action ::
    "instant \<Rightarrow> nat \<Rightarrow> probe_state \<Rightarrow> bytes \<Rightarrow> socket_addr \<Rightarrow> probe_state \<times> probe_action" where
  "packet_action now percent st packet source =
     (case parse_frame packet of
        None \<Rightarrow> (st, DropPacket)
      | Some token \<Rightarrow>
          (let st = st\<lparr>reply_sources := retain_recent now (reply_sources st)\<rparr> in
           if token = local_token st then
             (if MAX_REPLY_SOURCES \<le> card (dom (reply_sources st)) \<and> source \<notin> dom (reply_sources st)
              then (st, DropPacket)
              else
                (let previous = reply_sources st source;
                     st = st\<lparr>reply_sources := (reply_sources st)(source \<mapsto> now)\<rparr>
                 in if (case previous of None \<Rightarrow> False | Some seen \<Rightarrow> duration_since now seen < REPLY_INTERVAL)
                    then (st, DropPacket) else (st, EchoAndAdmit)))
           else if remote_token st \<noteq> Some token then (st, DropPacket)
           else
             (case paths st source of
                None \<Rightarrow> (st, DropPacket)
              | Some path \<Rightarrow>
                  if outstanding path = None then (st, DropPacket)
                  else
                    (st\<lparr>paths := (paths st)(source \<mapsto>
                        path\<lparr>outstanding := None, verified := True, fast_stage := 0,
                             next_probe := now + jitter percent (from_secs 15),
                             last_control_response := Some now\<rparr>)\<rparr>,
                     Acknowledged))))"

definition saturating_inc :: "u8 \<Rightarrow> u8" where
  "saturating_inc n = (if n = 255 then 255 else n + 1)"

text \<open>The body of the loop of \<open>due_frames\<close> on one path: the path afterwards, and whether it is probed.\<close>

definition path_timed_out :: "instant \<Rightarrow> path \<Rightarrow> bool" where
  "path_timed_out now path \<longleftrightarrow> verified path \<and>
     (case outstanding path of None \<Rightarrow> False | Some sent \<Rightarrow> ACK_TIMEOUT \<le> duration_since now sent)"

definition path_due :: "instant \<Rightarrow> nat \<Rightarrow> path \<Rightarrow> path \<times> bool" where
  "path_due now percent path =
     (let path = (if path_timed_out now path
                  then path\<lparr>verified := False, fast_stage := 0, outstanding := None, next_probe := now\<rparr>
                  else path) in
      if now < next_probe path then (path, False)
      else
        (let path = path\<lparr>outstanding := Some now\<rparr> in
         if verified path then (path\<lparr>next_probe := now + jitter percent (from_secs 15)\<rparr>, True)
         else
           (let delay = (if fast_stage path = 0 then from_secs 1
                         else if fast_stage path = 1 then from_secs 2
                         else jitter percent (from_secs 5))
            in (path\<lparr>fast_stage := saturating_inc (fast_stage path), next_probe := now + delay\<rparr>, True))))"

fun due_loop ::
    "instant \<Rightarrow> (socket_addr \<Rightarrow> nat) \<Rightarrow> bytes \<Rightarrow> socket_addr list \<Rightarrow> (socket_addr \<rightharpoonup> path) \<Rightarrow>
     (socket_addr \<rightharpoonup> path) \<times> datagram list" where
  "due_loop now percent token [] ps = (ps, [])"
| "due_loop now percent token (address # rest) ps =
     (case ps address of
        None \<Rightarrow> due_loop now percent token rest ps
      | Some path \<Rightarrow>
          (let (path', due) = path_due now (percent address) path;
               (ps', destinations) = due_loop now percent token rest (ps(address \<mapsto> path'))
           in (ps', if due then (frame token, address) # destinations else destinations)))"

definition due_frames ::
    "(socket_addr set \<Rightarrow> socket_addr list) \<Rightarrow> instant \<Rightarrow> (socket_addr \<Rightarrow> nat) \<Rightarrow> probe_state \<Rightarrow>
     probe_state \<times> datagram list" where
  "due_frames iter now percent st =
     (case remote_token st of
        None \<Rightarrow> (st, [])
      | Some token \<Rightarrow>
          (let (ps, destinations) = due_loop now percent token (iter (dom (paths st))) (paths st)
           in (st\<lparr>paths := ps\<rparr>, destinations)))"

section \<open>The two tasks\<close>

text \<open>One iteration of \<open>handle_packets\<close>: it changes the controller, the candidates and the send queue.\<close>

definition handle_packet ::
    "instant \<Rightarrow> nat \<Rightarrow> probe_state \<times> candidate_set \<times> datagram channel \<Rightarrow> datagram \<Rightarrow>
     (probe_state \<times> candidate_set \<times> datagram channel) \<times> (unit, error) result" where
  "handle_packet now percent s d =
     (let (st, connections, to_internet) = s; (packet, source) = d;
          (st', action) = packet_action now percent st packet source in
      (case action of
         EchoAndAdmit \<Rightarrow>
           (let connections' = fst (add_peer_reflexive connections source) in
            (case try_send to_internet (packet, source) of
               Inl e \<Rightarrow> ((st', connections', to_internet), Err e)
             | Inr (to_internet', _) \<Rightarrow> ((st', connections', to_internet'), Ok ())))
       | Acknowledged \<Rightarrow> ((st', connections, to_internet), Ok ())
       | DropPacket \<Rightarrow> ((st', connections, to_internet), Ok ())))"

text \<open>The whole task on the packets it receives until its queue is closed.\<close>

fun handle_packets ::
    "probe_state \<times> candidate_set \<times> datagram channel \<Rightarrow> (instant \<times> nat \<times> datagram) list \<Rightarrow>
     (probe_state \<times> candidate_set \<times> datagram channel) \<times> (unit, error) result" where
  "handle_packets s [] = (s, Err (Anyhow ''control UDP receiver stopped''))"
| "handle_packets s ((now, percent, d) # rest) =
     (case handle_packet now percent s d of
        (s', Inl e) \<Rightarrow> (s', Err e)
      | (s', Inr _) \<Rightarrow> handle_packets s' rest)"

text \<open>One tick of \<open>schedule_probes\<close>.\<close>

definition schedule_tick ::
    "(socket_addr set \<Rightarrow> socket_addr list) \<Rightarrow> instant \<Rightarrow> (socket_addr \<Rightarrow> nat) \<Rightarrow> probe_state \<Rightarrow>
     datagram channel \<Rightarrow> probe_state \<times> (datagram channel, error) result" where
  "schedule_tick iter now percent st to_internet =
     (let (st', frames) = due_frames iter now percent st
      in (st', send_each try_send to_internet frames))"

section \<open>Frames\<close>

lemma length_frame [byte_simps]: "length (frame token) = 4 + length token"
  by (simp add: frame_def MAGIC_def)

lemma classify_frame [simp]: "classify (frame token)"
  by (simp add: classify_def frame_def)

lemma parse_frame_iff: "parse_frame packet = Some token \<longleftrightarrow> length token = 16 \<and> packet = frame token"
  by (auto simp: parse_frame_def frame_def FRAME_LEN_def starts_with_iff MAGIC_def)

lemma parse_frame_frame [simp]: "length token = 16 \<Longrightarrow> parse_frame (frame token) = Some token"
  by (simp add: parse_frame_iff)

lemma frame_inject [simp]: "frame a = frame b \<longleftrightarrow> a = b"
  by (simp add: frame_def)

interpretation frame_codec: strict_codec frame parse_frame FRAME_LEN "\<lambda>token. length token = 16"
  by unfold_locales (auto simp: parse_frame_iff length_frame FRAME_LEN_def)

text \<open>
  Control frames are recognised exactly: a packet parses to a token if and only if it
  is the 20-byte frame of that token; every frame is classified as control, and so is every
  packet with the magic that is not a frame, which therefore never counts as data.
\<close>

lemma frame_exact:
  "(parse_frame packet = Some token \<longleftrightarrow> length token = 16 \<and> packet = frame token) \<and>
   (classify packet \<longleftrightarrow> (\<exists>rest. packet = MAGIC @ rest)) \<and>
   (parse_frame packet = None \<longleftrightarrow> \<not> (classify packet \<and> length packet = FRAME_LEN))"
proof (intro conjI)
  show "parse_frame packet = Some token \<longleftrightarrow> length token = 16 \<and> packet = frame token"
    by (rule frame_codec.dec_iff)
  show "classify packet \<longleftrightarrow> (\<exists>rest. packet = MAGIC @ rest)"
    by (simp add: classify_def starts_with_iff)
  show "parse_frame packet = None \<longleftrightarrow> \<not> (classify packet \<and> length packet = FRAME_LEN)"
    by (auto simp: parse_frame_def classify_def FRAME_LEN_def)
qed

section \<open>Path selection and the due loop\<close>

lemma select_paths_bounds:
  assumes "finite selected" and "card selected \<le> MAX_PROBE_PATHS"
  shows "finite (select_paths selected cs) \<and> card (select_paths selected cs) \<le> MAX_PROBE_PATHS \<and>
    selected \<subseteq> select_paths selected cs \<and> select_paths selected cs \<subseteq> selected \<union> set cs"
  using assms
proof (induction selected cs rule: select_paths.induct)
  case (2 selected candidate candidates)
  show ?case
  proof (cases "card selected = MAX_PROBE_PATHS")
    case True
    with 2 show ?thesis by auto
  next
    case False
    with "2.prems" have "finite (insert candidate selected)"
      and "card (insert candidate selected) \<le> MAX_PROBE_PATHS"
      by (auto simp: card_insert_if)
    with "2.IH" False show ?thesis by auto
  qed
qed auto

text \<open>Short lists are selected completely.\<close>

lemma select_paths_all:
  "finite selected \<Longrightarrow> card (selected \<union> set cs) \<le> MAX_PROBE_PATHS \<Longrightarrow> select_paths selected cs = selected \<union> set cs"
proof (induction selected cs rule: select_paths.induct)
  case (2 selected candidate candidates)
  show ?case
  proof (cases "card selected = MAX_PROBE_PATHS")
    case True
    have "selected = selected \<union> set (candidate # candidates)"
      using 2 True by (intro card_seteq) auto
    with True show ?thesis by simp
  next
    case False
    with 2 show ?thesis by simp
  qed
qed simp

lemma update_remote_paths:
  "paths (update_remote now st token cs) a =
     (if token = None \<or> a \<notin> select_paths {} cs then None
      else if remote_token st = token \<and> paths st a \<noteq> None then paths st a else Some (path_new now))"
  by (auto simp: update_remote_def Let_def restrict_map_def split: option.splits)

lemma update_remote_fields [simp]:
  "local_token (update_remote now st token cs) = local_token st"
  "remote_token (update_remote now st token cs) = token"
  "reply_sources (update_remote now st token cs) = reply_sources st"
  by (auto simp: update_remote_def Let_def split: option.splits)

lemma due_loop_closed:
  "distinct as \<Longrightarrow> due_loop now percent token as ps =
     ((\<lambda>a. if a \<in> set as then map_option (\<lambda>p. fst (path_due now (percent a) p)) (ps a) else ps a),
      map (\<lambda>a. (frame token, a))
        (filter (\<lambda>a. case ps a of None \<Rightarrow> False | Some p \<Rightarrow> snd (path_due now (percent a) p)) as))"
proof (induction as arbitrary: ps)
  case (Cons a as)
  show ?case
  proof (cases "ps a")
    case None
    with Cons show ?thesis by (auto simp: fun_eq_iff)
  next
    case (Some p)
    have *: "filter (\<lambda>x. case (ps(a \<mapsto> p')) x of None \<Rightarrow> False | Some p \<Rightarrow> snd (path_due now (percent x) p)) as
        = filter (\<lambda>x. case ps x of None \<Rightarrow> False | Some p \<Rightarrow> snd (path_due now (percent x) p)) as" for p'
      using Cons.prems by (intro filter_cong) auto
    from Some Cons show ?thesis
      by (simp add: Let_def * del: fun_upd_apply split: prod.split) (auto simp: fun_eq_iff)
  qed
qed simp

context hash_order
begin

lemma dom_distinct: "finite (dom m) \<Longrightarrow> distinct (iter (dom m)) \<and> set (iter (dom m)) = dom m"
  by (simp add: iter_enumerates)

end

lemma due_frames_closed:
  assumes "hash_order iter" and "finite (dom (paths st))" and "remote_token st = Some token"
  shows "due_frames iter now percent st =
    (st\<lparr>paths := (\<lambda>a. map_option (\<lambda>p. fst (path_due now (percent a) p)) (paths st a))\<rparr>,
     map (\<lambda>a. (frame token, a))
        (filter (\<lambda>a. case paths st a of None \<Rightarrow> False | Some p \<Rightarrow> snd (path_due now (percent a) p))
          (iter (dom (paths st)))))"
proof -
  have *: "(if a \<in> dom (paths st) then map_option f (paths st a) else paths st a) = map_option f (paths st a)"
    for a and f :: "path \<Rightarrow> path"
    by (cases "paths st a") auto
  show ?thesis
    using hash_order.dom_distinct [OF assms(1,2)] assms(3)
    by (simp add: due_frames_def due_loop_closed *)
qed

lemma due_frames_fields:
  "local_token (fst (due_frames iter now percent st)) = local_token st"
  "remote_token (fst (due_frames iter now percent st)) = remote_token st"
  "reply_sources (fst (due_frames iter now percent st)) = reply_sources st"
  by (auto simp: due_frames_def Let_def split: option.splits prod.splits)

lemma due_loop_dom: "dom (fst (due_loop now percent token as ps)) = dom ps"
proof (induction as arbitrary: ps)
  case (Cons a as)
  show ?case
  proof (cases "ps a")
    case None
    with Cons show ?thesis by simp
  next
    case (Some p)
    then have "insert a (dom ps) = dom ps" by auto
    with Some Cons [of "ps(a \<mapsto> fst (path_due now (percent a) p))"] show ?thesis
      by (simp add: Let_def case_prod_unfold del: fun_upd_apply)
  qed
qed simp

end
