(* ===== verification/Probe_Protocol.thy ===== *)
theory Probe_Protocol
  imports Probe
begin

text \<open>
  Runs of the probe controller. Three tasks share it behind a mutex: the DHT listener
  (\<open>update_remote\<close>), the packet handler (\<open>packet_action\<close>) and the scheduler (\<open>due_frames\<close>).
  Each holds the lock for a whole operation, so a run is a sequence of these operations in
  some order, each with the instant read under the lock. Shown here: bounded memory, what
  an acknowledgement proves, the rate limits, and the probe schedule.
\<close>

section \<open>Events\<close>

datatype probe_event =
    Remote instant "bytes option" "socket_addr list"
  | Packet instant nat bytes socket_addr
  | Tick instant "socket_addr \<Rightarrow> nat"

primrec event_time :: "probe_event \<Rightarrow> instant" where
  "event_time (Remote now _ _) = now"
| "event_time (Packet now _ _ _) = now"
| "event_time (Tick now _) = now"

primrec probe_apply :: "(socket_addr set \<Rightarrow> socket_addr list) \<Rightarrow> probe_state \<Rightarrow> probe_event \<Rightarrow> probe_state" where
  "probe_apply iter st (Remote now token cs) = update_remote now st token cs"
| "probe_apply iter st (Packet now percent packet source) = fst (packet_action now percent st packet source)"
| "probe_apply iter st (Tick now percent) = fst (due_frames iter now percent st)"

text \<open>The probes an event sends, and whether it echoes to a source.\<close>

primrec probe_sent :: "(socket_addr set \<Rightarrow> socket_addr list) \<Rightarrow> probe_state \<Rightarrow> probe_event \<Rightarrow> datagram list" where
  "probe_sent iter st (Remote now token cs) = []"
| "probe_sent iter st (Packet now percent packet source) = []"
| "probe_sent iter st (Tick now percent) = snd (due_frames iter now percent st)"

primrec echoes_to :: "socket_addr \<Rightarrow> probe_state \<Rightarrow> probe_event \<Rightarrow> bool" where
  "echoes_to a st (Remote now token cs) \<longleftrightarrow> False"
| "echoes_to a st (Packet now percent packet source) \<longleftrightarrow>
     source = a \<and> snd (packet_action now percent st packet source) = EchoAndAdmit"
| "echoes_to a st (Tick now percent) \<longleftrightarrow> False"

text \<open>What the types of the code guarantee of an event: 16-byte tokens and the range of \<open>random_range\<close>.\<close>

primrec event_typed :: "probe_event \<Rightarrow> bool" where
  "event_typed (Remote now token cs) \<longleftrightarrow> (case token of None \<Rightarrow> True | Some tok \<Rightarrow> length tok = 16)"
| "event_typed (Packet now percent packet source) \<longleftrightarrow> 90 \<le> percent \<and> percent \<le> 110"
| "event_typed (Tick now percent) \<longleftrightarrow> (\<forall>a. 90 \<le> percent a \<and> percent a \<le> 110)"

definition probe_wf :: "probe_state \<Rightarrow> bool" where
  "probe_wf st \<longleftrightarrow> length (local_token st) = 16 \<and>
     (\<forall>token. remote_token st = Some token \<longrightarrow> length token = 16) \<and>
     finite (dom (paths st)) \<and> card (dom (paths st)) \<le> MAX_PROBE_PATHS \<and>
     finite (dom (reply_sources st)) \<and> card (dom (reply_sources st)) \<le> MAX_REPLY_SOURCES \<and>
     (remote_token st = None \<longrightarrow> paths st = Map.empty)"

section \<open>Bounded memory\<close>

lemma retain_recent_Some:
  "retain_recent now m a = Some t \<longleftrightarrow> m a = Some t \<and> duration_since now t < REPLY_INTERVAL"
  by (auto simp: retain_recent_def split: option.splits)

lemma retain_recent_dom: "dom (retain_recent now m) \<subseteq> dom m"
  by (auto simp: retain_recent_def split: option.splits if_splits)

lemma retain_recent_card:
  "finite (dom m) \<Longrightarrow> finite (dom (retain_recent now m)) \<and> card (dom (retain_recent now m)) \<le> card (dom m)"
  using retain_recent_dom [of now m] by (auto intro: finite_subset card_mono)

lemma update_remote_wf:
  assumes "probe_wf st" and "\<And>tok. token = Some tok \<Longrightarrow> length tok = 16"
  shows "probe_wf (update_remote now st token cs)"
proof -
  have sel: "finite (select_paths {} cs)" "card (select_paths {} cs) \<le> MAX_PROBE_PATHS"
    using select_paths_bounds [of "{}" cs] by auto
  have dom: "dom (paths (update_remote now st token cs)) \<subseteq> select_paths {} cs"
    by (auto simp: update_remote_paths dom_def)
  with sel have "finite (dom (paths (update_remote now st token cs)))"
    and "card (dom (paths (update_remote now st token cs))) \<le> MAX_PROBE_PATHS"
    using card_mono [OF sel(1) dom] by (auto intro: finite_subset)
  with assms show ?thesis
    by (auto simp: probe_wf_def update_remote_paths fun_eq_iff)
qed

lemma packet_action_tokens [simp]:
  "local_token (fst (packet_action now percent st packet source)) = local_token st"
  "remote_token (fst (packet_action now percent st packet source)) = remote_token st"
  "dom (paths (fst (packet_action now percent st packet source))) = dom (paths st)"
  by (auto simp: packet_action_def Let_def split: option.splits if_splits)

lemma packet_action_reply_card:
  assumes "finite (dom (reply_sources st))" and "card (dom (reply_sources st)) \<le> MAX_REPLY_SOURCES"
    and "st' = fst (packet_action now percent st packet source)"
  shows "finite (dom (reply_sources st')) \<and> card (dom (reply_sources st')) \<le> MAX_REPLY_SOURCES"
proof -
  let ?m = "retain_recent now (reply_sources st)"
  have fin: "finite (dom ?m)" and card: "card (dom ?m) \<le> MAX_REPLY_SOURCES"
    using retain_recent_card [OF assms(1), of now] assms(2) by auto
  have "reply_sources st' \<in> {reply_sources st, ?m} \<or>
      (reply_sources st' = ?m(source \<mapsto> now) \<and> (card (dom ?m) < MAX_REPLY_SOURCES \<or> source \<in> dom ?m))"
    by (auto simp: assms(3) packet_action_def Let_def split: option.splits if_splits)
  then show ?thesis
    using assms(1,2) fin card by (auto simp: card_insert_if insert_absorb)
qed

lemma packet_action_wf: "probe_wf st \<Longrightarrow> probe_wf (fst (packet_action now percent st packet source))"
  using packet_action_reply_card [of st _ now percent packet source]
  by (auto simp: probe_wf_def dom_eq_empty_conv [symmetric] simp del: dom_eq_empty_conv)

lemma due_frames_dom: "dom (paths (fst (due_frames iter now percent st))) = dom (paths st)"
  using due_loop_dom by (simp add: due_frames_def Let_def case_prod_unfold split: option.split)

lemma due_frames_wf: "probe_wf st \<Longrightarrow> probe_wf (fst (due_frames iter now percent st))"
  by (auto simp: probe_wf_def due_frames_fields due_frames_dom
      dom_eq_empty_conv [symmetric] simp del: dom_eq_empty_conv)

lemma probe_apply_wf: "probe_wf st \<Longrightarrow> event_typed e \<Longrightarrow> probe_wf (probe_apply iter st e)"
  by (cases e) (auto intro: update_remote_wf packet_action_wf due_frames_wf split: option.splits)

lemma probe_new_wf: "length token = 16 \<Longrightarrow> probe_wf (probe_new token)"
  by (simp add: probe_wf_def probe_new_def)

interpretation controller: invariant_system
    "\<lambda>st. \<exists>token. length token = 16 \<and> st = probe_new token"
    "\<lambda>st e st'. event_typed e \<and> st' = probe_apply iter st e" probe_wf
  for iter
  by unfold_locales (auto intro: probe_apply_wf probe_new_wf)

lemma probe_run_steps:
  "\<forall>e\<in>set evs. event_typed e \<Longrightarrow>
   steps (\<lambda>st e st'. event_typed e \<and> st' = probe_apply iter st e) st evs (foldl (probe_apply iter) st evs)"
  by (induction evs arbitrary: st) (auto intro: steps.intros)

lemma probe_run_wf:
  "length token = 16 \<Longrightarrow> \<forall>e\<in>set evs. event_typed e \<Longrightarrow>
   probe_wf (foldl (probe_apply iter) (probe_new token) evs)"
  using controller.inv_reachable [OF _ probe_run_steps] by blast

text \<open>
  \<^bold>\<open>C15\<close>. The controller's memory is bounded whatever the network and the DHT deliver: after
  every sequence of operations it keeps at most 64 probe paths and at most 256 reply sources,
  and no path at all while the peer's token is unknown.
\<close>

theorem probe_memory_bounded:
  assumes "length token = 16" and "\<forall>e\<in>set evs. event_typed e"
  shows "(let st = foldl (probe_apply iter) (probe_new token) evs in
    finite (dom (paths st)) \<and> card (dom (paths st)) \<le> 64 \<and>
    finite (dom (reply_sources st)) \<and> card (dom (reply_sources st)) \<le> 256 \<and>
    (remote_token st = None \<longrightarrow> paths st = Map.empty) \<and> local_token st = token)"
proof -
  have "local_token (foldl (probe_apply iter) st evs) = local_token st" for st
  proof (induction evs arbitrary: st)
    case (Cons e evs)
    then show ?case by (cases e) (simp_all add: due_frames_fields)
  qed simp
  then show ?thesis
    using probe_run_wf [OF assms, of iter]
    by (simp add: Let_def probe_wf_def MAX_PROBE_PATHS_def MAX_REPLY_SOURCES_def probe_new_def)
qed

theorem probe_memory_bounded_witness:
  "card (dom (paths (foldl (probe_apply sorted_list_of_set) (probe_new (replicate 16 1))
     [Remote 0 (Some (replicate 16 2)) [SockV4 1 1, SockV4 2 2], Packet 5 100 (frame (replicate 16 1)) (SockV4 3 3)]))) \<le> 64"
  using probe_memory_bounded [of "replicate 16 1"
      "[Remote 0 (Some (replicate 16 2)) [SockV4 1 1, SockV4 2 2], Packet 5 100 (frame (replicate 16 1)) (SockV4 3 3)]"
      sorted_list_of_set]
  by (simp add: Let_def del: foldl.simps)

section \<open>What a packet does\<close>

lemma packet_action_echo:
  "snd (packet_action now percent st packet source) = EchoAndAdmit \<longleftrightarrow>
     parse_frame packet = Some (local_token st) \<and>
     retain_recent now (reply_sources st) source = None \<and>
     card (dom (retain_recent now (reply_sources st))) < MAX_REPLY_SOURCES"
proof (cases "retain_recent now (reply_sources st) source")
  case None
  then show ?thesis
    by (simp add: packet_action_def Let_def domIff not_le split: option.split)
next
  case (Some t)
  then have "duration_since now t < REPLY_INTERVAL"
    by (simp add: retain_recent_Some)
  with Some show ?thesis
    by (simp add: packet_action_def Let_def domIff split: option.split)
qed

lemma packet_action_ack:
  "snd (packet_action now percent st packet source) = Acknowledged \<longleftrightarrow>
     (\<exists>token path. parse_frame packet = Some token \<and> token \<noteq> local_token st \<and>
        remote_token st = Some token \<and> paths st source = Some path \<and> outstanding path \<noteq> None)"
  by (auto simp: packet_action_def Let_def split: option.splits if_splits)

lemma packet_action_paths:
  "paths (fst (packet_action now percent st packet source)) =
     (if snd (packet_action now percent st packet source) = Acknowledged
      then (paths st)(source \<mapsto> (the (paths st source))
              \<lparr>outstanding := None, verified := True, fast_stage := 0,
               next_probe := now + jitter percent (from_secs 15), last_control_response := Some now\<rparr>)
      else paths st)"
  by (auto simp: packet_action_def Let_def split: option.splits)

lemma packet_action_replies:
  "reply_sources (fst (packet_action now percent st packet source)) a =
     (case parse_frame packet of
        None \<Rightarrow> reply_sources st a
      | Some token \<Rightarrow>
          if token = local_token st \<and> a = source \<and>
             (card (dom (retain_recent now (reply_sources st))) < MAX_REPLY_SOURCES \<or>
              retain_recent now (reply_sources st) source \<noteq> None)
          then Some now else retain_recent now (reply_sources st) a)"
  by (auto simp: packet_action_def Let_def domIff not_less split: option.splits)

text \<open>
  \<^bold>\<open>C12\<close>. What one control packet does, on every branch: it is echoed, unchanged and to its
  source only, exactly when it is the frame of this controller's own token, its source was
  not seen within the last second and fewer than 256 sources were; then and only then is the
  source offered to the candidates. It is an acknowledgement exactly when it is the frame of
  the peer's token and comes from a path with an outstanding probe, and then only that path
  changes. Every other packet has no effect on candidates, paths and the send queue.
\<close>

theorem handle_packet_behaviour:
  assumes "\<not> ch_closed tx" and "handle_packet now percent (st, cs, tx) (packet, source) = ((st', cs', tx'), r)"
  shows "r = Ok () \<and>
    (if parse_frame packet = Some (local_token st) \<and>
        (\<forall>t. reply_sources st source = Some t \<longrightarrow> from_secs 1 \<le> now - t) \<and>
        card {a. \<exists>t. reply_sources st a = Some t \<and> now - t < from_secs 1} < 256
     then cs' = fst (add_peer_reflexive cs source) \<and>
          try_send tx (packet, source) = Ok (tx', length (ch_items tx) < ch_capacity tx) \<and> paths st' = paths st
     else cs' = cs \<and> tx' = tx \<and>
       (if \<exists>token path. packet = frame token \<and> length token = 16 \<and> token \<noteq> local_token st \<and>
           remote_token st = Some token \<and> paths st source = Some path \<and> outstanding path \<noteq> None
        then \<exists>path. paths st source = Some path \<and>
          paths st' = (paths st)(source \<mapsto> path\<lparr>outstanding := None, verified := True, fast_stage := 0,
            next_probe := now + jitter percent (from_secs 15), last_control_response := Some now\<rparr>)
        else paths st' = paths st))"
proof -
  let ?act = "packet_action now percent st packet source"
  have dom: "dom (retain_recent now (reply_sources st)) = {a. \<exists>t. reply_sources st a = Some t \<and> now - t < from_secs 1}"
    by (auto simp: dom_def retain_recent_Some duration_since_def REPLY_INTERVAL_def)
  have fresh: "retain_recent now (reply_sources st) source = None \<longleftrightarrow>
      (\<forall>t. reply_sources st source = Some t \<longrightarrow> from_secs 1 \<le> now - t)"
    using retain_recent_Some [of now "reply_sources st" source]
    by (cases "reply_sources st source") (auto simp: duration_since_def REPLY_INTERVAL_def retain_recent_def)
  note echo = packet_action_echo [of now percent st packet source, unfolded fresh dom MAX_REPLY_SOURCES_def]
    and ack = packet_action_ack [of now percent st packet source, unfolded parse_frame_iff]
    and ps = packet_action_paths [of now percent st packet source]
  show ?thesis
  proof (cases "snd ?act")
    case EchoAndAdmit
    with assms echo ps show ?thesis
      by (cases ?act) (auto simp: handle_packet_def Let_def try_send_eq split: if_splits)
  next
    case Acknowledged
    with assms(2) have "cs' = cs" "tx' = tx" "r = Ok ()" and st': "st' = fst ?act"
      by (auto simp: handle_packet_def Let_def split: prod.splits)
    moreover obtain token path where "packet = frame token" "length token = 16" "token \<noteq> local_token st"
      "remote_token st = Some token" "paths st source = Some path" "outstanding path \<noteq> None"
      using ack Acknowledged by blast
    moreover have "\<not> (parse_frame packet = Some (local_token st))"
      using calculation by (simp add: parse_frame_iff)
    ultimately show ?thesis
      using ps Acknowledged by auto
  next
    case DropPacket
    with assms(2) have "cs' = cs" "tx' = tx" "r = Ok ()" "st' = fst ?act"
      by (auto simp: handle_packet_def Let_def split: prod.splits)
    with DropPacket echo ack ps show ?thesis
      by (simp only: if_False HOL.simp_thms probe_action.distinct) auto
  qed
qed

theorem handle_packet_behaviour_witness:
  "handle_packet 0 100 (probe_new (replicate 16 7), candidate_set_default, channel_new 1)
     (frame (replicate 16 7), SockV4 1 1) =
   ((\<lparr>local_token = replicate 16 7, remote_token = None, paths = Map.empty,
      reply_sources = [SockV4 1 1 \<mapsto> 0]\<rparr>,
     fst (add_peer_reflexive candidate_set_default (SockV4 1 1)),
     \<lparr>ch_items = [(frame (replicate 16 7), SockV4 1 1)], ch_capacity = 1, ch_closed = False\<rparr>), Ok ()) \<and>
   try_send (channel_new 1) (frame (replicate 16 7), SockV4 1 1) =
     Ok (\<lparr>ch_items = [(frame (replicate 16 7), SockV4 1 1)], ch_capacity = 1, ch_closed = False\<rparr>, True)"
proof -
  let ?st = "\<lparr>local_token = replicate 16 7, remote_token = None, paths = Map.empty,
      reply_sources = [SockV4 1 1 \<mapsto> 0]\<rparr>"
    and ?tx = "\<lparr>ch_items = [(frame (replicate 16 7), SockV4 1 1)], ch_capacity = 1, ch_closed = False\<rparr>"
  have run: "handle_packet 0 100 (probe_new (replicate 16 7), candidate_set_default, channel_new 1)
     (frame (replicate 16 7), SockV4 1 1) =
    ((?st, fst (add_peer_reflexive candidate_set_default (SockV4 1 1)), ?tx), Ok ())"
    by (simp add: handle_packet_def packet_action_def probe_new_def retain_recent_def channel_new_def
        try_send_eq MAX_REPLY_SOURCES_def Let_def)
  show ?thesis
    using handle_packet_behaviour [OF _ run] run by (simp add: channel_new_def probe_new_def)
qed

section \<open>Rate limits\<close>

lemma jitter_bounds:
  assumes "90 \<le> percent" and "percent \<le> 110"
  shows "jitter percent (from_secs 5) \<in> {from_millis 4500 .. from_millis 5500}"
    and "jitter percent (from_secs 15) \<in> {from_millis 13500 .. from_millis 16500}"
proof -
  have "5000000000 * percent div 100 = 50000000 * percent" "15000000000 * percent div 100 = 150000000 * percent"
    by simp_all
  then show "jitter percent (from_secs 5) \<in> {from_millis 4500 .. from_millis 5500}"
    and "jitter percent (from_secs 15) \<in> {from_millis 13500 .. from_millis 16500}"
    using assms by (simp_all add: jitter_def from_secs_def from_millis_def)
qed

interpretation echo_limit: rate_limited "probe_apply iter" event_time "\<lambda>_. True" "echoes_to a"
    "\<lambda>st t. \<exists>t' \<ge> t. reply_sources st a = Some t'" REPLY_INTERVAL for iter a
proof
  fix e :: probe_event and st :: probe_state and t :: instant
  show "echoes_to a st e \<Longrightarrow> \<exists>t' \<ge> event_time e. reply_sources (probe_apply iter st e) a = Some t'"
    by (cases e) (auto simp: packet_action_echo packet_action_replies)
  assume guard: "\<exists>t' \<ge> t. reply_sources st a = Some t'" and later: "t \<le> event_time e"
  show "(\<exists>t' \<ge> t. reply_sources (probe_apply iter st e) a = Some t') \<or> t + REPLY_INTERVAL \<le> event_time e"
  proof (cases e)
    case (Packet now percent packet source)
    with guard later show ?thesis
      by (auto simp: packet_action_replies retain_recent_def duration_since_def split: option.splits)
  qed (use guard in \<open>simp_all add: due_frames_fields\<close>)
  show "t + REPLY_INTERVAL \<le> event_time e" if "echoes_to a st e"
    using guard that
    by (cases e) (auto simp: packet_action_echo retain_recent_def duration_since_def
        REPLY_INTERVAL_def from_secs_def split: if_splits)
qed

text \<open>
  \<^bold>\<open>C13\<close>. The echo is rate limited per source: in every run of the controller, whatever else
  happens between, two echoes to the same address are at least one second apart.
\<close>

theorem echo_rate_limited:
  assumes "sorted (map event_time (e1 # between @ [e2]))"
    and "echoes_to a st e1" and "echoes_to a (foldl (probe_apply iter) (probe_apply iter st e1) between) e2"
  shows "event_time e1 + from_secs 1 \<le> event_time e2"
  using echo_limit.spaced [of e1 between e2 a st iter] assms by (simp add: REPLY_INTERVAL_def)

theorem echo_rate_limited_witness:
  "(let st = probe_new (replicate 16 7); e1 = Packet 0 100 (frame (replicate 16 7)) (SockV4 1 1);
        e2 = Packet 1000000000 100 (frame (replicate 16 7)) (SockV4 1 1)
    in echoes_to (SockV4 1 1) st e1 \<and> echoes_to (SockV4 1 1) (probe_apply sorted_list_of_set st e1) e2 \<and>
       event_time e1 + from_secs 1 \<le> event_time e2)"
proof -
  let ?st = "probe_new (replicate 16 7)" and ?e1 = "Packet 0 100 (frame (replicate 16 7)) (SockV4 1 1)"
    and ?e2 = "Packet 1000000000 100 (frame (replicate 16 7)) (SockV4 1 1)"
  have first: "echoes_to (SockV4 1 1) ?st ?e1"
    by (simp add: packet_action_echo probe_new_def retain_recent_def MAX_REPLY_SOURCES_def)
  have second: "echoes_to (SockV4 1 1) (probe_apply sorted_list_of_set ?st ?e1) ?e2"
    by (simp add: packet_action_def probe_new_def retain_recent_def dom_def MAX_REPLY_SOURCES_def
        Let_def REPLY_INTERVAL_def from_secs_def duration_since_def)
  show ?thesis
    unfolding Let_def
    using echo_rate_limited [of ?e1 "[]" ?e2 "SockV4 1 1" ?st sorted_list_of_set] first second
    by (simp del: echoes_to.simps probe_apply.simps)
qed

text \<open>The path a probe was sent on at instant \<open>t\<close>, until the next one.\<close>

definition path_waits :: "path \<Rightarrow> instant \<Rightarrow> bool" where
  "path_waits p t \<longleftrightarrow> t + from_secs 1 \<le> next_probe p \<and> outstanding p \<in> {None, Some t}"

lemma path_due_waits:
  assumes "snd (path_due now percent p)" and "90 \<le> percent" "percent \<le> 110"
  shows "path_waits (fst (path_due now percent p)) now"
  using assms(1) jitter_bounds [OF assms(2,3)]
  by (auto simp: path_due_def path_waits_def Let_def from_millis_def from_secs_def split: if_splits)

lemma path_due_kept:
  assumes "path_waits p t" and "t \<le> now"
  shows "path_waits (fst (path_due now percent p)) t \<or> t + from_secs 1 \<le> now"
    and "snd (path_due now percent p) \<Longrightarrow> t + from_secs 1 \<le> now"
  using assms
  by (auto simp: path_due_def path_waits_def path_timed_out_def Let_def duration_since_def
      ACK_TIMEOUT_def from_secs_def split: if_splits)

text \<open>Whether an event sends a probe to an address, from the state alone.\<close>

primrec probes_to :: "socket_addr \<Rightarrow> probe_state \<Rightarrow> probe_event \<Rightarrow> bool" where
  "probes_to a st (Remote now token cs) \<longleftrightarrow> False"
| "probes_to a st (Packet now percent packet source) \<longleftrightarrow> False"
| "probes_to a st (Tick now percent) \<longleftrightarrow> remote_token st \<noteq> None \<and>
     (case paths st a of None \<Rightarrow> False | Some p \<Rightarrow> snd (path_due now (percent a) p))"

lemma probes_to_sent:
  assumes "hash_order iter" and "finite (dom (paths st))"
  shows "probes_to a st e \<longleftrightarrow> a \<in> snd ` set (probe_sent iter st e)"
proof (cases e)
  case (Tick now percent)
  show ?thesis
  proof (cases "remote_token st")
    case None
    with Tick show ?thesis by (simp add: due_frames_def)
  next
    case (Some token)
    with Tick show ?thesis
      using hash_order.dom_distinct [OF assms]
      by (auto simp: due_frames_closed [OF assms Some] image_iff split: option.splits)
  qed
qed simp_all

definition no_refresh :: "probe_event \<Rightarrow> bool" where
  "no_refresh e = (case e of Remote _ _ _ \<Rightarrow> False | _ \<Rightarrow> True)"

definition path_guarded :: "socket_addr \<Rightarrow> probe_state \<Rightarrow> instant \<Rightarrow> bool" where
  "path_guarded a st t \<longleftrightarrow> finite (dom (paths st)) \<and> (\<exists>p. paths st a = Some p \<and> path_waits p t)"

lemma path_guarded_packet:
  assumes "path_guarded a st t" and "t \<le> now" and "90 \<le> percent" "percent \<le> 110"
  shows "path_guarded a (fst (packet_action now percent st packet source)) t"
  using assms jitter_bounds [OF assms(3,4)]
  by (auto simp: path_guarded_def packet_action_paths path_waits_def from_millis_def from_secs_def)

context address_order
begin

lemma path_guarded_tick:
  assumes "path_guarded a st t" and "t \<le> now"
  shows "path_guarded a (fst (due_frames iter now percent st)) t \<or> t + from_secs 1 \<le> now"
proof (cases "remote_token st")
  case None
  with assms show ?thesis by (simp add: due_frames_def)
next
  case (Some token)
  from assms obtain p where fin: "finite (dom (paths st))" and p: "paths st a = Some p" "path_waits p t"
    by (auto simp: path_guarded_def)
  have "finite (dom (paths (fst (due_frames iter now percent st))))"
    using fin by (simp add: due_frames_dom)
  with path_due_kept(1) [OF p(2) assms(2), of "percent a"] show ?thesis
    using p(1) by (auto simp: path_guarded_def due_frames_closed [OF hash_order_axioms fin Some])
qed

lemma probes_to_guarded:
  assumes "event_typed e" and "finite (dom (paths st))" and "probes_to a st e"
  shows "path_guarded a (probe_apply iter st e) (event_time e)"
proof (cases e)
  case (Tick now percent)
  then obtain token p where Some: "remote_token st = Some token" "paths st a = Some p"
      "snd (path_due now (percent a) p)"
    using assms(3) by (auto split: option.splits)
  have "90 \<le> percent a" "percent a \<le> 110"
    using assms(1) Tick by simp_all
  note waits = path_due_waits [OF Some(3) this]
  have "finite (dom (paths (fst (due_frames iter now percent st))))"
    using assms(2) by (simp add: due_frames_dom)
  with waits Tick Some(2) show ?thesis
    by (simp add: path_guarded_def due_frames_closed [OF hash_order_axioms assms(2) Some(1)])
qed (use assms in simp_all)

end

sublocale address_order \<subseteq> probe_limit: rate_limited "probe_apply iter" event_time
    "\<lambda>e. event_typed e \<and> no_refresh e" "\<lambda>st e. finite (dom (paths st)) \<and> probes_to a st e"
    "path_guarded a" "from_secs 1" for a
proof
  fix e :: probe_event and st :: probe_state and t :: instant
  assume typed: "event_typed e \<and> no_refresh e"
  show "finite (dom (paths st)) \<and> probes_to a st e \<Longrightarrow> path_guarded a (probe_apply iter st e) (event_time e)"
    using probes_to_guarded typed by simp
  assume guard: "path_guarded a st t" and later: "t \<le> event_time e"
  show "path_guarded a (probe_apply iter st e) t \<or> t + from_secs 1 \<le> event_time e"
    using guard later typed path_guarded_packet path_guarded_tick
    by (cases e) (auto simp: no_refresh_def)
  show "finite (dom (paths st)) \<and> probes_to a st e \<Longrightarrow> t + from_secs 1 \<le> event_time e"
    using guard later path_due_kept(2) by (cases e) (auto simp: path_guarded_def)
qed

context address_order
begin

lemma probes_spaced:
  "sorted (map event_time (e1 # es @ [e2])) \<Longrightarrow> \<forall>e\<in>set (e1 # es @ [e2]). event_typed e \<and> no_refresh e \<Longrightarrow>
   probe_wf st \<Longrightarrow> a \<in> snd ` set (probe_sent iter st e1) \<Longrightarrow>
   a \<in> snd ` set (probe_sent iter (foldl (probe_apply iter) (probe_apply iter st e1) es) e2) \<Longrightarrow>
   event_time e1 + from_secs 1 \<le> event_time e2"
proof -
  assume srt: "sorted (map event_time (e1 # es @ [e2]))"
    and ok: "\<forall>e\<in>set (e1 # es @ [e2]). event_typed e \<and> no_refresh e" and wf: "probe_wf st"
    and sent: "a \<in> snd ` set (probe_sent iter st e1)"
      "a \<in> snd ` set (probe_sent iter (foldl (probe_apply iter) (probe_apply iter st e1) es) e2)"
  have "probe_wf (foldl (probe_apply iter) st evs)" if "\<forall>e\<in>set evs. event_typed e" for evs
    using controller.inv_steps [OF probe_run_steps [OF that] wf] .
  from this [of "e1 # es"] ok have "probe_wf (foldl (probe_apply iter) (probe_apply iter st e1) es)"
    by simp
  then have "finite (dom (paths st))" "finite (dom (paths (foldl (probe_apply iter) (probe_apply iter st e1) es)))"
    using wf by (simp_all add: probe_wf_def)
  with sent have "finite (dom (paths st)) \<and> probes_to a st e1"
    and "finite (dom (paths (foldl (probe_apply iter) (probe_apply iter st e1) es))) \<and>
      probes_to a (foldl (probe_apply iter) (probe_apply iter st e1) es) e2"
    by (simp_all add: probes_to_sent [OF hash_order_axioms])
  from probe_limit.spaced [OF srt ok this] show ?thesis .
qed

end

text \<open>
  \<^bold>\<open>C14\<close>. Probing does not flood a path: between two refreshes from the DHT, whatever packets
  arrive and however often the scheduler ticks, two probes to the same address are at least
  one second apart.
\<close>

theorem probe_rate_limited:
  assumes "hash_order iter" and "probe_wf st"
    and "sorted (map event_time (e1 # between @ [e2]))"
    and "\<forall>e\<in>set (e1 # between @ [e2]). event_typed e \<and> no_refresh e"
    and "a \<in> snd ` set (probe_sent iter st e1)"
    and "a \<in> snd ` set (probe_sent iter (foldl (probe_apply iter) (probe_apply iter st e1) between) e2)"
  shows "event_time e1 + from_secs 1 \<le> event_time e2"
  using address_order.probes_spaced [OF address_order.intro, OF assms(1)] assms(2-) by blast

lemma due_frames_single:
  "remote_token st = Some token \<Longrightarrow> paths st = [a \<mapsto> p] \<Longrightarrow>
   due_frames sorted_list_of_set now percent st =
     (st\<lparr>paths := [a \<mapsto> fst (path_due now (percent a) p)]\<rparr>,
      if snd (path_due now (percent a) p) then [(frame token, a)] else [])"
  by (auto simp: due_frames_def Let_def case_prod_unfold)

theorem probe_rate_limited_witness:
  "(let st = update_remote 0 (probe_new (replicate 16 7)) (Some (replicate 16 9)) [SockV4 1 1];
        e1 = Tick 0 (\<lambda>_. 100); e2 = Tick 1000000000 (\<lambda>_. 100)
    in probe_sent sorted_list_of_set st e1 = [(frame (replicate 16 9), SockV4 1 1)] \<and>
       probe_sent sorted_list_of_set (probe_apply sorted_list_of_set st e1) e2 = [(frame (replicate 16 9), SockV4 1 1)] \<and>
       event_time e1 + from_secs 1 \<le> event_time e2)"
proof -
  let ?st = "update_remote 0 (probe_new (replicate 16 7)) (Some (replicate 16 9)) [SockV4 1 1]"
    and ?e1 = "Tick 0 (\<lambda>_. 100)" and ?e2 = "Tick 1000000000 (\<lambda>_. 100)"
  have ps: "paths ?st = [SockV4 1 1 \<mapsto> path_new 0]"
    by (auto simp: fun_eq_iff update_remote_paths probe_new_def MAX_PROBE_PATHS_def)
  have first: "due_frames sorted_list_of_set 0 (\<lambda>_. 100) ?st =
      (?st\<lparr>paths := [SockV4 1 1 \<mapsto> fst (path_due 0 100 (path_new 0))]\<rparr>, [(frame (replicate 16 9), SockV4 1 1)])"
    by (subst due_frames_single [OF _ ps])
      (simp_all add: path_due_def path_new_def path_timed_out_def Let_def)
  have second: "snd (due_frames sorted_list_of_set 1000000000 (\<lambda>_. 100)
      (?st\<lparr>paths := [SockV4 1 1 \<mapsto> fst (path_due 0 100 (path_new 0))]\<rparr>)) = [(frame (replicate 16 9), SockV4 1 1)]"
    by (subst due_frames_single)
      (auto simp: path_due_def path_new_def path_timed_out_def Let_def from_secs_def)
  have "probe_wf ?st"
    by (intro update_remote_wf probe_new_wf) auto
  with first second show ?thesis
    unfolding Let_def
    using probe_rate_limited [OF ascending.hash_order_axioms, of ?st ?e1 "[]" ?e2 "SockV4 1 1"]
    by (simp add: no_refresh_def del: event_time.simps) simp
qed

section \<open>The schedule of unanswered probes\<close>

text \<open>A path probed at each of the given instants, with the percentages drawn there.\<close>

fun probed_at :: "path \<Rightarrow> (instant \<times> nat) list \<Rightarrow> bool" where
  "probed_at p [] \<longleftrightarrow> True"
| "probed_at p ((now, percent) # rest) \<longleftrightarrow>
     90 \<le> percent \<and> percent \<le> 110 \<and> snd (path_due now percent p) \<and> probed_at (fst (path_due now percent p)) rest"

definition probe_all :: "path \<Rightarrow> (instant \<times> nat) list \<Rightarrow> path" where
  "probe_all p obs = foldl (\<lambda>p (now, percent). fst (path_due now percent p)) p obs"

lemma probed_at_snoc:
  "probed_at p (obs @ [(now, percent)]) \<longleftrightarrow>
     probed_at p obs \<and> 90 \<le> percent \<and> percent \<le> 110 \<and> snd (path_due now percent (probe_all p obs))"
  by (induction p obs rule: probed_at.induct) (auto simp: probe_all_def)

lemma saturating_inc_unat: "unat (saturating_inc n) = min (unat n + 1) 255"
proof (cases "n = 255")
  case False
  have "unat n < 2 ^ LENGTH(8)" by (rule unsigned_less)
  moreover from False have "unat n \<noteq> 255" by (simp add: word_unat_eq_iff)
  ultimately have "unat (n + 1) = unat n + 1"
    by (simp add: unat_plus_simple [THEN iffD1] unat_word_ariths)
  with \<open>unat n < 2 ^ LENGTH(8)\<close> \<open>unat n \<noteq> 255\<close> show ?thesis
    using False by (simp add: saturating_inc_def)
qed (simp add: saturating_inc_def)

text \<open>
  \<^bold>\<open>C16\<close>. A new path that gets no answer is probed on a schedule that slows down and never
  speeds up again: after the first probe the next is due in one second, after the second in
  two, after every later one in 4.5 to 5.5 seconds. The stage counter saturates at 255, so
  no number of unanswered probes wraps it back to the fast stages.
\<close>

theorem unanswered_schedule:
  assumes "probed_at (path_new start) (obs @ [(now, percent)])"
  shows "(let p = probe_all (path_new start) (obs @ [(now, percent)]) in
    \<not> verified p \<and> outstanding p = Some now \<and> unat (fast_stage p) = min (length obs + 1) 255 \<and>
    (if length obs = 0 then next_probe p = now + from_secs 1
     else if length obs = 1 then next_probe p = now + from_secs 2
     else next_probe p \<in> {now + from_millis 4500 .. now + from_millis 5500}))"
  using assms
proof (induction obs arbitrary: now percent rule: rev_induct)
  case Nil
  then show ?case
    by (auto simp: probe_all_def path_due_def path_new_def path_timed_out_def Let_def saturating_inc_def
        split: if_splits)
next
  case (snoc x obs)
  obtain now' percent' where x: "x = (now', percent')" by (cases x)
  define p where "p = probe_all (path_new start) (obs @ [(now', percent')])"
  from snoc.prems x have last: "90 \<le> percent" "percent \<le> 110" "snd (path_due now percent p)"
    and before: "probed_at (path_new start) (obs @ [(now', percent')])"
    using probed_at_snoc [of "path_new start" "obs @ [x]" now percent] by (simp_all add: p_def)
  from snoc.IH [OF before] have p: "\<not> verified p" "unat (fast_stage p) = min (length obs + 1) 255"
    by (simp_all add: Let_def p_def)
  have all: "probe_all (path_new start) ((obs @ [x]) @ [(now, percent)]) = fst (path_due now percent p)"
    by (simp add: probe_all_def p_def x)
  have "fast_stage p \<noteq> 0"
    using p(2) by auto
  moreover have "fast_stage p = 1 \<longleftrightarrow> obs = []"
    using p(2) by (auto simp: word_unat_eq_iff min_def split: if_splits)
  ultimately show ?case
    using last p jitter_bounds(1) [OF last(1,2)] unfolding all
    by (auto simp: path_due_def path_timed_out_def Let_def saturating_inc_unat split: if_splits)
qed

theorem unanswered_schedule_witness:
  "next_probe (probe_all (path_new 0) [(0, 100), (from_secs 1, 100), (from_secs 3, 100)])
     \<in> {from_secs 3 + from_millis 4500 .. from_secs 3 + from_millis 5500}"
  using unanswered_schedule [of 0 "[(0, 100), (from_secs 1, 100)]" "from_secs 3" 100]
  by (simp add: path_due_def path_new_def path_timed_out_def Let_def saturating_inc_def from_secs_def)

section \<open>What a verified path proves\<close>

lemma path_due_idle: "\<not> snd (path_due now percent p) \<Longrightarrow> fst (path_due now percent p) = p"
  by (auto simp: path_due_def Let_def split: if_splits)

lemma path_due_verified: "verified (fst (path_due now percent p)) \<Longrightarrow> verified p"
  by (auto simp: path_due_def Let_def split: if_splits)

lemma path_after_update:
  "paths (update_remote now st token cs) a = Some p \<Longrightarrow>
     (paths st a = Some p \<and> remote_token st = token) \<or> p = path_new now"
  by (auto simp: update_remote_paths split: if_splits)

lemma path_after_packet:
  "paths (fst (packet_action now percent st packet source)) a = Some p \<Longrightarrow>
     paths st a = Some p \<or>
     (a = source \<and> outstanding p = None \<and> (\<exists>q token. paths st a = Some q \<and> outstanding q \<noteq> None \<and>
        remote_token st = Some token \<and> packet = frame token))"
  by (auto simp: packet_action_paths packet_action_ack parse_frame_iff split: if_splits)

lemma path_after_tick:
  assumes "hash_order iter" and "finite (dom (paths st))" and "remote_token st = Some token"
    and "paths (fst (due_frames iter now percent st)) a = Some p"
  shows "\<exists>q. paths st a = Some q \<and> (verified p \<longrightarrow> verified q) \<and>
    (p = q \<or> (frame token, a) \<in> set (snd (due_frames iter now percent st)))"
proof -
  from assms(4) obtain q where q: "paths st a = Some q" "p = fst (path_due now (percent a) q)"
    by (auto simp: due_frames_closed [OF assms(1-3)])
  show ?thesis
  proof (cases "snd (path_due now (percent a) q)")
    case True
    then have "(frame token, a) \<in> set (snd (due_frames iter now percent st))"
      using q(1) hash_order.dom_distinct [OF assms(1,2)]
      by (auto simp: due_frames_closed [OF assms(1-3)])
    with q path_due_verified show ?thesis by blast
  next
    case False
    with q path_due_idle [OF False] show ?thesis by auto
  qed
qed

text \<open>A run that probed an address with a token, and one in which that probe was answered from it.\<close>

definition was_probed ::
    "(socket_addr set \<Rightarrow> socket_addr list) \<Rightarrow> probe_state \<Rightarrow> probe_event list \<Rightarrow> bytes \<Rightarrow> socket_addr \<Rightarrow> bool" where
  "was_probed iter st evs token a \<longleftrightarrow>
     (\<exists>before now percent after. evs = before @ Tick now percent # after \<and>
        (frame token, a) \<in> set (probe_sent iter (foldl (probe_apply iter) st before) (Tick now percent)))"

definition was_answered ::
    "(socket_addr set \<Rightarrow> socket_addr list) \<Rightarrow> probe_state \<Rightarrow> probe_event list \<Rightarrow> bytes \<Rightarrow> socket_addr \<Rightarrow> bool" where
  "was_answered iter st evs token a \<longleftrightarrow>
     (\<exists>before now percent after. evs = before @ Packet now percent (frame token) a # after \<and>
        was_probed iter st before token a)"

lemma was_probed_snoc: "was_probed iter st evs token a \<Longrightarrow> was_probed iter st (evs @ [e]) token a"
  unfolding was_probed_def by fastforce

lemma was_answered_snoc: "was_answered iter st evs token a \<Longrightarrow> was_answered iter st (evs @ [e]) token a"
  unfolding was_answered_def by fastforce

definition path_history ::
    "(socket_addr set \<Rightarrow> socket_addr list) \<Rightarrow> probe_state \<Rightarrow> probe_event list \<Rightarrow> socket_addr \<Rightarrow> bool" where
  "path_history iter st evs a \<longleftrightarrow>
     (\<forall>p token. paths (foldl (probe_apply iter) st evs) a = Some p \<longrightarrow>
        remote_token (foldl (probe_apply iter) st evs) = Some token \<longrightarrow>
        (outstanding p \<noteq> None \<longrightarrow> was_probed iter st evs token a) \<and>
        (verified p \<longrightarrow> was_answered iter st evs token a))"

text \<open>The claim on one path, and how each kind of event extends it.\<close>

definition path_claim ::
    "(socket_addr set \<Rightarrow> socket_addr list) \<Rightarrow> probe_state \<Rightarrow> probe_event list \<Rightarrow> socket_addr \<Rightarrow> path \<Rightarrow> bytes \<Rightarrow> bool" where
  "path_claim iter st evs a p token \<longleftrightarrow>
     (outstanding p \<noteq> None \<longrightarrow> was_probed iter st evs token a) \<and> (verified p \<longrightarrow> was_answered iter st evs token a)"

lemma path_claim_kept:
  assumes "path_history iter st evs a" and "paths (foldl (probe_apply iter) st evs) a = Some p"
    and "remote_token (foldl (probe_apply iter) st evs) = Some token"
  shows "path_claim iter st (evs @ [e]) a p token"
  using assms was_probed_snoc was_answered_snoc unfolding path_history_def path_claim_def by blast

lemma path_claim_packet:
  assumes IH: "path_history iter st evs a" and st: "s = foldl (probe_apply iter) st evs"
    and p: "paths (fst (packet_action now percent s packet source)) a = Some p" and token: "remote_token s = Some token"
  shows "path_claim iter st (evs @ [Packet now percent packet source]) a p token"
proof -
  consider "paths s a = Some p"
    | q where "a = source" "outstanding p = None" "paths s a = Some q" "outstanding q \<noteq> None" "packet = frame token"
    using path_after_packet [of now percent s packet source a p] p token by auto
  then show ?thesis
  proof cases
    case 1
    with path_claim_kept [OF IH] token show ?thesis by (simp add: st)
  next
    case 2
    with IH token have "was_probed iter st evs token a"
      by (auto simp: path_history_def st)
    with 2 have "was_answered iter st (evs @ [Packet now percent packet source]) token a"
      unfolding was_answered_def by blast
    with 2 show ?thesis by (simp add: path_claim_def)
  qed
qed

lemma path_claim_tick:
  assumes order: "hash_order iter" and IH: "path_history iter st evs a" and st: "s = foldl (probe_apply iter) st evs"
    and fin: "finite (dom (paths s))" and token: "remote_token s = Some token"
    and p: "paths (fst (due_frames iter now percent s)) a = Some p"
  shows "path_claim iter st (evs @ [Tick now percent]) a p token"
proof -
  from path_after_tick [OF order fin token, of now percent a p] p obtain q where q: "paths s a = Some q"
    "verified p \<longrightarrow> verified q" "p = q \<or> (frame token, a) \<in> set (snd (due_frames iter now percent s))"
    by auto
  note old = path_claim_kept [OF IH, of q token "Tick now percent", folded st, OF q(1) token]
  have "was_probed iter st (evs @ [Tick now percent]) token a" if "p \<noteq> q"
    using q(3) that unfolding was_probed_def st
    by (intro exI [of _ evs] exI [of _ now] exI [of _ percent] exI [of _ "[]"]) simp
  with old q(2) show ?thesis
    unfolding path_claim_def by blast
qed

lemma path_history_snoc:
  assumes order: "hash_order iter" and fin: "finite (dom (paths (foldl (probe_apply iter) st evs)))"
    and IH: "path_history iter st evs a"
  shows "path_history iter st (evs @ [e]) a"
proof -
  let ?st = "foldl (probe_apply iter) st evs"
  have "path_claim iter st (evs @ [e]) a p token"
    if p: "paths (probe_apply iter ?st e) a = Some p"
      and token: "remote_token (probe_apply iter ?st e) = Some token" for p token
  proof (cases e)
    case (Remote now tok cs)
    with p token path_after_update [of now ?st tok cs a p] path_claim_kept [OF IH] show ?thesis
      by (auto simp: path_new_def path_claim_def)
  next
    case (Packet now percent packet source)
    with p token path_claim_packet [OF IH refl] show ?thesis by simp
  next
    case (Tick now percent)
    with p token path_claim_tick [OF order IH refl fin] show ?thesis by (simp add: due_frames_fields)
  qed
  then show ?thesis
    unfolding path_history_def path_claim_def by simp
qed

lemma path_history_run:
  assumes "hash_order iter" and "length token = 16" and "\<forall>e\<in>set evs. event_typed e"
  shows "path_history iter (probe_new token) evs a"
  using assms(3)
proof (induction evs rule: rev_induct)
  case Nil
  then show ?case by (simp add: path_history_def probe_new_def)
next
  case (snoc e evs)
  then show ?case
    using probe_run_wf [OF assms(2), of evs iter] path_history_snoc [OF assms(1)]
    by (simp add: probe_wf_def)
qed

text \<open>
  \<^bold>\<open>C2\<close>. A path counts as verified only on proof: in every state reachable by any interleaving
  of DHT refreshes, packets and ticks, a verified path means that the controller sent a probe
  with the peer's current token to exactly that address and that the matching frame came back
  from exactly that address and port afterwards.
\<close>

theorem verified_path_authentic:
  assumes "hash_order iter" and "length token = 16" and "\<forall>e\<in>set evs. event_typed e"
    and "st = foldl (probe_apply iter) (probe_new token) evs"
    and "paths st a = Some p" and "verified p"
  shows "\<exists>remote. remote_token st = Some remote \<and> was_answered iter (probe_new token) evs remote a"
proof -
  have "remote_token st \<noteq> None"
    using probe_run_wf [OF assms(2,3), of iter] assms(4,5) by (auto simp: probe_wf_def)
  then show ?thesis
    using path_history_run [OF assms(1-3), of a] assms(4-6) by (auto simp: path_history_def)
qed

theorem verified_path_authentic_witness:
  "(let r = replicate 16 9; st0 = probe_new (replicate 16 7);
        evs = [Remote 0 (Some r) [SockV4 1 1], Tick 0 (\<lambda>_. 100), Packet 1 100 (frame r) (SockV4 1 1)]
    in was_answered sorted_list_of_set st0 evs r (SockV4 1 1))"
proof -
  let ?r = "replicate 16 9 :: bytes" and ?st0 = "probe_new (replicate 16 7)" and ?a = "SockV4 1 1"
  let ?evs = "[Remote 0 (Some ?r) [?a], Tick 0 (\<lambda>_. 100), Packet 1 100 (frame ?r) ?a]"
  let ?p = "path_new 0\<lparr>outstanding := Some 0, fast_stage := 1, next_probe := from_secs 1\<rparr>"
  have ps: "paths (update_remote 0 ?st0 (Some ?r) [?a]) = [?a \<mapsto> path_new 0]"
    by (auto simp: fun_eq_iff update_remote_paths probe_new_def MAX_PROBE_PATHS_def)
  have "fst (path_due 0 100 (path_new 0)) = ?p"
    by (simp add: path_due_def path_new_def path_timed_out_def Let_def saturating_inc_def)
  with ps have st2: "fst (due_frames sorted_list_of_set 0 (\<lambda>_. 100) (update_remote 0 ?st0 (Some ?r) [?a])) =
      update_remote 0 ?st0 (Some ?r) [?a]\<lparr>paths := [?a \<mapsto> ?p]\<rparr>"
    by (simp add: due_frames_single [OF _ ps])
  have "local_token ?st0 \<noteq> ?r"
    by (simp add: probe_new_def)
  then have "\<exists>q. paths (foldl (probe_apply sorted_list_of_set) ?st0 ?evs) ?a = Some q \<and> verified q"
    by (simp add: st2 packet_action_paths packet_action_ack)
  then show ?thesis
    using verified_path_authentic [OF ascending.hash_order_axioms, of "replicate 16 7" ?evs _ ?a]
    by (auto simp: Let_def due_frames_fields)
qed

end
