(* ===== verification/Stun_Codec.thy ===== *)
theory Stun_Codec
  imports Net
begin

text \<open>
  The STUN wire codec of \<open>src/stun/codec.rs\<close>: requests are encoded, responses are decoded
  attribute by attribute from untrusted datagrams. A \<open>Cursor\<close> is its buffer and position;
  every index, slice and \<open>copy_from_slice\<close> of the source is one of the panicking operations
  of the prelude.
\<close>

section \<open>Constants\<close>

definition MAGIC_COOKIE :: u32 where "MAGIC_COOKIE = 0x2112A442"

definition BINDING_REQUEST :: u16 where "BINDING_REQUEST = 0x0001"
definition BINDING_RESPONSE :: u16 where "BINDING_RESPONSE = 0x0101"
definition BINDING_ERROR :: u16 where "BINDING_ERROR = 0x0111"
definition SHARED_SECRET_REQUEST :: u16 where "SHARED_SECRET_REQUEST = 0x0002"
definition SHARED_SECRET_RESPONSE :: u16 where "SHARED_SECRET_RESPONSE = 0x0102"
definition SHARED_SECRET_ERROR :: u16 where "SHARED_SECRET_ERROR = 0x0112"

definition MAPPED_ADDRESS :: u16 where "MAPPED_ADDRESS = 0x0001"
definition XOR_MAPPED_ADDRESS :: u16 where "XOR_MAPPED_ADDRESS = 0x0020"
definition RESPONSE_ADDRESS :: u16 where "RESPONSE_ADDRESS = 0x0002"
definition CHANGE_REQUEST :: u16 where "CHANGE_REQUEST = 0x0003"
definition SOURCE_ADDRESS :: u16 where "SOURCE_ADDRESS = 0x0004"
definition CHANGED_ADDRESS :: u16 where "CHANGED_ADDRESS = 0x0005"
definition USERNAME :: u16 where "USERNAME = 0x0006"
definition PASSWORD :: u16 where "PASSWORD = 0x0007"
definition MESSAGE_INTEGRITY :: u16 where "MESSAGE_INTEGRITY = 0x0008"
definition ERROR_CODE :: u16 where "ERROR_CODE = 0x0009"
definition UNKNOWN_ATTRIBUTES :: u16 where "UNKNOWN_ATTRIBUTES = 0x000a"
definition REFLECTED_FROM :: u16 where "REFLECTED_FROM = 0x000b"

definition CHANGE_REQUEST_IP :: u32 where "CHANGE_REQUEST_IP = 0x20"
definition CHANGE_REQUEST_PORT :: u32 where "CHANGE_REQUEST_PORT = 0x40"
definition CHANGE_REQUEST_IP_AND_PORT :: u32 where "CHANGE_REQUEST_IP_AND_PORT = 0x60"

lemmas message_types = BINDING_REQUEST_def BINDING_RESPONSE_def BINDING_ERROR_def
  SHARED_SECRET_RESPONSE_def SHARED_SECRET_ERROR_def

lemmas attribute_types = MAPPED_ADDRESS_def XOR_MAPPED_ADDRESS_def RESPONSE_ADDRESS_def
  CHANGE_REQUEST_def SOURCE_ADDRESS_def CHANGED_ADDRESS_def USERNAME_def
  MESSAGE_INTEGRITY_def REFLECTED_FROM_def

lemmas change_request_values = CHANGE_REQUEST_IP_def CHANGE_REQUEST_PORT_def
  CHANGE_REQUEST_IP_AND_PORT_def

text \<open>The codes are unambiguous, including those of messages the program never builds.\<close>

lemma codes_distinct:
  "distinct [BINDING_REQUEST, BINDING_RESPONSE, BINDING_ERROR, SHARED_SECRET_REQUEST, SHARED_SECRET_RESPONSE, SHARED_SECRET_ERROR]"
  "distinct [MAPPED_ADDRESS, XOR_MAPPED_ADDRESS, RESPONSE_ADDRESS, CHANGE_REQUEST, SOURCE_ADDRESS, CHANGED_ADDRESS, USERNAME,
     PASSWORD, MESSAGE_INTEGRITY, ERROR_CODE, UNKNOWN_ATTRIBUTES, REFLECTED_FROM]"
  by (simp_all add: message_types attribute_types SHARED_SECRET_REQUEST_def PASSWORD_def ERROR_CODE_def UNKNOWN_ATTRIBUTES_def)

section \<open>Messages\<close>

datatype change_request = CR_None | CR_Ip | CR_Port | CR_IpAndPort

record bind_request =
  response_address :: "socket_addr option"
  bind_change_request :: change_request
  username :: "bytes option"

datatype request = Bind bind_request | SharedSecret

record bind_response =
  mapped_address :: socket_addr
  source_address :: "socket_addr option"
  changed_address :: "socket_addr option"
  reflected_from :: "socket_addr option"

datatype response = BindResponse bind_response

datatype attribute =
  MappedAddress socket_addr
  | ResponseAddress socket_addr
  | ChangedAddress socket_addr
  | SourceAddress socket_addr
  | ReflectedFrom socket_addr
  | ChangeRequest change_request
  | MessageIntegrity bytes
  | Username bytes
  | UnknownOptional

definition bind_request_default :: bind_request where
  "bind_request_default =
     \<lparr>response_address = None, bind_change_request = CR_None, username = None\<rparr>"

section \<open>Encoding\<close>

text \<open>Writing into a \<open>Vec\<close> or \<open>BytesMut\<close> cannot fail, so those \<open>?\<close> have no error branch.\<close>

definition encode_change_request :: "change_request \<Rightarrow> (bytes, error) result" where
  "encode_change_request c =
     (case c of
        CR_None \<Rightarrow> Ok []
      | CR_Ip \<Rightarrow> Ok (to_be 4 CHANGE_REQUEST_IP)
      | CR_Port \<Rightarrow> Ok (to_be 4 CHANGE_REQUEST_PORT)
      | CR_IpAndPort \<Rightarrow> Ok (to_be 4 CHANGE_REQUEST_IP_AND_PORT))"

definition encode_address :: "socket_addr \<Rightarrow> (bytes, error) result" where
  "encode_address addr =
     (case addr of
        SockV4 ip port \<Rightarrow> Ok ([0x00, 0x01] @ to_be 2 port @ to_be 4 ip)
      | SockV6 _ _ _ _ \<Rightarrow> Err (IoError InvalidInput ''STUN does not support IPv6''))"

definition pad_username :: "bytes \<Rightarrow> bytes" where
  "pad_username u = u @ replicate ((4 - (length u mod 4)) mod 4) 0x00"

definition attribute_opaque :: "attribute \<Rightarrow> (u16 \<times> bytes, error) result" where
  "attribute_opaque a =
     (case a of
        MappedAddress s \<Rightarrow> rmap (Pair MAPPED_ADDRESS) (encode_address s)
      | ResponseAddress s \<Rightarrow> rmap (Pair RESPONSE_ADDRESS) (encode_address s)
      | ChangedAddress s \<Rightarrow> rmap (Pair CHANGED_ADDRESS) (encode_address s)
      | SourceAddress s \<Rightarrow> rmap (Pair SOURCE_ADDRESS) (encode_address s)
      | ReflectedFrom s \<Rightarrow> rmap (Pair REFLECTED_FROM) (encode_address s)
      | MessageIntegrity h \<Rightarrow> Ok (MESSAGE_INTEGRITY, h)
      | Username u \<Rightarrow> Ok (USERNAME, pad_username u)
      | ChangeRequest c \<Rightarrow> rmap (Pair CHANGE_REQUEST) (encode_change_request c)
      | UnknownOptional \<Rightarrow>
          Err (IoError InvalidInput ''cannot encode an unknown STUN attribute''))"

definition attribute_encode :: "attribute \<Rightarrow> bytes \<Rightarrow> (bytes, error) result" where
  "attribute_encode a buf =
     rbind (attribute_opaque a) (\<lambda>(typ, opaque).
     rbind (ok_or (u16_try_from (length opaque))
              (IoError InvalidInput ''STUN attribute is too large'')) (\<lambda>opaque_length.
     Ok (buf @ to_be 2 typ @ to_be 2 opaque_length @ opaque)))"

definition bind_request_encode :: "bind_request \<Rightarrow> (bytes, error) result" where
  "bind_request_encode req =
     rbind (case response_address req of
              Some a \<Rightarrow> attribute_encode (ResponseAddress a) [] | None \<Rightarrow> Ok []) (\<lambda>buf.
     rbind (if bind_change_request req \<noteq> CR_None
            then attribute_encode (ChangeRequest (bind_change_request req)) buf
            else Ok buf) (\<lambda>buf.
     (case username req of
        Some u \<Rightarrow> attribute_encode (Username u) buf | None \<Rightarrow> Ok buf)))"

text \<open>The first half of the transaction id: the magic cookie in the high 32 bits.\<close>

definition cookie_word :: u64 where
  "cookie_word = push_bit 32 (ucast MAGIC_COOKIE)"

definition stun_encode :: "u64 \<times> request \<Rightarrow> bytes \<Rightarrow> (bytes, error) result" where
  "stun_encode msg buf =
     (let (trans_id, req) = msg in
      rbind (case req of
               Bind bind \<Rightarrow> rmap (Pair BINDING_REQUEST) (bind_request_encode bind)
             | SharedSecret \<Rightarrow>
                 Err (IoError InvalidInput ''shared-secret STUN requests are not supported''))
        (\<lambda>(typ, m).
      rbind (ok_or (u16_try_from (length m))
               (IoError InvalidInput ''STUN request is too large'')) (\<lambda>message_length.
      Ok (buf @ to_be 2 typ @ to_be 2 message_length @ to_be 8 cookie_word
              @ to_be 8 trans_id @ m))))"

definition encode_sink :: "(u64 \<times> request) \<times> socket_addr \<Rightarrow> (datagram, error) result" where
  "encode_sink item =
     (let ((id, req), peer) = item in rmap (\<lambda>buf. (buf, peer)) (stun_encode (id, req) []))"

section \<open>Decoding\<close>

record cursor =
  cur_buf :: bytes
  cur_pos :: nat

definition cursor_new :: "bytes \<Rightarrow> cursor" where
  "cursor_new bs = \<lparr>cur_buf = bs, cur_pos = 0\<rparr>"

text \<open>\<open>byteorder\<close>'s \<open>read_u16\<close> and \<open>read_u64\<close> are \<open>read_exact\<close> on the cursor.\<close>

definition read_be :: "nat \<Rightarrow> cursor \<Rightarrow> ('a::len word \<times> cursor, error) result" where
  "read_be n c =
     (if cur_pos c + n \<le> length (cur_buf c)
      then Ok (from_be (take n (drop (cur_pos c) (cur_buf c))), c\<lparr>cur_pos := cur_pos c + n\<rparr>)
      else Err (IoError UnexpectedEof ''failed to fill whole buffer''))"

definition xor_octets :: "nat \<Rightarrow> bytes \<Rightarrow> bytes \<Rightarrow> (bytes, error) result" where
  "xor_octets n val xor_key =
     mapR (\<lambda>i. rbind (index val (i + 4)) (\<lambda>b. rbind (index xor_key i) (\<lambda>k. Ok (b XOR k)))) [0..<n]"

definition read_xor_address :: "bytes \<Rightarrow> bytes \<Rightarrow> (socket_addr, error) result" where
  "read_xor_address val xor_key =
     (if length val < 4
      then Err (IoError UnexpectedEof ''STUN XOR-MAPPED-ADDRESS is too short'')
      else
        rbind (index val 2) (\<lambda>v2. rbind (index val 3) (\<lambda>v3.
        rbind (index xor_key 0) (\<lambda>k0. rbind (index xor_key 1) (\<lambda>k1.
        rbind (index val 1) (\<lambda>family.
        let port = (from_be [v2, v3] :: u16) XOR from_be [k0, k1] in
        if family = 0x01 \<and> length val = 8 then
          rbind (xor_octets 4 val xor_key) (\<lambda>address. Ok (sock_new (IpV4 (from_be address)) port))
        else if family = 0x02 \<and> length val = 20 then
          rbind (xor_octets 16 val xor_key) (\<lambda>address. Ok (sock_new (IpV6 (from_be address)) port))
        else if family = 0x01 \<or> family = 0x02 then
          Err (IoError InvalidData ''STUN XOR-MAPPED-ADDRESS has an invalid length'')
        else Err (IoError InvalidData ''Invalid STUN address family'')))))))"

definition read_address :: "bytes \<Rightarrow> (socket_addr, error) result" where
  "read_address val =
     (if length val < 4
      then Err (IoError UnexpectedEof ''STUN address attribute is too short'')
      else
        rbind (index val 2) (\<lambda>v2. rbind (index val 3) (\<lambda>v3. rbind (index val 1) (\<lambda>family.
        let port = from_be [v2, v3] :: u16 in
        if family = 0x01 \<and> length val = 8 then
          rbind (mapR (index val) [4, 5, 6, 7]) (\<lambda>octets. Ok (sock_new (IpV4 (from_be octets)) port))
        else if family = 0x02 \<and> length val = 20 then
          rbind (slice val 4 (length val)) (\<lambda>rest. rbind (copy_exact 16 rest) (\<lambda>address.
            Ok (sock_new (IpV6 (from_be address)) port)))
        else if family = 0x01 \<or> family = 0x02 then
          Err (IoError InvalidData ''STUN address attribute has an invalid length'')
        else Err (IoError InvalidData ''Invalid address family'')))))"

definition read_change_request :: "bytes \<Rightarrow> (attribute, error) result" where
  "read_change_request val =
     (case val of
        [first, second, third, fourth] \<Rightarrow>
          (let v = from_be [first, second, third, fourth] :: u32 in
           if v = CHANGE_REQUEST_IP then Ok (ChangeRequest CR_Ip)
           else if v = CHANGE_REQUEST_PORT then Ok (ChangeRequest CR_Port)
           else if v = CHANGE_REQUEST_IP_AND_PORT then Ok (ChangeRequest CR_IpAndPort)
           else Err (IoError InvalidData ''CHANGE_REQUEST not understood''))
      | _ \<Rightarrow> Err (IoError InvalidData ''STUN change-request attribute has an invalid length''))"

definition attribute_of :: "u16 \<Rightarrow> bytes \<Rightarrow> bytes \<Rightarrow> (attribute, error) result" where
  "attribute_of typ val xor_key =
     (if typ = XOR_MAPPED_ADDRESS then rmap MappedAddress (read_xor_address val xor_key)
      else if typ = MAPPED_ADDRESS then rmap MappedAddress (read_address val)
      else if typ = RESPONSE_ADDRESS then rmap ResponseAddress (read_address val)
      else if typ = CHANGED_ADDRESS then rmap ChangedAddress (read_address val)
      else if typ = SOURCE_ADDRESS then rmap SourceAddress (read_address val)
      else if typ = REFLECTED_FROM then rmap ReflectedFrom (read_address val)
      else if typ = MESSAGE_INTEGRITY then
        (if length val \<noteq> 20
         then Err (IoError InvalidData ''STUN message-integrity attribute has an invalid length'')
         else rmap MessageIntegrity (copy_exact 20 val))
      else if typ = CHANGE_REQUEST then read_change_request val
      else if typ \<le> 0x7fff then Err (IoError InvalidData ''Unknown mandatory field'')
      else Ok UnknownOptional)"

text \<open>\<open>length & !3\<close> on a 64-bit \<open>usize\<close>.\<close>

definition pad_mask :: "nat \<Rightarrow> nat" where
  "pad_mask n = unat ((word_of_nat n :: u64) AND NOT 3)"

definition attribute_read :: "cursor \<Rightarrow> bytes \<Rightarrow> (attribute \<times> cursor, error) result" where
  "attribute_read c xor_key =
     (let bad_length = IoError InvalidData ''Invalid STUN attribute length'' in
      rbind (read_be 2 c) (\<lambda>(typ :: u16, c).
      rbind (read_be 2 c) (\<lambda>(len :: u16, c).
      rbind (ok_or (map_option pad_mask (usize_checked_add (unat len) 3)) bad_length)
        (\<lambda>padded_length.
      let start = cur_pos c in
      rbind (ok_or (usize_checked_add start (unat len)) bad_length) (\<lambda>end.
      rbind (ok_or (usize_checked_add start padded_length) bad_length) (\<lambda>padded_end.
      if padded_end > length (cur_buf c)
      then Err (IoError UnexpectedEof ''STUN attribute exceeds the message body'')
      else
        rbind (slice (cur_buf c) start end) (\<lambda>val.
        rmap (\<lambda>a. (a, c\<lparr>cur_pos := padded_end\<rparr>)) (attribute_of typ val xor_key))))))))"

section \<open>The attribute loop\<close>

text \<open>
  \<open>read_binding_response\<close> runs while the cursor is inside the body. Every attribute read
  consumes at least its four header bytes, which is why the loop ends.
\<close>

lemma pad_mask_eq: "n < 2 ^ 64 \<Longrightarrow> pad_mask n = n div 4 * 4"
proof -
  assume n: "n < 2 ^ 64"
  have three: "(3 :: u64) = mask 2"
    by (simp add: mask_eq_exp_minus_1)
  have "(word_of_nat n :: u64) AND NOT 3 = push_bit 2 (drop_bit 2 (word_of_nat n))"
    unfolding three by (rule bit_word_eqI) (auto simp: bit_simps not_less dest!: le_Suc_ex)
  then have "pad_mask n = unat (push_bit 2 (drop_bit 2 (word_of_nat n :: u64)))"
    by (simp only: pad_mask_def)
  also have "\<dots> = take_bit 64 (push_bit 2 (drop_bit 2 (take_bit 64 n)))"
    by (simp only: unsigned_push_bit_eq unsigned_drop_bit_eq unat_of_nat) (simp add: take_bit_eq_mod)
  also have "\<dots> = n div 4 * 4"
    using n by (simp add: take_bit_eq_mod push_bit_eq_mult drop_bit_eq_div)
  finally show ?thesis .
qed


lemma usize_checked_add_small: "a + b < 2 ^ 64 \<Longrightarrow> usize_checked_add a b = Some (a + b)"
  by (simp add: usize_checked_add_def)

lemma unat_u16_bound: "unat (w :: u16) < 65536"
  using unsigned_less [of w, where 'a = nat] by simp

lemma padded_length:
  "usize_checked_add (unat (w :: u16)) 3 = Some (unat w + 3)"
  "pad_mask (unat w + 3) = (unat w + 3) div 4 * 4"
  "unat w \<le> (unat w + 3) div 4 * 4"
  using unat_u16_bound [of w] by (auto intro!: usize_checked_add_small pad_mask_eq)

lemma read_be_eq:
  "read_be n c = Inr (w, c') \<longleftrightarrow>
     cur_pos c + n \<le> length (cur_buf c) \<and> w = from_be (take n (drop (cur_pos c) (cur_buf c))) \<and>
     c' = c\<lparr>cur_pos := cur_pos c + n\<rparr>"
  by (auto simp: read_be_def)

lemma read_be_no_panic: "read_be n c \<noteq> Inl Panic"
  by (simp add: read_be_def)

lemma attribute_read_progress:
  assumes "attribute_read c xor_key = Inr (a, c')"
  shows "cur_buf c' = cur_buf c" and "cur_pos c + 4 \<le> cur_pos c'"
    and "cur_pos c' \<le> length (cur_buf c)"
  using assms
  by (auto simp: attribute_read_def result_simps read_be_eq usize_checked_add_def Let_def
      split: if_splits)

lemma attribute_read_smaller:
  assumes "attribute_read c xor_key = Inr (a, c')" and "cur_pos c < length (cur_buf c)"
  shows "length (cur_buf c') - cur_pos c' < length (cur_buf c) - cur_pos c"
  using attribute_read_progress [OF assms(1)] assms(2) by simp

record partial_response =
  p_mapped :: "socket_addr option"
  p_source :: "socket_addr option"
  p_changed :: "socket_addr option"
  p_reflected :: "socket_addr option"

definition partial_empty :: partial_response where
  "partial_empty = \<lparr>p_mapped = None, p_source = None, p_changed = None, p_reflected = None\<rparr>"

definition get_or_insert :: "'a option \<Rightarrow> 'a \<Rightarrow> 'a option" where
  "get_or_insert old new = (case old of None \<Rightarrow> Some new | Some x \<Rightarrow> Some x)"

text \<open>The match on the attribute just read; \<open>None\<close> is the error branch.\<close>

definition note_attribute :: "attribute \<Rightarrow> partial_response \<Rightarrow> partial_response option" where
  "note_attribute a p =
     (case a of
        MappedAddress s \<Rightarrow> Some (p\<lparr>p_mapped := get_or_insert (p_mapped p) s\<rparr>)
      | SourceAddress s \<Rightarrow> Some (p\<lparr>p_source := get_or_insert (p_source p) s\<rparr>)
      | ChangedAddress s \<Rightarrow> Some (p\<lparr>p_changed := get_or_insert (p_changed p) s\<rparr>)
      | ReflectedFrom s \<Rightarrow> Some (p\<lparr>p_reflected := get_or_insert (p_reflected p) s\<rparr>)
      | MessageIntegrity _ \<Rightarrow> Some p
      | UnknownOptional \<Rightarrow> Some p
      | _ \<Rightarrow> None)"

definition unknown_mandatory :: error where
  "unknown_mandatory = IoError InvalidData ''Unknown mandatory attribute!''"

function read_attributes ::
    "cursor \<Rightarrow> bytes \<Rightarrow> partial_response \<Rightarrow> (partial_response, error) result" where
  "read_attributes c xor_key p =
     (if cur_pos c < length (cur_buf c) then
        (case attribute_read c xor_key of
           Inl Panic \<Rightarrow> Err Panic
         | Inl _ \<Rightarrow> Err unknown_mandatory
         | Inr (a, c') \<Rightarrow>
             (case note_attribute a p of
                None \<Rightarrow> Err unknown_mandatory
              | Some p' \<Rightarrow> read_attributes c' xor_key p'))
      else Ok p)"
  by pat_completeness auto
termination
  by (relation "measure (\<lambda>(c, xor_key, p). length (cur_buf c) - cur_pos c)")
    (auto intro: attribute_read_smaller)

declare read_attributes.simps [simp del]

definition read_binding_response :: "cursor \<Rightarrow> bytes \<Rightarrow> (bind_response, error) result" where
  "read_binding_response c xor_key =
     rbind (read_attributes c xor_key partial_empty) (\<lambda>p.
     rbind (ok_or (p_mapped p) (IoError InvalidData ''MappedAddress missing!'')) (\<lambda>m.
     Ok \<lparr>mapped_address = m, source_address = p_source p, changed_address = p_changed p,
         reflected_from = p_reflected p\<rparr>))"

text \<open>The match on the message type at the end of \<open>decode_const\<close>.\<close>

definition decode_message :: "u16 \<Rightarrow> bytes \<Rightarrow> bytes \<Rightarrow> (response, error) result" where
  "decode_message msg_type body xor_key =
     (if msg_type = BINDING_RESPONSE then
        rmap BindResponse (read_binding_response (cursor_new body) xor_key)
      else if msg_type = BINDING_ERROR then
        Err (IoError InvalidData ''BINDING_ERROR unimplemented'')
      else if msg_type = SHARED_SECRET_RESPONSE then
        Err (IoError InvalidData ''SHARED_SECRET_RESPONSE unimplemented'')
      else if msg_type = SHARED_SECRET_ERROR then
        Err (IoError InvalidData ''SHARED_SECRET_ERROR unimplemented'')
      else Err (IoError InvalidData ''Unknown message type!''))"

definition decode_const :: "u64 \<Rightarrow> bytes \<Rightarrow> (response option, error) result" where
  "decode_const expected_id msg =
     rbind (read_be 2 (cursor_new msg)) (\<lambda>(msg_type :: u16, header).
     rbind (read_be 2 header) (\<lambda>(len :: u16, header).
     let message_length = unat len in
     rbind (read_be 8 header) (\<lambda>(trans_id1 :: u64, header).
     rbind (read_be 8 header) (\<lambda>(trans_id2 :: u64, header).
     if trans_id2 \<noteq> expected_id then Ok None
     else if trans_id1 \<noteq> cookie_word then
       Err (IoError InvalidData ''Invalid transaction ID!'')
     else
       rbind (ok_or (usize_checked_add 20 message_length)
                (IoError InvalidData ''Invalid STUN message length'')) (\<lambda>message_end.
       if length msg \<noteq> message_end then
         Err (IoError InvalidData ''STUN message length does not match the datagram'')
       else
         let xor_key = to_be 8 trans_id1 @ to_be 8 trans_id2 in
         rbind (slice msg 20 (length msg)) (\<lambda>body.
         rmap Some (decode_message msg_type body xor_key)))))))"

section \<open>Panic freedom\<close>

lemma xor_octets_ok:
  assumes "n + 4 \<le> length val" and "n \<le> length xor_key"
  shows "xor_octets n val xor_key = Inr (map2 (XOR) (take n (drop 4 val)) (take n xor_key))"
proof -
  have "xor_octets n val xor_key = Inr (map (\<lambda>i. val ! (i + 4) XOR xor_key ! i) [0..<n])"
    unfolding xor_octets_def by (rule mapR_Ok) (use assms in auto)
  also have "map (\<lambda>i. val ! (i + 4) XOR xor_key ! i) [0..<n]
      = map2 (XOR) (take n (drop 4 val)) (take n xor_key)"
    using assms by (intro nth_equalityI) (auto simp: add.commute)
  finally show ?thesis .
qed

lemma read_xor_address_no_panic: "length xor_key = 16 \<Longrightarrow> read_xor_address val xor_key \<noteq> Inl Panic"
  by (auto simp: read_xor_address_def Let_def xor_octets_ok)

lemma read_address_no_panic: "read_address val \<noteq> Inl Panic"
  by (auto simp: read_address_def Let_def)

lemma attribute_of_no_panic: "length xor_key = 16 \<Longrightarrow> attribute_of typ val xor_key \<noteq> Inl Panic"
  by (auto simp: attribute_of_def read_change_request_def Let_def result_simps
      read_xor_address_no_panic read_address_no_panic split: list.splits)

lemma attribute_read_no_panic:
  assumes "length xor_key = 16"
  shows "attribute_read c xor_key \<noteq> Inl Panic"
  using assms
  by (auto simp: attribute_read_def result_simps read_be_eq read_be_no_panic Let_def
      attribute_of_no_panic slice_def padded_length usize_checked_add_def split: if_splits)

lemma read_attributes_no_panic:
  "length xor_key = 16 \<Longrightarrow> read_attributes c xor_key p \<noteq> Inl Panic"
proof (induction c xor_key p rule: read_attributes.induct)
  case (1 c xor_key p)
  then show ?case
    by (subst read_attributes.simps)
      (auto simp: unknown_mandatory_def attribute_read_no_panic split: sum.splits error.splits option.splits)
qed

lemma decode_message_no_panic:
  "length xor_key = 16 \<Longrightarrow> decode_message msg_type body xor_key \<noteq> Inl Panic"
  by (simp add: decode_message_def read_binding_response_def result_simps read_attributes_no_panic)

lemma read_be_in_range:
  "cur_pos c + n \<le> length (cur_buf c) \<Longrightarrow>
     read_be n c = Inr (from_be (take n (drop (cur_pos c) (cur_buf c))), c\<lparr>cur_pos := cur_pos c + n\<rparr>)"
  by (simp add: read_be_def)

text \<open>The two header cases of \<open>decode_const\<close>: too short, and the four fields of a full header.\<close>

lemma decode_const_short:
  "length msg < 20 \<Longrightarrow>
     decode_const expected_id msg = Inl (IoError UnexpectedEof ''failed to fill whole buffer'')"
  by (auto simp: decode_const_def read_be_def cursor_new_def)

lemma decode_const_header:
  assumes "20 \<le> length msg"
  shows "decode_const expected_id msg =
    (let msg_type = from_be (take 2 msg) :: u16; len = unat (from_be (take 2 (drop 2 msg)) :: u16);
         trans_id1 = from_be (take 8 (drop 4 msg)) :: u64;
         trans_id2 = from_be (take 8 (drop 12 msg)) :: u64
     in if trans_id2 \<noteq> expected_id then Inr None
        else if trans_id1 \<noteq> cookie_word then Inl (IoError InvalidData ''Invalid transaction ID!'')
        else if length msg \<noteq> 20 + len then
          Inl (IoError InvalidData ''STUN message length does not match the datagram'')
        else rmap Some (decode_message msg_type (drop 20 msg) (to_be 8 trans_id1 @ to_be 8 trans_id2)))"
proof -
  let ?len = "from_be (take 2 (drop 2 msg)) :: u16"
  have add: "usize_checked_add 20 (unat ?len) = Some (20 + unat ?len)"
    using unat_u16_bound [of ?len] by (intro usize_checked_add_small) simp
  have fields:
    "read_be 2 \<lparr>cur_buf = msg, cur_pos = 0\<rparr>
       = Inr (from_be (take 2 msg) :: u16, \<lparr>cur_buf = msg, cur_pos = 2\<rparr>)"
    "read_be 2 \<lparr>cur_buf = msg, cur_pos = 2\<rparr> = Inr (?len, \<lparr>cur_buf = msg, cur_pos = 4\<rparr>)"
    "read_be 8 \<lparr>cur_buf = msg, cur_pos = 4\<rparr>
       = Inr (from_be (take 8 (drop 4 msg)) :: u64, \<lparr>cur_buf = msg, cur_pos = 12\<rparr>)"
    "read_be 8 \<lparr>cur_buf = msg, cur_pos = 12\<rparr>
       = Inr (from_be (take 8 (drop 12 msg)) :: u64, \<lparr>cur_buf = msg, cur_pos = 20\<rparr>)"
    using assms by (simp_all add: read_be_def)
  have body: "slice msg 20 (length msg) = Inr (drop 20 msg)"
    using assms by simp
  show ?thesis
    unfolding decode_const_def cursor_new_def fields rbind_simps prod.case Let_def add ok_or_simps
      body ..
qed

text \<open>
  \<^bold>\<open>C17\<close>. Decoding a datagram never panics: for every expected transaction id and every byte
  string an attacker can send, \<open>decode_const\<close> returns a value or an \<open>io::Error\<close>; no index,
  slice or array copy it performs is out of range.
\<close>

theorem decode_const_no_panic: "decode_const expected_id msg \<noteq> Err Panic"
proof (cases "20 \<le> length msg")
  case True
  then show ?thesis
    by (simp add: decode_const_header Let_def result_simps decode_message_no_panic
        del: take_all drop_all)
next
  case False
  then show ?thesis by (simp add: decode_const_short)
qed

section \<open>The grammar of a message body\<close>

text \<open>
  The format the decoder implements, stated on byte strings: a body is a sequence of
  attributes, each a type, a length, that many value bytes and padding up to a multiple of
  four (whose content is not inspected).
\<close>

definition padding :: "nat \<Rightarrow> nat" where
  "padding n = (n + 3) div 4 * 4 - n"

definition tlv :: "u16 \<Rightarrow> bytes \<Rightarrow> bytes \<Rightarrow> bytes" where
  "tlv typ val pad = to_be 2 typ @ to_be 2 (word_of_nat (length val) :: u16) @ val @ pad"

inductive tlv_body :: "bytes \<Rightarrow> bytes \<Rightarrow> attribute list \<Rightarrow> bool" for xor_key :: bytes where
  tlv_Nil: "tlv_body xor_key [] []"
| tlv_Cons: "length val < 65536 \<Longrightarrow> length pad = padding (length val) \<Longrightarrow>
     attribute_of typ val xor_key = Ok a \<Longrightarrow> tlv_body xor_key rest attrs \<Longrightarrow>
     tlv_body xor_key (tlv typ val pad @ rest) (a # attrs)"

inductive_cases tlv_body_NilE: "tlv_body xor_key [] attrs"
inductive_cases tlv_body_ConsE: "tlv_body xor_key bs (a # attrs)"

primrec note_all :: "attribute list \<Rightarrow> partial_response \<Rightarrow> partial_response option" where
  "note_all [] p = Some p"
| "note_all (a # as) p = (case note_attribute a p of None \<Rightarrow> None | Some p' \<Rightarrow> note_all as p')"

text \<open>What a list of attributes answers: the first address of each kind.\<close>

primrec mapped_of :: "attribute list \<Rightarrow> socket_addr option" where
  "mapped_of [] = None"
| "mapped_of (a # as) = (case a of MappedAddress s \<Rightarrow> Some s | _ \<Rightarrow> mapped_of as)"

primrec source_of :: "attribute list \<Rightarrow> socket_addr option" where
  "source_of [] = None"
| "source_of (a # as) = (case a of SourceAddress s \<Rightarrow> Some s | _ \<Rightarrow> source_of as)"

primrec changed_of :: "attribute list \<Rightarrow> socket_addr option" where
  "changed_of [] = None"
| "changed_of (a # as) = (case a of ChangedAddress s \<Rightarrow> Some s | _ \<Rightarrow> changed_of as)"

primrec reflected_of :: "attribute list \<Rightarrow> socket_addr option" where
  "reflected_of [] = None"
| "reflected_of (a # as) = (case a of ReflectedFrom s \<Rightarrow> Some s | _ \<Rightarrow> reflected_of as)"

definition allowed_in_response :: "attribute \<Rightarrow> bool" where
  "allowed_in_response a =
     (case a of ResponseAddress _ \<Rightarrow> False | ChangeRequest _ \<Rightarrow> False | Username _ \<Rightarrow> False | _ \<Rightarrow> True)"

lemma be_words [simp]:
  "from_be (to_be 2 (w16 :: u16)) = w16"
  "from_be (to_be 4 (w32 :: u32)) = w32"
  "from_be (to_be 8 (w64 :: u64)) = w64"
  "from_be (to_be 16 (w128 :: u128)) = w128"
  by (simp_all add: from_be_to_be)

lemma be_bytes:
  "length bs = 2 \<Longrightarrow> to_be 2 (from_be bs :: u16) = bs"
  "length bs = 4 \<Longrightarrow> to_be 4 (from_be bs :: u32) = bs"
  "length bs = 8 \<Longrightarrow> to_be 8 (from_be bs :: u64) = bs"
  "length bs = 16 \<Longrightarrow> to_be 16 (from_be bs :: u128) = bs"
  using to_be_from_be [of bs, where 'a = 16] to_be_from_be [of bs, where 'a = 32]
    to_be_from_be [of bs, where 'a = 64] to_be_from_be [of bs, where 'a = 128] by auto

lemma split_fields: "drop n bs = take k (drop n bs) @ drop (n + k) bs"
  by (metis append_take_drop_id drop_drop add.commute)

lemma attribute_read_tlv:
  assumes "cur_buf c = pre @ tlv typ val pad @ rest" and "cur_pos c = length pre"
    and "length val < 65536" and "length pad = padding (length val)"
    and "length (cur_buf c) < 2 ^ 62"
  shows "attribute_read c xor_key =
    rmap (\<lambda>a. (a, c\<lparr>cur_pos := length pre + length (tlv typ val pad)\<rparr>)) (attribute_of typ val xor_key)"
proof -
  let ?p = "length pre" and ?n = "length val"
  have len: "unat (word_of_nat ?n :: u16) = ?n"
    using assms(3) by (rule unat_u16_of_nat)
  have padded: "(?n + 3) div 4 * 4 = ?n + length pad" and pad: "pad_mask (?n + 3) = ?n + length pad"
    using assms(3,4) by (simp_all add: padding_def pad_mask_eq)
  have rd_typ: "read_be 2 c = Inr (typ, c\<lparr>cur_pos := ?p + 2\<rparr>)"
    and rd_len: "read_be 2 (c\<lparr>cur_pos := ?p + 2\<rparr>) = Inr (word_of_nat ?n :: u16, c\<lparr>cur_pos := ?p + 4\<rparr>)"
    using assms(1,2) by (simp_all add: read_be_def tlv_def)
  have adds: "usize_checked_add (?p + 4) ?n = Some (?p + 4 + ?n)"
    "usize_checked_add (?p + 4) (?n + length pad) = Some (?p + 4 + (?n + length pad))"
    "usize_checked_add ?n 3 = Some (?n + 3)"
    using assms(1,5) by (auto simp: tlv_def intro!: usize_checked_add_small)
  have val: "slice (cur_buf c) (?p + 4) (?p + 4 + ?n) = Inr val"
    using assms(1) by (simp add: tlv_def)
  show ?thesis
    using assms(1)
    by (simp add: attribute_read_def rd_typ rd_len len adds pad val Let_def tlv_def add.assoc)
qed

lemma attribute_read_decomp:
  assumes "attribute_read c xor_key = Inr (a, c')"
  obtains ty val pad where "drop (cur_pos c) (cur_buf c) = tlv ty val pad @ drop (cur_pos c') (cur_buf c)"
    and "length val < 65536" and "length pad = padding (length val)"
    and "attribute_of ty val xor_key = Inr a"
proof -
  let ?b = "cur_buf c" and ?p = "cur_pos c"
  define ty where "ty = (from_be (take 2 (drop ?p ?b)) :: u16)"
  define len where "len = (from_be (take 2 (drop (?p + 2) ?b)) :: u16)"
  define val where "val = take (unat len) (drop (?p + 4) ?b)"
  define pad where "pad = take (padding (unat len)) (drop (?p + 4 + unat len) ?b)"
  have pe: "unat len + padding (unat len) = (unat len + 3) div 4 * 4"
    using padded_length(3) [of len] by (simp add: padding_def)
  have p4: "?p + 4 \<le> length ?b"
    using attribute_read_progress [OF assms] by simp
  have rd_ty: "read_be 2 c = Inr (ty, c\<lparr>cur_pos := ?p + 2\<rparr>)"
    and rd_len: "read_be 2 (c\<lparr>cur_pos := ?p + 2\<rparr>) = Inr (len, c\<lparr>cur_pos := ?p + 4\<rparr>)"
    using p4 by (simp_all add: read_be_def ty_def len_def)
  have pos': "cur_pos c' = ?p + 4 + (unat len + padding (unat len))"
    and fits: "?p + 4 + (unat len + padding (unat len)) \<le> length ?b"
    and attr: "attribute_of ty val xor_key = Inr a"
    using assms unfolding attribute_read_def rd_ty rd_len rbind_simps prod.case Let_def pe
    by (auto simp: result_simps usize_checked_add_def padded_length val_def slice_def split: if_splits)
  have lens: "length val = unat len" "length pad = padding (unat len)"
    using fits by (simp_all add: val_def pad_def)
  have "drop ?p ?b = to_be 2 ty @ drop (?p + 2) ?b"
    and "drop (?p + 2) ?b = to_be 2 len @ drop (?p + 4) ?b"
    using split_fields [of ?p ?b 2] split_fields [of "?p + 2" ?b 2] p4
    by (simp_all add: ty_def len_def be_bytes add.commute)
  moreover have "drop (?p + 4) ?b = val @ drop (?p + 4 + unat len) ?b"
    and "drop (?p + 4 + unat len) ?b = pad @ drop (cur_pos c') ?b"
    using split_fields [of "?p + 4" ?b "unat len"]
      split_fields [of "?p + 4 + unat len" ?b "padding (unat len)"]
    by (simp_all add: val_def pad_def pos' add.assoc)
  moreover have "word_of_nat (unat len) = len"
    by simp
  ultimately have "drop ?p ?b = tlv ty val pad @ drop (cur_pos c') ?b"
    by (simp only: tlv_def lens append_assoc)
  then show ?thesis
    using that lens unat_u16_bound [of len] attr by metis
qed

lemma read_attributes_sound:
  "read_attributes c xor_key p = Inr p' \<Longrightarrow> cur_pos c \<le> length (cur_buf c) \<Longrightarrow>
   \<exists>attrs. tlv_body xor_key (drop (cur_pos c) (cur_buf c)) attrs \<and> note_all attrs p = Some p'"
proof (induction c xor_key p rule: read_attributes.induct)
  case (1 c xor_key p)
  show ?case
  proof (cases "cur_pos c < length (cur_buf c)")
    case False
    with "1.prems" have "drop (cur_pos c) (cur_buf c) = []" and "p' = p"
      by (auto simp: read_attributes.simps)
    then show ?thesis
      by (intro exI [of _ "[]"]) (simp add: tlv_Nil)
  next
    case True
    with "1.prems"(1) obtain a c' q where rd: "attribute_read c xor_key = Inr (a, c')"
      and nt: "note_attribute a p = Some q" and rest: "read_attributes c' xor_key q = Inr p'"
      by (auto simp: read_attributes.simps [of c]
          split: if_splits sum.splits error.splits option.splits)
    note pr = attribute_read_progress [OF rd]
    from "1.IH" [OF True rd refl nt rest] pr obtain attrs where
      "tlv_body xor_key (drop (cur_pos c') (cur_buf c)) attrs" and "note_all attrs q = Some p'"
      by auto
    moreover obtain ty val pad where
      "drop (cur_pos c) (cur_buf c) = tlv ty val pad @ drop (cur_pos c') (cur_buf c)"
      "length val < 65536" "length pad = padding (length val)" "attribute_of ty val xor_key = Inr a"
      using attribute_read_decomp [OF rd] by blast
    ultimately have "tlv_body xor_key (drop (cur_pos c) (cur_buf c)) (a # attrs)"
      and "note_all (a # attrs) p = Some p'"
      by (auto simp: nt intro: tlv_Cons)
    then show ?thesis by blast
  qed
qed

lemma read_attributes_complete:
  assumes "tlv_body xor_key bs attrs" and "length pre + length bs < 2 ^ 62"
  shows "read_attributes \<lparr>cur_buf = pre @ bs, cur_pos = length pre\<rparr> xor_key p =
    (case note_all attrs p of None \<Rightarrow> Inl unknown_mandatory | Some p' \<Rightarrow> Inr p')"
  using assms
proof (induction arbitrary: pre p rule: tlv_body.induct)
  case tlv_Nil
  then show ?case by (simp add: read_attributes.simps)
next
  case (tlv_Cons val pad ty a rest attrs)
  let ?f = "tlv ty val pad" and ?c = "\<lparr>cur_buf = pre @ tlv ty val pad @ rest, cur_pos = length pre\<rparr>"
  have "attribute_read ?c xor_key = Inr (a, ?c\<lparr>cur_pos := length (pre @ ?f)\<rparr>)"
    by (subst attribute_read_tlv) (use tlv_Cons in auto)
  moreover have "cur_pos ?c < length (cur_buf ?c)"
    by (simp add: tlv_def)
  ultimately show ?case
    using tlv_Cons.IH [of "pre @ ?f"] tlv_Cons.prems
    by (simp add: read_attributes.simps [of ?c] split: option.splits)
qed

definition first_of :: "'a option \<Rightarrow> 'a option \<Rightarrow> 'a option" where
  "first_of old new = (case old of None \<Rightarrow> new | Some x \<Rightarrow> Some x)"

lemma first_of_simps [simp]:
  "first_of None y = y" "first_of (Some s) y = Some s" "first_of y None = y"
  "first_of (get_or_insert y s) z = first_of y (Some s)"
  by (auto simp: first_of_def get_or_insert_def split: option.split)

lemma note_all_Some:
  "note_all attrs p = Some p' \<longleftrightarrow>
     list_all allowed_in_response attrs \<and>
     p' = p\<lparr>p_mapped := first_of (p_mapped p) (mapped_of attrs),
            p_source := first_of (p_source p) (source_of attrs),
            p_changed := first_of (p_changed p) (changed_of attrs),
            p_reflected := first_of (p_reflected p) (reflected_of attrs)\<rparr>"
proof (induction attrs arbitrary: p)
  case Nil
  then show ?case by (auto simp: first_of_def split: option.splits)
next
  case (Cons a attrs)
  then show ?case
    by (cases a) (auto simp: note_attribute_def allowed_in_response_def)
qed

section \<open>What the decoder accepts\<close>

text \<open>
  The cursor loop implements the grammar. (The bound on the body is the one on any Rust
  slice; a STUN body has fewer than 65536 bytes.)
\<close>

lemma read_binding_response_grammar:
  assumes "length body < 2 ^ 62"
  shows "read_binding_response (cursor_new body) xor_key = Ok r \<longleftrightarrow>
    (\<exists>attrs. tlv_body xor_key body attrs \<and> list_all allowed_in_response attrs \<and>
       mapped_of attrs = Some (mapped_address r) \<and> source_of attrs = source_address r \<and>
       changed_of attrs = changed_address r \<and> reflected_of attrs = reflected_from r)"
    (is "?lhs \<longleftrightarrow> (\<exists>attrs. ?spec attrs)")
proof
  assume ?lhs
  then obtain p where "read_attributes (cursor_new body) xor_key partial_empty = Inr p"
    and "p_mapped p = Some (mapped_address r)" "p_source p = source_address r"
    "p_changed p = changed_address r" "p_reflected p = reflected_from r"
    by (auto simp: read_binding_response_def result_simps)
  then show "\<exists>attrs. ?spec attrs"
    using read_attributes_sound [of "cursor_new body" xor_key partial_empty p]
    by (auto simp: cursor_new_def note_all_Some partial_empty_def)
next
  assume "\<exists>attrs. ?spec attrs"
  then obtain attrs where spec: "?spec attrs" ..
  then have "read_attributes (cursor_new body) xor_key partial_empty =
      Inr \<lparr>p_mapped = Some (mapped_address r), p_source = source_address r,
          p_changed = changed_address r, p_reflected = reflected_from r\<rparr>"
    using read_attributes_complete [of xor_key body attrs "[]" partial_empty] assms
      note_all_Some [of attrs partial_empty]
    by (auto simp: cursor_new_def partial_empty_def split: option.splits)
  then show ?lhs
    by (simp add: read_binding_response_def)
qed

definition stun_header :: "u16 \<Rightarrow> nat \<Rightarrow> u64 \<Rightarrow> bytes" where
  "stun_header msg_type len trans_id =
     to_be 2 msg_type @ to_be 2 (word_of_nat len :: u16) @ to_be 8 cookie_word @ to_be 8 trans_id"

lemma length_stun_header [simp]: "length (stun_header msg_type len trans_id) = 20"
  by (simp add: stun_header_def)

lemma decode_const_of_header:
  assumes "length body < 65536"
  shows "decode_const expected_id (stun_header msg_type (length body) trans_id @ body) =
    (if trans_id \<noteq> expected_id then Inr None
     else rmap Some (decode_message msg_type body (to_be 8 cookie_word @ to_be 8 trans_id)))"
proof -
  have len: "unat (word_of_nat (length body) :: u16) = length body"
    using assms by (rule unat_u16_of_nat)
  show ?thesis
    by (simp add: decode_const_header stun_header_def Let_def len)
qed

lemma stun_header_of_bytes:
  assumes "20 \<le> length msg"
    and "from_be (take 8 (drop 4 msg)) = cookie_word"
    and "length msg = 20 + unat (from_be (take 2 (drop 2 msg)) :: u16)"
  shows "msg = stun_header (from_be (take 2 msg)) (length (drop 20 msg))
                 (from_be (take 8 (drop 12 msg))) @ drop 20 msg"
proof -
  let ?len = "from_be (take 2 (drop 2 msg)) :: u16"
  have "to_be 2 (from_be (take 2 msg) :: u16) = take 2 msg"
    "to_be 2 ?len = take 2 (drop 2 msg)"
    "to_be 8 (from_be (take 8 (drop 12 msg)) :: u64) = take 8 (drop 12 msg)"
    using assms(1) by (simp_all add: be_bytes)
  moreover have "to_be 8 cookie_word = take 8 (drop 4 msg)"
    unfolding assms(2) [symmetric] using assms(1) by (simp add: be_bytes)
  moreover have "word_of_nat (length (drop 20 msg)) = ?len"
    using arg_cong [OF assms(3), of "\<lambda>n. word_of_nat (n - 20) :: u16"] by (simp add: assms(1))
  moreover have "msg = take 2 msg @ take 2 (drop 2 msg) @ take 8 (drop 4 msg) @
      take 8 (drop 12 msg) @ drop 20 msg"
    using split_fields [of 0 msg 2] split_fields [of 2 msg 2] split_fields [of 4 msg 8]
      split_fields [of 12 msg 8]
    by (simp del: append_take_drop_id)
  ultimately show ?thesis
    by (simp only: stun_header_def append_assoc)
qed

lemma decode_accepted:
  "decode_const expected_id msg = Ok (Some r) \<longleftrightarrow>
    (\<exists>body b. length body < 65536 \<and>
       msg = stun_header BINDING_RESPONSE (length body) expected_id @ body \<and>
       read_binding_response (cursor_new body) (to_be 8 cookie_word @ to_be 8 expected_id) = Ok b \<and>
       r = BindResponse b)"
    (is "?lhs \<longleftrightarrow> ?rhs")
proof
  assume ?lhs
  then have len: "20 \<le> length msg"
    by (metis Inl_Inr_False decode_const_short linorder_not_le)
  let ?body = "drop 20 msg" and ?ty = "from_be (take 2 msg) :: u16"
  from \<open>?lhs\<close> have hdr: "from_be (take 8 (drop 12 msg)) = expected_id"
    "from_be (take 8 (drop 4 msg)) = cookie_word"
    "length msg = 20 + unat (from_be (take 2 (drop 2 msg)) :: u16)"
    and body: "decode_message ?ty ?body (to_be 8 cookie_word @ to_be 8 expected_id) = Inr r"
    unfolding decode_const_header [OF len] Let_def
    by (auto simp: result_simps simp del: take_all drop_all split: if_splits)
  have msg: "msg = stun_header ?ty (length ?body) expected_id @ ?body"
    using stun_header_of_bytes [OF len hdr(2,3)] unfolding hdr(1) .
  have small: "length ?body < 65536"
    using hdr(3) unat_u16_bound by (metis add_diff_cancel_left' length_drop)
  from body obtain b where "?ty = BINDING_RESPONSE" "r = BindResponse b"
    "read_binding_response (cursor_new ?body) (to_be 8 cookie_word @ to_be 8 expected_id) = Inr b"
    by (auto simp: decode_message_def result_simps split: if_splits)
  with msg small show ?rhs by metis
next
  assume ?rhs
  then show ?lhs
    by (auto simp: decode_const_of_header decode_message_def)
qed

text \<open>
  \<^bold>\<open>C6\<close>. What \<open>decode_const\<close> accepts, in full: a datagram answers the outstanding request
  exactly when it is the binding-response type, a length field equal to the number of bytes
  that follow, the magic cookie, the transaction id that was sent, and a body that splits
  into well-formed attributes none of which is a request-only or unknown mandatory one. The
  result is the first address of each kind, and a mapped address is required. Nothing
  shorter, longer or for another transaction passes.
\<close>

theorem decode_const_accepts:
  "decode_const expected_id msg = Ok (Some (BindResponse r)) \<longleftrightarrow>
    (\<exists>body attrs. length body < 65536 \<and>
       msg = stun_header BINDING_RESPONSE (length body) expected_id @ body \<and>
       tlv_body (to_be 8 cookie_word @ to_be 8 expected_id) body attrs \<and>
       list_all allowed_in_response attrs \<and>
       mapped_of attrs = Some (mapped_address r) \<and> source_of attrs = source_address r \<and>
       changed_of attrs = changed_address r \<and> reflected_of attrs = reflected_from r)"
proof -
  have "read_binding_response (cursor_new body) xor_key = Inr r \<longleftrightarrow>
      (\<exists>attrs. tlv_body xor_key body attrs \<and> list_all allowed_in_response attrs \<and>
         mapped_of attrs = Some (mapped_address r) \<and> source_of attrs = source_address r \<and>
         changed_of attrs = changed_address r \<and> reflected_of attrs = reflected_from r)"
    if "length body < 65536" for body xor_key
    using that by (intro read_binding_response_grammar) simp
  then show ?thesis
    unfolding decode_accepted by blast
qed

section \<open>Addresses on the wire\<close>

lemma list_of_4: "length xs = 4 \<Longrightarrow> xs = [xs ! 0, xs ! 1, xs ! 2, xs ! 3]"
  by (rule nth_equalityI) (auto simp: less_Suc_eq numeral_eq_Suc)

lemma list_of_2: "length xs = 2 \<Longrightarrow> xs = [xs ! 0, xs ! 1]"
  by (rule nth_equalityI) (auto simp: less_Suc_eq numeral_eq_Suc)

lemma port_bytes: "from_be [(pre @ to_be 2 p @ rest) ! length pre, (pre @ to_be 2 p @ rest) ! Suc (length pre)] = (p :: u16)"
proof -
  have "[to_be 2 p ! 0, to_be 2 p ! 1] = to_be 2 p"
    using list_of_2 [of "to_be 2 p"] by simp
  then show ?thesis
    by (simp add: nth_append)
qed

lemma read_address_v4:
  assumes "length a = 4"
  shows "read_address ([z, 1] @ to_be 2 (p :: u16) @ a) = Inr (SockV4 (from_be a) p)"
proof -
  let ?v = "[z, 1] @ to_be 2 p @ a"
  have port: "from_be [?v ! 2, ?v ! 3] = p"
    using port_bytes [of "[z, 1]" p a] by simp
  have "mapR (index ?v) [4, 5, 6, 7] = Inr (map ((!) ?v) [4, 5, 6, 7])"
    by (rule mapR_Ok) (use assms in auto)
  also have "map ((!) ?v) [4, 5, 6, 7] = a"
    using list_of_4 [OF assms] by (simp add: nth_append)
  finally show ?thesis
    using assms port by (simp add: read_address_def Let_def)
qed

lemma read_address_encode:
  assumes "encode_address s = Inr bs"
  shows "read_address bs = Inr s" and "length bs = 8"
proof -
  from assms obtain ip port where s: "s = SockV4 ip port"
    and bs: "bs = [0, 1] @ to_be 2 port @ to_be 4 ip"
    by (cases s) (auto simp: encode_address_def)
  show "read_address bs = Inr s"
    unfolding bs s by (subst read_address_v4) simp_all
  show "length bs = 8"
    by (simp add: bs)
qed

text \<open>IPv4 addresses are carried by the eight-byte address format.\<close>

interpretation address_codec: fixed_codec
  "\<lambda>s. the (res_ok (encode_address s))" "\<lambda>bs. res_ok (read_address bs)" 8 "\<lambda>s. is_ipv4 (sock_ip s)"
proof
  fix s :: socket_addr
  assume "is_ipv4 (sock_ip s)"
  then obtain bs where "encode_address s = Inr bs"
    by (cases s) (auto simp: encode_address_def)
  then show "length (the (res_ok (encode_address s))) = 8"
    and "res_ok (read_address (the (res_ok (encode_address s)))) = Some s"
    using read_address_encode by simp_all
qed

text \<open>The change-request flags are a strict four-byte format; the absent request has no encoding.\<close>

definition change_request_dec :: "bytes \<Rightarrow> change_request option" where
  "change_request_dec bs =
     (case read_change_request bs of Inr (ChangeRequest c) \<Rightarrow> Some c | _ \<Rightarrow> None)"

lemma encode_change_request_ok:
  "encode_change_request c = Inr (if c = CR_None then [] else to_be 4
     (case c of CR_Ip \<Rightarrow> CHANGE_REQUEST_IP | CR_Port \<Rightarrow> CHANGE_REQUEST_PORT | _ \<Rightarrow> CHANGE_REQUEST_IP_AND_PORT))"
  by (cases c) (simp_all add: encode_change_request_def)

lemma read_change_request_4:
  assumes "length bs = 4"
  shows "read_change_request bs =
    (let v = from_be bs :: u32 in
     if v = CHANGE_REQUEST_IP then Inr (ChangeRequest CR_Ip)
     else if v = CHANGE_REQUEST_PORT then Inr (ChangeRequest CR_Port)
     else if v = CHANGE_REQUEST_IP_AND_PORT then Inr (ChangeRequest CR_IpAndPort)
     else Inl (IoError InvalidData ''CHANGE_REQUEST not understood''))"
  by (subst (1 2) list_of_4 [OF assms]) (simp add: read_change_request_def)

lemma read_change_request_width: "read_change_request bs = Inr a \<Longrightarrow> length bs = 4"
  by (auto simp: read_change_request_def split: list.splits)

interpretation change_request_codec: strict_codec
  "\<lambda>c. the (res_ok (encode_change_request c))" change_request_dec 4 "\<lambda>c. c \<noteq> CR_None"
proof
  fix c :: change_request
  assume "c \<noteq> CR_None"
  then show "length (the (res_ok (encode_change_request c))) = 4"
    and "change_request_dec (the (res_ok (encode_change_request c))) = Some c"
    by (cases c; simp add: encode_change_request_ok change_request_dec_def read_change_request_4
        change_request_values)+
next
  fix bs c
  assume dec: "change_request_dec bs = Some c"
  then have len: "length bs = 4"
    by (auto simp: change_request_dec_def split: sum.splits dest: read_change_request_width)
  from dec show "c \<noteq> CR_None \<and> bs = the (res_ok (encode_change_request c))"
    using be_bytes(2) [OF len]
    by (auto simp: change_request_dec_def read_change_request_4 [OF len] encode_change_request_ok
        Let_def split: if_splits)
qed

text \<open>
  The XOR address format of RFC 5389, which the server writes: port and octets are
  combined with the key made of the magic cookie and the transaction id.
\<close>

definition xor_encode_address :: "bytes \<Rightarrow> ip_addr \<Rightarrow> u16 \<Rightarrow> bytes" where
  "xor_encode_address xor_key ip port =
     (case ip of
        IpV4 a \<Rightarrow> [0, 1] @ to_be 2 (port XOR from_be (take 2 xor_key)) @ map2 (XOR) (to_be 4 a) (take 4 xor_key)
      | IpV6 a \<Rightarrow> [0, 2] @ to_be 2 (port XOR from_be (take 2 xor_key)) @ map2 (XOR) (to_be 16 a) (take 16 xor_key))"

lemma map2_xor_cancel:
  "length xs = length ks \<Longrightarrow> map2 (XOR) (map2 (XOR) xs ks) ks = (xs :: bytes)"
  by (rule nth_equalityI) (auto simp: xor.assoc)

lemma read_xor_address_fields:
  assumes "length key = 16" and "length a = n" and "(fam, n) = (1, 4) \<or> (fam, n) = (2, 16)"
  shows "read_xor_address ([0, fam] @ to_be 2 (p :: u16) @ a) key =
    Inr (sock_new (if fam = 1 then IpV4 (from_be (map2 (XOR) a (take n key)))
                   else IpV6 (from_be (map2 (XOR) a (take n key)))) (p XOR from_be (take 2 key)))"
proof -
  let ?v = "[0, fam] @ to_be 2 p @ a"
  have port: "from_be [?v ! 2, ?v ! 3] = p"
    using port_bytes [of "[0, fam]" p a] by simp
  have key: "[key ! 0, key ! 1] = take 2 key"
    using list_of_2 [of "take 2 key"] assms(1) by simp
  have octets: "xor_octets n ?v key = Inr (map2 (XOR) a (take n key))"
    using assms by (subst xor_octets_ok) auto
  from assms(3) show ?thesis
    using assms(1,2) port key octets by (auto simp: read_xor_address_def Let_def)
qed

text \<open>
  The public address a server reports is recovered exactly: a binding response whose
  only attribute is an XOR-MAPPED-ADDRESS encoded as RFC 5389 prescribes, for IPv4 and for
  IPv6, decodes to that address and port for every transaction id.
\<close>

lemma decode_const_xor_mapped:
  fixes ip :: ip_addr and port :: u16 and id :: u64
  defines "key \<equiv> to_be 8 cookie_word @ to_be 8 id"
  defines "body \<equiv> tlv XOR_MAPPED_ADDRESS (xor_encode_address key ip port) []"
  shows "decode_const id (stun_header BINDING_RESPONSE (length body) id @ body) =
    Ok (Some (BindResponse \<lparr>mapped_address = sock_new ip port, source_address = None,
                            changed_address = None, reflected_from = None\<rparr>))"
proof -
  let ?val = "xor_encode_address key ip port"
  have len: "length key = 16"
    by (simp add: key_def)
  have "read_xor_address ?val key = Inr (sock_new ip port)"
    using len
    by (cases ip) (simp_all add: xor_encode_address_def map2_xor_cancel xor.assoc
        read_xor_address_fields [simplified])
  then have "attribute_of XOR_MAPPED_ADDRESS ?val key = Inr (MappedAddress (sock_new ip port))"
    by (simp add: attribute_of_def)
  moreover have vlen: "length ?val = 8 \<or> length ?val = 20"
    using len by (cases ip) (simp_all add: xor_encode_address_def)
  ultimately have "tlv_body key body [MappedAddress (sock_new ip port)]"
    using tlv_Cons [of ?val "[]" XOR_MAPPED_ADDRESS key _ "[]" "[]"]
    by (auto simp: body_def tlv_Nil padding_def)
  moreover have "length body < 65536"
    using vlen by (auto simp: body_def tlv_def)
  ultimately show ?thesis
    using read_attributes_complete [of key body _ "[]" partial_empty]
    by (simp add: decode_const_of_header decode_message_def read_binding_response_def key_def
        cursor_new_def note_attribute_def partial_empty_def get_or_insert_def)
qed

section \<open>Encoding requests\<close>

lemma attribute_encode_eq:
  "attribute_encode a buf = Inr out \<longleftrightarrow>
     (\<exists>ty val. attribute_opaque a = Inr (ty, val) \<and> length val < 65536 \<and> out = buf @ tlv ty val [])"
  by (auto simp: attribute_encode_def result_simps u16_try_from_def tlv_def split: if_splits)

text \<open>The attributes that \<open>Attribute::read\<close> knows and the fixed-size hash of the array type.\<close>

definition readable_attribute :: "attribute \<Rightarrow> bool" where
  "readable_attribute a =
     (case a of Username _ \<Rightarrow> False | ChangeRequest c \<Rightarrow> c \<noteq> CR_None
      | MessageIntegrity h \<Rightarrow> length h = 20 | UnknownOptional \<Rightarrow> False | _ \<Rightarrow> True)"

lemma attribute_of_opaque:
  assumes "attribute_opaque a = Inr (ty, val)" and "readable_attribute a"
  shows "attribute_of ty val xor_key = Inr a" and "length val mod 4 = 0"
proof -
  have "attribute_of ty val xor_key = Inr a \<and> length val mod 4 = 0"
  proof (cases a)
    case (ChangeRequest c)
    with assms have "ty = CHANGE_REQUEST" and "c \<noteq> CR_None"
      and val: "val = the (res_ok (encode_change_request c))"
      by (auto simp: attribute_opaque_def readable_attribute_def encode_change_request_ok)
    moreover have "read_change_request val = Inr (ChangeRequest c)"
      using change_request_codec.dec_enc [OF \<open>c \<noteq> CR_None\<close>]
      by (auto simp: val change_request_dec_def split: sum.splits attribute.splits)
    ultimately show ?thesis
      using change_request_codec.enc_width [OF \<open>c \<noteq> CR_None\<close>]
      by (simp add: ChangeRequest attribute_of_def attribute_types)
  qed (use assms in \<open>auto simp: attribute_opaque_def readable_attribute_def result_simps
      attribute_of_def attribute_types read_address_encode\<close>)
  then show "attribute_of ty val xor_key = Inr a" and "length val mod 4 = 0"
    by simp_all
qed

lemma padding_aligned: "n mod 4 = 0 \<Longrightarrow> padding n = 0"
  by (auto simp: padding_def elim!: dvdE)


text \<open>The request body as the grammar has it: one aligned attribute per field that is set.\<close>

definition request_body :: "bind_request \<Rightarrow> bytes" where
  "request_body req =
     (case response_address req of
        Some (SockV4 ip port) \<Rightarrow> tlv RESPONSE_ADDRESS ([0, 1] @ to_be 2 port @ to_be 4 ip) []
      | _ \<Rightarrow> []) @
     (if bind_change_request req = CR_None then []
      else tlv CHANGE_REQUEST (the (res_ok (encode_change_request (bind_change_request req)))) []) @
     (case username req of Some u \<Rightarrow> tlv USERNAME (pad_username u) [] | None \<Rightarrow> [])"

definition encodable :: "bind_request \<Rightarrow> bool" where
  "encodable req \<longleftrightarrow>
     (case response_address req of Some a \<Rightarrow> is_ipv4 (sock_ip a) | None \<Rightarrow> True) \<and>
     (case username req of Some u \<Rightarrow> length (pad_username u) < 65536 | None \<Rightarrow> True)"

lemma attribute_encode_ResponseAddress:
  "attribute_encode (ResponseAddress a) buf =
     (case a of
        SockV4 ip port \<Rightarrow> Inr (buf @ tlv RESPONSE_ADDRESS ([0, 1] @ to_be 2 port @ to_be 4 ip) [])
      | _ \<Rightarrow> Inl (IoError InvalidInput ''STUN does not support IPv6''))"
  by (cases a) (simp_all add: attribute_encode_def attribute_opaque_def encode_address_def
      u16_try_from_def tlv_def)

lemma attribute_encode_ChangeRequest:
  "c \<noteq> CR_None \<Longrightarrow> attribute_encode (ChangeRequest c) buf =
     Inr (buf @ tlv CHANGE_REQUEST (the (res_ok (encode_change_request c))) [])"
  by (simp add: attribute_encode_def attribute_opaque_def encode_change_request_ok
      u16_try_from_def tlv_def)

lemma attribute_encode_Username:
  "attribute_encode (Username u) buf =
     (if length (pad_username u) < 65536 then Inr (buf @ tlv USERNAME (pad_username u) [])
      else Inl (IoError InvalidInput ''STUN attribute is too large''))"
  by (simp add: attribute_encode_def attribute_opaque_def u16_try_from_def tlv_def)

lemma bind_request_encode_eq:
  "bind_request_encode req = Inr body \<longleftrightarrow> encodable req \<and> body = request_body req"
  by (auto simp: bind_request_encode_def request_body_def encodable_def
      attribute_encode_ResponseAddress attribute_encode_ChangeRequest attribute_encode_Username
      split: option.splits socket_addr.splits)

text \<open>
  \<open>StunCodec::encode\<close> succeeds exactly on binding requests without an IPv6 response
  address whose padded username and whole body fit their 16-bit length fields, and then
  appends the 20-byte header (type, length of the body, magic cookie, the caller's
  transaction id) and the attributes of the fields that are set, in order.
\<close>

lemma stun_encode_layout:
  "stun_encode (trans_id, req) buf = Ok out \<longleftrightarrow>
    (\<exists>bind. req = Bind bind \<and> encodable bind \<and> length (request_body bind) < 65536 \<and>
       out = buf @ stun_header BINDING_REQUEST (length (request_body bind)) trans_id
                 @ request_body bind)"
proof (cases req)
  case (Bind bind)
  then show ?thesis
    by (auto simp: stun_encode_def result_simps bind_request_encode_eq u16_try_from_def
        stun_header_def split: if_splits)
next
  case SharedSecret
  then show ?thesis by (simp add: stun_encode_def)
qed

lemma stun_encode_default:
  "stun_encode (trans_id, Bind bind_request_default) [] = Inr (stun_header BINDING_REQUEST 0 trans_id)"
proof -
  have "bind_request_encode bind_request_default = Inr []"
    by (simp add: bind_request_encode_def bind_request_default_def)
  then show ?thesis
    by (simp add: stun_encode_def u16_try_from_def stun_header_def)
qed


end
