(* ===== verification/Stun.thy ===== *)
theory Stun
  imports Stun_Codec Utils
begin

text \<open>
  The STUN client of \<open>src/stun/mod.rs\<close>: one request, then a receive loop with a three-second
  budget that skips datagrams from other sources and for other transactions. The datagrams
  that reach the STUN queue carry their arrival instants; \<open>tokio::time::timeout(dur, recv())\<close>
  yields the next datagram if it arrives within \<open>dur\<close> (one that is already queued is
  yielded even when \<open>dur\<close> is zero), else it times out.
\<close>

section \<open>Whose answer counts\<close>

definition stun_normalize_source :: "socket_addr \<Rightarrow> socket_addr" where
  "stun_normalize_source source =
     (case source of
        SockV4 _ _ \<Rightarrow> source
      | SockV6 ip port _ _ \<Rightarrow>
          (case to_ipv4_mapped ip of None \<Rightarrow> source | Some ipv4 \<Rightarrow> sock_new (IpV4 ipv4) port))"

definition is_expected_stun_source :: "socket_addr \<Rightarrow> socket_addr \<Rightarrow> bool" where
  "is_expected_stun_source source stun_server \<longleftrightarrow> stun_normalize_source source = stun_server"

section \<open>The request loop\<close>

type_synonym arrivals = "(instant \<times> datagram) list"

definition stun_timeout :: error where
  "stun_timeout = Anyhow ''Failed to get stun response''"

text \<open>
  The loop of \<open>send_request\<close>: the result, the instant at which it is known and the datagrams
  left in the queue. \<open>rx_end\<close> is the instant at which the sending half is dropped, if it is.
\<close>

fun stun_wait ::
    "u64 \<Rightarrow> socket_addr \<Rightarrow> instant \<Rightarrow> instant \<Rightarrow> arrivals \<Rightarrow> instant option \<Rightarrow>
     (response, error) result \<times> instant \<times> arrivals" where
  "stun_wait tid stun_server start now [] rx_end =
     (let dur = from_secs 3 - duration_since now start in
      (case rx_end of
         Some t \<Rightarrow> (Err stun_timeout, min (max now t) (now + dur), [])
       | None \<Rightarrow> (Err stun_timeout, now + dur, [])))"
| "stun_wait tid stun_server start now ((t, buf, source) # rest) rx_end =
     (let dur = from_secs 3 - duration_since now start in
      if now + dur < t then (Err stun_timeout, now + dur, (t, buf, source) # rest)
      else if \<not> is_expected_stun_source source stun_server then
        stun_wait tid stun_server start (max now t) rest rx_end
      else
        (case decode_const tid buf of
           Inl e \<Rightarrow> (Err e, max now t, rest)
         | Inr (Some response) \<Rightarrow> (Ok response, max now t, rest)
         | Inr None \<Rightarrow> stun_wait tid stun_server start (max now t) rest rx_end))"

record 'a stun_result =
  sr_value :: "('a, error) result"
  sr_time :: instant
  sr_sender :: "datagram channel"
  sr_left :: arrivals

text \<open>\<open>tid\<close> is the random transaction id, \<open>now\<close> the instant of the call.\<close>

definition send_request ::
    "u64 \<Rightarrow> datagram channel \<Rightarrow> arrivals \<Rightarrow> instant option \<Rightarrow> socket_addr \<Rightarrow> instant \<Rightarrow> request \<Rightarrow>
     response stun_result" where
  "send_request tid to_inet_tx from_inet_rx rx_end stun_server now req =
     (let failed = (\<lambda>e. \<lparr>sr_value = Err e, sr_time = now, sr_sender = to_inet_tx, sr_left = from_inet_rx\<rparr>) in
      (case stun_encode (tid, req) [] of
         Inl e \<Rightarrow> failed e
       | Inr buf \<Rightarrow>
           (case try_send to_inet_tx (buf, stun_server) of
              Inl e \<Rightarrow> failed e
            | Inr (_, False) \<Rightarrow>
                failed (Anyhow ''STUN request dropped because the UDP send queue is full'')
            | Inr (tx, True) \<Rightarrow>
                (let (v, t, rest) = stun_wait tid stun_server now now from_inet_rx rx_end
                 in \<lparr>sr_value = v, sr_time = t, sr_sender = tx, sr_left = rest\<rparr>))))"

definition stun_lookup_public_address ::
    "u64 \<Rightarrow> datagram channel \<Rightarrow> arrivals \<Rightarrow> instant option \<Rightarrow> socket_addr \<Rightarrow> instant \<Rightarrow>
     socket_addr stun_result" where
  "stun_lookup_public_address tid to_inet_tx from_inet_rx rx_end stun_server now =
     (let r = send_request tid to_inet_tx from_inet_rx rx_end stun_server now (Bind bind_request_default)
      in \<lparr>sr_value = rmap (\<lambda>resp. case resp of BindResponse b \<Rightarrow> mapped_address b) (sr_value r),
          sr_time = sr_time r, sr_sender = sr_sender r, sr_left = sr_left r\<rparr>)"

section \<open>Facts\<close>

lemma stun_normalize_idem [simp]:
  "stun_normalize_source (stun_normalize_source s) = stun_normalize_source s"
  by (auto simp: stun_normalize_source_def split: socket_addr.split option.split)

lemma expected_source_iff:
  "is_expected_stun_source source (SockV4 ip port) \<longleftrightarrow>
     source = SockV4 ip port \<or> (\<exists>flow scope. source = SockV6 (ipv4_mapped ip) port flow scope)"
  by (cases source)
    (auto simp: is_expected_stun_source_def stun_normalize_source_def to_ipv4_mapped_Some
      to_ipv4_mapped_inverse split: option.splits)

text \<open>Inside the budget, the deadline of every wait is the same instant.\<close>

lemma wait_deadline:
  "start \<le> now \<Longrightarrow> now \<le> start + from_secs 3 \<Longrightarrow>
     now + (from_secs 3 - duration_since now start) = start + from_secs 3"
  by (simp add: duration_since_def)

text \<open>A datagram is answered if it comes from the server and does not belong to another transaction.\<close>

definition relevant :: "u64 \<Rightarrow> socket_addr \<Rightarrow> instant \<times> datagram \<Rightarrow> bool" where
  "relevant tid stun_server d \<longleftrightarrow>
     is_expected_stun_source (snd (snd d)) stun_server \<and> decode_const tid (fst (snd d)) \<noteq> Inr None"

lemma stun_wait_time:
  "start \<le> now \<Longrightarrow> now \<le> start + from_secs 3 \<Longrightarrow>
     now \<le> fst (snd (stun_wait tid stun_server start now arr rx_end)) \<and>
     fst (snd (stun_wait tid stun_server start now arr rx_end)) \<le> start + from_secs 3"
proof (induction tid stun_server start now arr rx_end rule: stun_wait.induct)
  case (1 tid stun_server start now rx_end)
  then show ?case
    by (auto simp: Let_def wait_deadline split: option.split)
next
  case (2 tid stun_server start now t buf source rest rx_end)
  note bound = wait_deadline [OF "2.prems"]
  show ?case
  proof (cases "start + from_secs 3 < t")
    case True
    with "2.prems" bound show ?thesis by (simp add: Let_def)
  next
    case False
    let ?m = "max now t"
    have m: "start \<le> ?m" "?m \<le> start + from_secs 3" "now \<le> ?m"
      using False "2.prems" by auto
    note IH = "2.IH"(1) [OF refl _ _ m(1,2)] "2.IH"(2) [OF refl _ _ _ _ m(1,2)]
    show ?thesis
      using False m IH
      by (auto simp: Let_def bound split: sum.split option.split intro: order_trans)
  qed
qed

text \<open>The reference: the address that the first relevant datagram before the deadline reports.\<close>

definition server_answer :: "u64 \<Rightarrow> socket_addr \<Rightarrow> instant \<Rightarrow> arrivals \<Rightarrow> (socket_addr, error) result" where
  "server_answer tid stun_server deadline arr =
     (case find (relevant tid stun_server) (filter (\<lambda>d. fst d \<le> deadline) arr) of
        None \<Rightarrow> Err stun_timeout
      | Some d \<Rightarrow>
          (case decode_const tid (fst (snd d)) of
             Inl e \<Rightarrow> Err e
           | Inr (Some (BindResponse b)) \<Rightarrow> Ok (mapped_address b)
           | Inr None \<Rightarrow> Err stun_timeout))"

text \<open>
  The wait, said in one line: the answer is what the first relevant datagram within the
  budget decodes to.
\<close>

lemma stun_wait_find:
  "start \<le> now \<Longrightarrow> now \<le> start + from_secs 3 \<Longrightarrow> sorted (map fst arr) \<Longrightarrow>
   fst (stun_wait tid stun_server start now arr rx_end) =
     (case find (relevant tid stun_server) (filter (\<lambda>d. fst d \<le> start + from_secs 3) arr) of
        None \<Rightarrow> Err stun_timeout
      | Some d \<Rightarrow> (case decode_const tid (fst (snd d)) of
                    Inl e \<Rightarrow> Err e | Inr (Some r) \<Rightarrow> Ok r | Inr None \<Rightarrow> Err stun_timeout))"
proof (induction tid stun_server start now arr rx_end rule: stun_wait.induct)
  case (1 tid stun_server start now rx_end)
  then show ?case
    by (simp add: Let_def split: option.split)
next
  case (2 tid stun_server start now t buf source rest rx_end)
  note bound = wait_deadline [OF "2.prems"(1,2)]
  show ?case
  proof (cases "start + from_secs 3 < t")
    case True
    with "2.prems"(3) have "filter (\<lambda>d. fst d \<le> start + from_secs 3) ((t, buf, source) # rest) = []"
      by (auto simp: filter_empty_conv)
    with True bound show ?thesis
      by (simp add: Let_def del: filter.simps)
  next
    case False
    let ?m = "max now t"
    have m: "start \<le> ?m" "?m \<le> start + from_secs 3" and srt: "sorted (map fst rest)"
      using False "2.prems" by auto
    note IH = "2.IH"(1) [OF refl _ _ m srt] "2.IH"(2) [OF refl _ _ _ _ m srt]
    show ?thesis
      using False IH by (auto simp: Let_def bound relevant_def split: sum.splits option.splits)
  qed
qed

lemma send_request_value:
  "sr_value (send_request tid tx arr rx_end stun_server now (Bind bind_request_default)) =
     (case try_send tx (stun_header BINDING_REQUEST 0 tid, stun_server) of
        Inl e \<Rightarrow> Err e
      | Inr (_, False) \<Rightarrow> Err (Anyhow ''STUN request dropped because the UDP send queue is full'')
      | Inr (_, True) \<Rightarrow> fst (stun_wait tid stun_server now now arr rx_end))"
  by (simp add: send_request_def stun_encode_default Let_def split: sum.split prod.split bool.split)

text \<open>
  \<^bold>\<open>C19\<close>. A STUN lookup is over within three seconds of the call: whatever arrives, from
  whomever and however often, the result is known at most three seconds later. (The
  receive loop returns because every iteration consumes a datagram or ends it.)
\<close>

theorem stun_lookup_deadline:
  "sr_time (stun_lookup_public_address tid tx arr rx_end stun_server now) \<le> now + from_secs 3"
  using stun_wait_time [of now now tid stun_server arr rx_end]
  by (auto simp: stun_lookup_public_address_def send_request_def stun_encode_default Let_def
      split: sum.split prod.split bool.split)

text \<open>
  \<^bold>\<open>C18\<close>. A lookup is its one-line reference: with the datagrams in order of arrival, it fails
  without waiting when the request cannot be queued, and otherwise the request is in the send
  queue and the outcome (address, decoding error or timeout) is what the first relevant datagram
  within three seconds of the call decodes to, whenever the receiving queue closes.
\<close>

theorem stun_lookup_exact:
  assumes "sorted (map fst arr)"
  shows "let r = stun_lookup_public_address tid tx arr rx_end stun_server now;
             request = (stun_header BINDING_REQUEST 0 tid, stun_server) in
    if ch_closed tx then sr_value r = Err (Anyhow ''UDP task stopped'') \<and> sr_sender r = tx \<and> sr_left r = arr
    else if length (ch_items tx) < ch_capacity tx
    then sr_value r = server_answer tid stun_server (now + from_secs 3) arr \<and>
         sr_sender r = tx\<lparr>ch_items := ch_items tx @ [request]\<rparr>
    else sr_value r = Err (Anyhow ''STUN request dropped because the UDP send queue is full'') \<and>
         sr_sender r = tx \<and> sr_left r = arr"
  using stun_wait_find [of now now arr tid stun_server rx_end] assms
  by (auto simp: stun_lookup_public_address_def send_request_def stun_encode_default try_send_eq Let_def
      server_answer_def split: option.splits sum.splits prod.splits response.splits)

text \<open>
  Datagrams from other sources cannot influence a lookup: the outcome is the one obtained when
  everything not sent from the configured server's address and port is removed.
\<close>

lemma stun_lookup_off_path:
  assumes "sorted (map fst arr)"
  shows "sr_value (stun_lookup_public_address tid tx arr rx_end stun_server now) =
    sr_value (stun_lookup_public_address tid tx
      (filter (\<lambda>d. is_expected_stun_source (snd (snd d)) stun_server) arr) rx_end stun_server now)"
proof -
  let ?from_server = "\<lambda>d. is_expected_stun_source (snd (snd d)) stun_server"
    and ?in_time = "\<lambda>d. fst d \<le> now + from_secs 3"
  have "find (relevant tid stun_server) (filter ?in_time (filter ?from_server arr)) =
      find (relevant tid stun_server) (filter ?from_server (filter ?in_time arr))"
    by (simp add: conj_commute)
  also have "\<dots> = find (relevant tid stun_server) (filter ?in_time arr)"
    by (rule find_filter_relevant) (simp add: relevant_def)
  finally have "fst (stun_wait tid stun_server now now (filter ?from_server arr) rx_end)
      = fst (stun_wait tid stun_server now now arr rx_end)"
    using assms by (simp add: stun_wait_find sorted_map_same sorted_filter)
  then show ?thesis
    by (simp add: stun_lookup_public_address_def send_request_value Let_def
        split: sum.split prod.split bool.split)
qed

text \<open>
  \<^bold>\<open>C11\<close>. Every address a lookup returns was reported by the configured server in answer to
  this very request: some datagram from the server's address arrived within the budget,
  was byte for byte a binding response to the transaction id that was sent, and carried the
  address as its mapped address.
\<close>

theorem stun_lookup_authentic:
  assumes "sorted (map fst arr)"
    and "sr_value (stun_lookup_public_address tid tx arr rx_end stun_server now) = Ok addr"
  shows "\<exists>t body source b.
    (t, stun_header BINDING_RESPONSE (length body) tid @ body, source) \<in> set arr \<and>
    t \<le> now + from_secs 3 \<and> is_expected_stun_source source stun_server \<and>
    read_binding_response (cursor_new body) (to_be 8 cookie_word @ to_be 8 tid) = Ok b \<and>
    addr = mapped_address b"
proof -
  let ?arr = "filter (\<lambda>d. fst d \<le> now + from_secs 3) arr"
  from assms(2) obtain b where "fst (stun_wait tid stun_server now now arr rx_end) = Inr (BindResponse b)"
    and b: "addr = mapped_address b"
    by (auto simp: stun_lookup_public_address_def send_request_value Let_def result_simps
        split: sum.splits prod.splits bool.splits) (metis response.exhaust response.case)
  then obtain t buf source where hit: "find (relevant tid stun_server) ?arr = Some (t, buf, source)"
    and dec: "decode_const tid buf = Inr (Some (BindResponse b))"
    using assms(1) by (auto simp: stun_wait_find split: option.splits sum.splits)
  from hit have "(t, buf, source) \<in> set ?arr" and "is_expected_stun_source source stun_server"
    by (auto simp: relevant_def dest!: find_SomeD)
  then show ?thesis
    using dec b by (auto simp: decode_accepted)
qed

text \<open>A concrete exchange: a spoofed datagram first, then the server's answer for 192.0.2.1:8080.\<close>

definition sample_answer :: bytes where
  "sample_answer = [1, 1, 0, 12, 0x21, 0x12, 0xA4, 0x42, 0, 0, 0, 0, 0, 0, 0, 0, 0, 0, 0, 5,
     0, 0x20, 0, 8, 0, 1, 0x3E, 0x82, 0xE1, 0x12, 0xA6, 0x43]"

definition sample_arrivals :: arrivals where
  "sample_arrivals = [(10, [0], SockV4 66 6), (20, sample_answer, SockV6 (ipv4_mapped 1) 3478 0 0)]"

lemma sample_decodes:
  "decode_const 5 sample_answer = Inr (Some (BindResponse
     \<lparr>mapped_address = SockV4 0xC0000201 8080, source_address = None, changed_address = None, reflected_from = None\<rparr>))"
  by code_simp

lemma sample_lookup:
  "sr_value (stun_lookup_public_address 5 (channel_new 1) sample_arrivals None (SockV4 1 3478) 0) =
     Ok (SockV4 0xC0000201 8080)"
  by (simp add: stun_lookup_public_address_def send_request_value channel_new_def try_send_eq sample_arrivals_def
      Let_def from_secs_def duration_since_def expected_source_iff sample_decodes)

theorem stun_lookup_exact_witness:
  "server_answer 5 (SockV4 1 3478) (0 + from_secs 3) sample_arrivals = Ok (SockV4 0xC0000201 8080)"
  using stun_lookup_exact [of sample_arrivals 5 "channel_new 1" None "SockV4 1 3478" 0] sample_lookup
  by (simp add: sample_arrivals_def channel_new_def Let_def)

theorem stun_lookup_authentic_witness:
  "\<exists>t body source b.
    (t, stun_header BINDING_RESPONSE (length body) 5 @ body, source) \<in> set sample_arrivals \<and>
    t \<le> 0 + from_secs 3 \<and> is_expected_stun_source source (SockV4 1 3478) \<and>
    read_binding_response (cursor_new body) (to_be 8 cookie_word @ to_be 8 (5 :: u64)) = Ok b \<and>
    SockV4 0xC0000201 8080 = mapped_address b"
  using stun_lookup_authentic [OF _ sample_lookup] by (simp add: sample_arrivals_def)

end
