(* ===== verification/Crypto.thy ===== *)
theory Crypto
  imports Text
begin

text \<open>
  \<open>src/crypto.rs\<close>: keys and the encrypted envelope of DHT records. The \<open>crypto_box\<close> and
  \<open>base64\<close> crates are parameters: \<open>seal\<close> and \<open>unseal\<close> are \<open>SalsaBox\<close> encryption and decryption
  for a public key, a secret key and a nonce, \<open>derive\<close> maps a secret key to its public key,
  \<open>b64_encode\<close> and \<open>b64_decode\<close> are the standard engine.
\<close>

section \<open>Keys\<close>

definition NONCE_BYTES :: nat where "NONCE_BYTES = 24"

datatype public_key = PublicKey (public_key_as_bytes: bytes)
datatype secret_key = SecretKey (secret_key_to_bytes: bytes)

type_synonym b64_encoder = "bytes \<Rightarrow> string"
type_synonym b64_decoder = "string \<Rightarrow> (bytes, string) result"
type_synonym box_fun = "bytes \<Rightarrow> bytes \<Rightarrow> bytes \<Rightarrow> bytes \<Rightarrow> bytes option"

definition decode_base64_key :: "b64_decoder \<Rightarrow> string \<Rightarrow> (bytes, error) result" where
  "decode_base64_key b64_decode value =
     (case b64_decode value of
        Inl e \<Rightarrow> Err (Anyhow (''Base64 decode error: '' @ e))
      | Inr raw \<Rightarrow>
          if length raw = 32 then Ok raw
          else Err (Anyhow (''Invalid length: expected 32, got '' @ show_nat (length raw))))"

definition public_key_try_from :: "b64_decoder \<Rightarrow> string \<Rightarrow> (public_key, error) result" where
  "public_key_try_from b64_decode value = rbind (decode_base64_key b64_decode value) (\<lambda>k. Ok (PublicKey k))"

definition secret_key_try_from :: "b64_decoder \<Rightarrow> string \<Rightarrow> (secret_key, error) result" where
  "secret_key_try_from b64_decode value = rbind (decode_base64_key b64_decode value) (\<lambda>k. Ok (SecretKey k))"

definition public_key_display :: "b64_encoder \<Rightarrow> public_key \<Rightarrow> string" where
  "public_key_display b64_encode k = b64_encode (public_key_as_bytes k)"

definition public_key_of :: "(bytes \<Rightarrow> bytes) \<Rightarrow> secret_key \<Rightarrow> public_key" where
  "public_key_of derive k = PublicKey (derive (secret_key_to_bytes k))"

text \<open>\<open>generate_secret_key_base64\<close>, with the 32 random bytes as an argument.\<close>

definition generate_secret_key_base64 ::
    "b64_encoder \<Rightarrow> (bytes \<Rightarrow> bytes) \<Rightarrow> bytes \<Rightarrow> secret_key \<times> string \<times> public_key" where
  "generate_secret_key_base64 b64_encode derive random =
     (let secret_key = SecretKey random
      in (secret_key, b64_encode (secret_key_to_bytes secret_key), public_key_of derive secret_key))"

section \<open>The envelope\<close>

record crypto_box =
  their_public_key :: public_key
  our_secret_key :: secret_key

definition crypto_box_new :: "public_key \<Rightarrow> secret_key \<Rightarrow> crypto_box" where
  "crypto_box_new theirs ours = \<lparr>their_public_key = theirs, our_secret_key = ours\<rparr>"

definition encrypt_with_nonce :: "box_fun \<Rightarrow> crypto_box \<Rightarrow> bytes \<Rightarrow> bytes \<Rightarrow> (bytes, error) result" where
  "encrypt_with_nonce seal cb plaintext nonce =
     rbind (ok_or (seal (public_key_as_bytes (their_public_key cb)) (secret_key_to_bytes (our_secret_key cb))
                     nonce plaintext) (Anyhow ''crypto_box encryption failed'')) (\<lambda>ciphertext.
     Ok (nonce @ ciphertext))"

definition encrypt :: "box_fun \<Rightarrow> bytes \<Rightarrow> crypto_box \<Rightarrow> bytes \<Rightarrow> (bytes, error) result" where
  "encrypt seal random_nonce cb plaintext = encrypt_with_nonce seal cb plaintext random_nonce"

definition decrypt :: "box_fun \<Rightarrow> crypto_box \<Rightarrow> bytes \<Rightarrow> bytes option" where
  "decrypt unseal cb encrypted_value =
     (if length encrypted_value < NONCE_BYTES then None
      else unseal (public_key_as_bytes (their_public_key cb)) (secret_key_to_bytes (our_secret_key cb))
             (take NONCE_BYTES encrypted_value) (drop NONCE_BYTES encrypted_value))"

section \<open>What the crates promise\<close>

text \<open>
  \<open>crypto_box\<close> documents that both ends of a key agreement open what the other sealed, and
  that a box opens only when it is the authenticated ciphertext of its plaintext.
\<close>

definition box_agreement :: "(bytes \<Rightarrow> bytes) \<Rightarrow> box_fun \<Rightarrow> box_fun \<Rightarrow> bool" where
  "box_agreement derive seal unseal \<longleftrightarrow>
     (\<forall>a b nonce p c. seal (derive b) a nonce p = Some c \<longrightarrow> unseal (derive a) b nonce c = Some p)"

definition box_authentic :: "(bytes \<Rightarrow> bytes) \<Rightarrow> box_fun \<Rightarrow> box_fun \<Rightarrow> bool" where
  "box_authentic derive seal unseal \<longleftrightarrow>
     (\<forall>a b nonce p c. unseal (derive a) b nonce c = Some p \<longrightarrow> seal (derive b) a nonce p = Some c)"

definition b64_inverse :: "b64_encoder \<Rightarrow> b64_decoder \<Rightarrow> bool" where
  "b64_inverse b64_encode b64_decode \<longleftrightarrow> (\<forall>bs. b64_decode (b64_encode bs) = Ok bs)"

section \<open>Facts\<close>

lemma encrypt_with_nonce_Ok:
  "encrypt_with_nonce seal cb p nonce = Ok v \<longleftrightarrow>
     (\<exists>c. seal (public_key_as_bytes (their_public_key cb)) (secret_key_to_bytes (our_secret_key cb)) nonce p = Some c
        \<and> v = nonce @ c)"
  by (auto simp: encrypt_with_nonce_def result_simps)

lemma decrypt_Some:
  "decrypt unseal cb v = Some p \<longleftrightarrow>
     (\<exists>nonce c. v = nonce @ c \<and> length nonce = 24 \<and>
        unseal (public_key_as_bytes (their_public_key cb)) (secret_key_to_bytes (our_secret_key cb)) nonce c = Some p)"
proof
  assume "decrypt unseal cb v = Some p"
  then show "\<exists>nonce c. v = nonce @ c \<and> length nonce = 24 \<and>
      unseal (public_key_as_bytes (their_public_key cb)) (secret_key_to_bytes (our_secret_key cb)) nonce c = Some p"
    by (intro exI [of _ "take 24 v"] exI [of _ "drop 24 v"])
      (simp add: decrypt_def NONCE_BYTES_def split: if_splits)
qed (auto simp: decrypt_def NONCE_BYTES_def)

lemma decode_base64_key_Ok:
  "decode_base64_key b64_decode s = Ok k \<longleftrightarrow> b64_decode s = Ok k \<and> length k = 32"
  by (auto simp: decode_base64_key_def split: sum.splits)

text \<open>
  \<^bold>\<open>C29\<close>. The envelope between two peers is exact: with the key agreement and the authenticity
  that \<open>crypto_box\<close> provides, a DHT value decrypts at one end to a plaintext if and only if it
  is a 24-byte nonce followed by the box the other end's encryption makes of that plaintext
  under that nonce. Shorter values, and values sealed under other keys, yield nothing.
\<close>

theorem envelope_exact:
  assumes "box_agreement derive seal unseal" and "box_authentic derive seal unseal"
  shows "decrypt unseal (crypto_box_new (public_key_of derive a) b) v = Some p \<longleftrightarrow>
    (\<exists>nonce. length nonce = 24 \<and>
       encrypt_with_nonce seal (crypto_box_new (public_key_of derive b) a) p nonce = Ok v)"
proof -
  have "unseal (derive a') b' nonce c = Some p \<longleftrightarrow> seal (derive b') a' nonce p = Some c" for a' b' nonce c
    using assms unfolding box_agreement_def box_authentic_def by blast
  then show ?thesis
    by (auto simp: decrypt_Some encrypt_with_nonce_Ok crypto_box_new_def public_key_of_def)
qed

text \<open>A box for examples: the tag is the exclusive or of the first bytes of the two keys.\<close>

definition sample_tag :: "bytes \<Rightarrow> bytes \<Rightarrow> u8" where
  "sample_tag a b = hd (a @ [0]) XOR hd (b @ [0])"

definition sample_seal :: box_fun where
  "sample_seal pub sec nonce p = Some (sample_tag pub sec # p)"

definition sample_unseal :: box_fun where
  "sample_unseal pub sec nonce c =
     (case c of [] \<Rightarrow> None | t # p \<Rightarrow> if t = sample_tag pub sec then Some p else None)"

lemma sample_tag_commute: "sample_tag a b = sample_tag b a"
  by (simp add: sample_tag_def xor.commute)

lemma sample_box:
  "box_agreement (\<lambda>k. k) sample_seal sample_unseal" "box_authentic (\<lambda>k. k) sample_seal sample_unseal"
  using sample_tag_commute
  by (auto simp: box_agreement_def box_authentic_def sample_seal_def sample_unseal_def
      split: list.splits if_splits)

text \<open>A text encoding for examples: one character per byte.\<close>

definition sample_b64_encode :: b64_encoder where
  "sample_b64_encode bs = map (\<lambda>b. char_of (unat b)) bs"

definition sample_b64_decode :: b64_decoder where
  "sample_b64_decode s = Ok (map (\<lambda>c. word_of_nat (of_char c)) s)"

lemma sample_b64: "b64_inverse sample_b64_encode sample_b64_decode"
proof -
  have "unat b mod 256 = unat b" for b :: u8
    using unsigned_less [of b, where 'a = nat] by simp
  then show ?thesis
    by (simp add: b64_inverse_def sample_b64_encode_def sample_b64_decode_def comp_def)
qed

theorem envelope_exact_witness:
  "decrypt sample_unseal (crypto_box_new (PublicKey [3]) (SecretKey [5])) (replicate 24 0 @ [6, 42]) = Some [42]"
proof -
  have "encrypt_with_nonce sample_seal (crypto_box_new (PublicKey [5]) (SecretKey [3])) [42] (replicate 24 0)
      = Ok (replicate 24 0 @ [6, 42])"
    by (simp add: encrypt_with_nonce_Ok crypto_box_new_def sample_seal_def sample_tag_def)
  then show ?thesis
    using envelope_exact [OF sample_box, of "SecretKey [3]" "SecretKey [5]" "replicate 24 0 @ [6, 42]" "[42]"]
    by (auto simp: public_key_of_def simp del: replicate.simps)
qed

text \<open>
  Keys survive their text form: a generated key's printed secret loads back as the same
  secret key, whose public key prints to text that loads back as that public key; and
  loading accepts exactly the texts that decode to 32 bytes.
\<close>

lemma key_text_roundtrip:
  assumes "b64_inverse b64_encode b64_decode" and "length random = 32"
    and "\<And>k. length k = 32 \<Longrightarrow> length (derive k) = 32"
  shows "(let (secret, text, public) = generate_secret_key_base64 b64_encode derive random in
    secret_key_try_from b64_decode text = Ok secret \<and>
    public = public_key_of derive secret \<and>
    public_key_try_from b64_decode (public_key_display b64_encode public) = Ok public) \<and>
    (secret_key_try_from b64_decode s = Ok (SecretKey k) \<longleftrightarrow> b64_decode s = Ok k \<and> length k = 32)"
  using assms
  by (auto simp: generate_secret_key_base64_def secret_key_try_from_def public_key_try_from_def
      public_key_display_def public_key_of_def b64_inverse_def decode_base64_key_Ok result_simps)

end
