(* ===== verification/Config.thy ===== *)
theory Config
  imports Text
begin

text \<open>
  \<open>src/config.rs\<close>: the flags, the connection description, and what the program does with them
  after the command line and the YAML files are parsed. The \<open>clap\<close> parser, the \<open>config\<close> crate
  that reads a YAML file (\<open>load\<close>) and the file system (\<open>read_to_string\<close>) are parameters.
\<close>

section \<open>Flags and connections\<close>

record gen_flags =
  gf_path :: "string option"
  gf_pub_path :: "string option"
  gf_insecure_priv :: bool
  gf_override_files :: bool

record stun_flags =
  stun_addr :: string

record dht_flags =
  bootstrap_addr :: string
  opendht_port :: u16

record connection_flags =
  filter_ipv6 :: bool
  no_clear :: bool
  out_port :: u16
  nat_map :: bool

record peer =
  peer_local_port :: u16
  peer_public_key :: string
  peer_name :: "string option"

record p2p_connection =
  conn_secret_key :: string
  conn_peers :: "peer list"

text \<open>A path is its list of components; the last one is the file name.\<close>

type_synonym file_path = "string list"

record run_command =
  rc_stun_flags :: stun_flags
  rc_dht_flags :: dht_flags
  rc_connection_flags :: connection_flags
  rc_tunnels :: "file_path list"
  rc_connections :: "p2p_connection list"

datatype command = Generate gen_flags | StunCommand stun_flags | DhtCommand dht_flags | Run run_command

record cli_config =
  verbose :: bool
  cli_command :: command

section \<open>The outgoing port\<close>

definition int_error_text :: "int_error \<Rightarrow> string" where
  "int_error_text e =
     (case e of
        Empty \<Rightarrow> ''cannot parse integer from empty string''
      | InvalidDigit \<Rightarrow> ''invalid digit found in string''
      | PosOverflow \<Rightarrow> ''number too large to fit in target type'')"

definition parse_out_port :: "string \<Rightarrow> (u16, string) result" where
  "parse_out_port s =
     (case from_str_radix 10 16 s of
        Inl e \<Rightarrow> Err (''invalid UDP port: '' @ int_error_text e)
      | Inr n \<Rightarrow>
          (let port = word_of_nat n :: u16 in
           if port = 0 \<or> port > 1024 then Ok port
           else Err ''must be 0 or an unprivileged UDP port (1025-65535)''))"

section \<open>Loading\<close>

text \<open>
  \<open>Path::extension\<close> and \<open>PathBuf::add_extension\<close>: an empty path and one that ends in \<open>..\<close>
  have no file name and stay as they are.
\<close>

definition file_extension :: "string \<Rightarrow> string option" where
  "file_extension name =
     (let ext = rev (takeWhile (\<lambda>c. c \<noteq> CHR ''.'') (rev name))
      in if name = ''..'' \<or> length name \<le> Suc (length ext) then None else Some ext)"

definition with_yaml_extension :: "file_path \<Rightarrow> file_path" where
  "with_yaml_extension tun =
     (if tun = [] \<or> last tun = ''..'' then tun
      else if file_extension (last tun) \<noteq> Some ''yaml'' then butlast tun @ [last tun @ ''.yaml'']
      else tun)"

definition transform_file_to_string ::
    "(string \<Rightarrow> (string, error) result) \<Rightarrow> string \<Rightarrow> (string, error) result" where
  "transform_file_to_string read_to_string data =
     (case strip_prefix ''file:'' data of
        Some path \<Rightarrow>
          with_context (''Failed to open and read key file, at path '' @ path) (read_to_string path)
      | None \<Rightarrow> Ok data)"

definition load_connection ::
    "(file_path \<Rightarrow> (p2p_connection, error) result) \<Rightarrow> (string \<Rightarrow> (string, error) result) \<Rightarrow> file_path \<Rightarrow>
     (p2p_connection, error) result" where
  "load_connection load read_to_string tun =
     rbind (load (with_yaml_extension tun)) (\<lambda>connection.
     rbind (transform_file_to_string read_to_string (conn_secret_key connection)) (\<lambda>secret.
     rbind (mapR (\<lambda>peer. rmap (\<lambda>k. peer\<lparr>peer_public_key := k\<rparr>)
                     (transform_file_to_string read_to_string (peer_public_key peer)))
              (conn_peers connection)) (\<lambda>peers.
     Ok (connection\<lparr>conn_secret_key := secret, conn_peers := peers\<rparr>))))"

text \<open>\<open>CliConfig::new\<close> after \<open>CliConfig::parse\<close>.\<close>

definition cli_config_new ::
    "(file_path \<Rightarrow> (p2p_connection, error) result) \<Rightarrow> (string \<Rightarrow> (string, error) result) \<Rightarrow> cli_config \<Rightarrow>
     (cli_config, error) result" where
  "cli_config_new load read_to_string cli =
     (case cli_command cli of
        Run rc \<Rightarrow>
          rmap (\<lambda>connections. cli\<lparr>cli_command := Run (rc\<lparr>rc_connections := rc_connections rc @ connections\<rparr>)\<rparr>)
            (mapR (load_connection load read_to_string) (rc_tunnels rc))
      | _ \<Rightarrow> Ok cli)"

text \<open>The \<open>Debug\<close> text of a connection; \<open>peers_debug\<close> is the derived text of its peers.\<close>

definition connection_debug :: "(peer list \<Rightarrow> string) \<Rightarrow> p2p_connection \<Rightarrow> string" where
  "connection_debug peers_debug c =
     ''P2PConnection { secret_key: '' @ [CHR 0x22] @ ''<redacted>'' @ [CHR 0x22] @ '', peers: ''
       @ peers_debug (conn_peers c) @ '' }''"

section \<open>Facts\<close>

lemma show_nat_head: "\<exists>d cs. show_nat n = digit_char d # cs \<and> d < 10"
proof (induction n rule: show_nat.induct)
  case (1 n)
  then show ?case
    by (cases "n < 10") (subst show_nat.simps, force)+
qed

lemma digit_char_sign: "d < 10 \<Longrightarrow> digit_char d \<noteq> CHR ''+'' \<and> digit_char d \<noteq> CHR ''-''"
proof -
  assume "d < 10"
  then have "(of_char (digit_char d) :: nat) = 48 + d" by (rule of_char_digit_char)
  then show ?thesis by auto
qed

lemma from_str_radix_show: "n < 65536 \<Longrightarrow> from_str_radix 10 16 (show_nat n) = Ok n"
proof -
  assume "n < 65536"
  then have parse: "parse_digits 10 16 0 (show_nat n) = Ok n"
    using parse_digits_show [of n 16] by simp
  obtain d cs where shown: "show_nat n = digit_char d # cs" and d: "d < 10"
    using show_nat_head by blast
  then have "digit_char d \<noteq> CHR ''+''" "digit_char d \<noteq> CHR ''-''"
    using digit_char_sign by auto
  with parse shown show ?thesis
    by (cases cs) (simp_all add: from_str_radix_def del: parse_digits.simps)
qed

lemma from_str_radix_bound: "from_str_radix radix bits s = Ok n \<Longrightarrow> n < 2 ^ bits"
  by (auto simp: from_str_radix_def simp del: parse_digits.simps split: list.splits if_splits
      dest: parse_digits_bound)

text \<open>
  The outgoing port is 0 or unprivileged: every accepted text denotes 0 or a port of
  1025 to 65535, the decimal text of each such port is accepted and means that port, and no
  text of a privileged or out-of-range number is.
\<close>

lemma parse_out_port_exact:
  "(parse_out_port s = Ok port \<longrightarrow> port = 0 \<or> 1025 \<le> unat port) \<and>
   (n < 65536 \<longrightarrow> (parse_out_port (show_nat n) = Ok port \<longleftrightarrow>
      (n = 0 \<or> 1025 \<le> n) \<and> port = word_of_nat n)) \<and>
   (from_str_radix 10 16 s = Ok n \<longrightarrow> n < 65536)"
proof (intro conjI impI)
  assume "parse_out_port s = Ok port"
  then show "port = 0 \<or> 1025 \<le> unat port"
    by (auto simp: parse_out_port_def Let_def word_less_nat_alt split: sum.splits if_splits)
next
  assume n: "n < 65536"
  then have "unat (word_of_nat n :: u16) = n" by (rule unat_u16_of_nat)
  then show "parse_out_port (show_nat n) = Ok port \<longleftrightarrow> (n = 0 \<or> 1025 \<le> n) \<and> port = word_of_nat n"
    using n by (auto simp: parse_out_port_def from_str_radix_show Let_def word_less_nat_alt word_unat_eq_iff)
next
  show "from_str_radix 10 16 s = Ok n \<Longrightarrow> n < 65536"
    using from_str_radix_bound by fastforce
qed

section \<open>What a configuration means\<close>

text \<open>A key field is the key itself or \<open>file:\<close> and the path of a file that holds it.\<close>

definition resolves :: "(string \<Rightarrow> (string, error) result) \<Rightarrow> string \<Rightarrow> string \<Rightarrow> bool" where
  "resolves read_to_string field text \<longleftrightarrow>
     (\<exists>path. field = ''file:'' @ path \<and> read_to_string path = Ok text) \<or>
     (\<nexists>path. field = ''file:'' @ path) \<and> text = field"

definition peer_resolves :: "(string \<Rightarrow> (string, error) result) \<Rightarrow> peer \<Rightarrow> peer \<Rightarrow> bool" where
  "peer_resolves read_to_string p p' \<longleftrightarrow> peer_local_port p' = peer_local_port p \<and> peer_name p' = peer_name p \<and>
     resolves read_to_string (peer_public_key p) (peer_public_key p')"

definition connection_resolves :: "(string \<Rightarrow> (string, error) result) \<Rightarrow> p2p_connection \<Rightarrow> p2p_connection \<Rightarrow> bool" where
  "connection_resolves read_to_string c c' \<longleftrightarrow>
     resolves read_to_string (conn_secret_key c) (conn_secret_key c') \<and>
     list_all2 (peer_resolves read_to_string) (conn_peers c) (conn_peers c')"

lemma transform_Ok: "transform_file_to_string read_to_string field = Ok text \<longleftrightarrow> resolves read_to_string field text"
  by (auto simp: transform_file_to_string_def resolves_def strip_prefix_def starts_with_iff)

lemma peer_Ok:
  "rmap (\<lambda>k. p\<lparr>peer_public_key := k\<rparr>) (transform_file_to_string read_to_string (peer_public_key p)) = Ok p' \<longleftrightarrow>
     peer_resolves read_to_string p p'"
  by (cases p; cases p') (auto simp: rmap_eq transform_Ok peer_resolves_def)

lemma load_connection_Ok:
  "load_connection load read_to_string tun = Ok c \<longleftrightarrow>
     (\<exists>raw. load (with_yaml_extension tun) = Ok raw \<and> connection_resolves read_to_string raw c)"
proof -
  have "raw\<lparr>conn_secret_key := k, conn_peers := ps\<rparr> = c \<longleftrightarrow> conn_secret_key c = k \<and> conn_peers c = ps" for raw k ps
    by (cases c; cases raw) auto
  then show ?thesis
    by (auto simp: load_connection_def rbind_eq_Inr mapR_Inr transform_Ok peer_Ok connection_resolves_def)
qed


text \<open>The debug text of a connection does not depend on its secret key.\<close>

lemma debug_redacts_secret:
  "conn_peers c = conn_peers c' \<Longrightarrow> connection_debug peers_debug c = connection_debug peers_debug c'"
  by (simp add: connection_debug_def)

end
