(* ===== verification/Nat_Mapping.thy ===== *)
theory Nat_Mapping
  imports Utils
begin

text \<open>
  \<open>src/nat.rs\<close>: the optional router mapping. The \<open>crab_nat\<close> and \<open>igd_next\<close> crates and the
  probing of the local gateway are arguments: the results of the calls the worker makes. The
  worker thread is the sequence of waits on its shutdown channel and renewal results.
\<close>

section \<open>Constants and types\<close>

definition MAPPING_LIFETIME_SECONDS :: u32 where "MAPPING_LIFETIME_SECONDS = 7200"
definition MAPPING_RENEWAL_MINIMUM :: duration where "MAPPING_RENEWAL_MINIMUM = from_secs 60"
definition GATEWAY_DISCOVERY_TIMEOUT :: duration where "GATEWAY_DISCOVERY_TIMEOUT = from_secs 4"

text \<open>\<open>TimeoutConfig\<close> and \<open>PortMappingOptions\<close> of \<open>crab_nat\<close>, as far as the program fills them in.\<close>

record timeout_config =
  initial_timeout :: duration
  max_retries :: nat
  max_retry_timeout :: "duration option"

definition MAPPING_TIMEOUT :: timeout_config where
  "MAPPING_TIMEOUT = \<lparr>initial_timeout = from_millis 250, max_retries = 2, max_retry_timeout = Some (from_secs 1)\<rparr>"

record mapping_options =
  opt_external_port :: u16
  opt_lifetime_seconds :: u32
  opt_timeout_config :: timeout_config

datatype nat_method = Pcp | NatPmp | UpnpIgd

primrec method_display :: "nat_method \<Rightarrow> string" where
  "method_display Pcp = ''PCP''"
| "method_display NatPmp = ''NAT-PMP''"
| "method_display UpnpIgd = ''UPnP IGD''"

text \<open>\<open>active\<close> is the value of the watch channel, \<open>shutdown\<close> whether the shutdown sender is present.\<close>

record mapping =
  external_addr :: socket_addr
  mapping_method :: nat_method
  mapping_active :: bool
  mapping_shutdown :: bool

definition is_active :: "mapping \<Rightarrow> bool" where
  "is_active m = mapping_active m"

text \<open>\<open>Drop for Mapping\<close>: the signals put on the shutdown channel.\<close>

definition mapping_drop :: "mapping \<Rightarrow> mapping \<times> unit list" where
  "mapping_drop m = (m\<lparr>mapping_shutdown := False\<rparr>, if mapping_shutdown m then [()] else [])"

text \<open>What \<open>crab_nat::PortMapping\<close> reports.\<close>

datatype port_mapping_type = PcpType ip_addr | NatPmpType

record port_mapping =
  pm_type :: port_mapping_type
  pm_external_port :: u16
  pm_lifetime :: u32

section \<open>The gateway\<close>

definition to_le_ipv4 :: "u32 \<Rightarrow> u32" where
  "to_le_ipv4 w = from_be (rev (to_be 4 w))"

definition parse_route_line :: "string \<Rightarrow> u32 option" where
  "parse_route_line line =
     (case split_whitespace line of
        interface # destination # gateway # flag_text # _ \<Rightarrow>
          (case from_str_radix 16 16 flag_text of
             Inl _ \<Rightarrow> None
           | Inr flags \<Rightarrow>
               if destination \<noteq> ''00000000'' \<or> (word_of_nat flags :: u16) AND 0x2 = 0 then None
               else
                 (case from_str_radix 16 32 gateway of
                    Inl _ \<Rightarrow> None
                  | Inr gw \<Rightarrow> Some (to_le_ipv4 (word_of_nat gw))))
      | _ \<Rightarrow> None)"

fun find_map :: "('a \<Rightarrow> 'b option) \<Rightarrow> 'a list \<Rightarrow> 'b option" where
  "find_map f [] = None"
| "find_map f (x # xs) = (case f x of None \<Rightarrow> find_map f xs | Some y \<Rightarrow> Some y)"

definition parse_default_ipv4_gateway :: "string \<Rightarrow> u32 option" where
  "parse_default_ipv4_gateway route_table = find_map parse_route_line (drop 1 (split_lines route_table))"

text \<open>
  What \<open>default_ipv4_gateway_and_client\<close> asks the system: the content of \<open>/proc/net/route\<close>,
  a socket, its connection to the gateway and the local address that gives it.
\<close>

record gateway_calls =
  gc_route_table :: "(string, error) result"
  gc_bind :: "(unit, error) result"
  gc_connect :: "ip_addr \<Rightarrow> (unit, error) result"
  gc_local_addr :: "(socket_addr, error) result"

definition default_ipv4_gateway_and_client :: "gateway_calls \<Rightarrow> (u32 \<times> u32, error) result" where
  "default_ipv4_gateway_and_client gc =
     rbind (with_context ''Failed to read /proc/net/route while discovering the IPv4 gateway'' (gc_route_table gc))
       (\<lambda>route_table.
     rbind (ok_or (parse_default_ipv4_gateway route_table)
              (Anyhow ''No default IPv4 gateway was found in /proc/net/route'')) (\<lambda>gateway.
     rbind (gc_bind gc) (\<lambda>_.
     rbind (gc_connect gc (IpV4 gateway)) (\<lambda>_.
     rbind (gc_local_addr gc) (\<lambda>local_addr.
     (case sock_ip local_addr of
        IpV4 client \<Rightarrow> Ok (gateway, client)
      | IpV6 _ \<Rightarrow> Err (Anyhow ''The default route did not select an IPv4 address'')))))))"

section \<open>Creating a mapping\<close>

text \<open>The calls into \<open>crab_nat\<close> and \<open>igd_next\<close>, each with the arguments the program passes.\<close>

record pcp_calls =
  pc_gateway :: gateway_calls
  pc_runtime :: "(unit, error) result"
  pc_pcp :: "u32 \<Rightarrow> ip_addr \<Rightarrow> u16 \<Rightarrow> mapping_options \<Rightarrow> (port_mapping, error) result"
  pc_natpmp :: "u32 \<Rightarrow> u16 \<Rightarrow> mapping_options \<Rightarrow> (port_mapping, error) result"
  pc_natpmp_external :: "u32 \<Rightarrow> timeout_config \<Rightarrow> (u32, error) result"

record upnp_calls =
  uc_gateway :: gateway_calls
  uc_search :: "duration \<Rightarrow> (unit, error) result"
  uc_any_address :: "socket_addr \<Rightarrow> u32 \<Rightarrow> string \<Rightarrow> (socket_addr, error) result"

definition try_pcp_natpmp :: "pcp_calls \<Rightarrow> u16 \<Rightarrow> (socket_addr \<times> nat_method \<times> port_mapping, error) result" where
  "try_pcp_natpmp calls port =
     rbind (default_ipv4_gateway_and_client (pc_gateway calls)) (\<lambda>(gateway, client).
     rbind (with_context ''Failed to initialize the PCP/NAT-PMP runtime'' (pc_runtime calls)) (\<lambda>_.
     (let options = \<lparr>opt_external_port = port, opt_lifetime_seconds = MAPPING_LIFETIME_SECONDS,
                     opt_timeout_config = MAPPING_TIMEOUT\<rparr> in
      rbind (case pc_pcp calls gateway (IpV4 client) port options of
               Inr m \<Rightarrow> Ok m
             | Inl _ \<Rightarrow> pc_natpmp calls gateway port options) (\<lambda>m.
      rbind (case pm_type m of
               PcpType ip \<Rightarrow> Ok ip
             | NatPmpType \<Rightarrow> rmap IpV4 (pc_natpmp_external calls gateway MAPPING_TIMEOUT)) (\<lambda>external_ip.
      (let meth = (case pm_type m of PcpType _ \<Rightarrow> Pcp | NatPmpType \<Rightarrow> NatPmp) in
       Ok (sock_new external_ip (pm_external_port m), meth, m)))))))"

definition try_upnp_igd :: "upnp_calls \<Rightarrow> u16 \<Rightarrow> (socket_addr \<times> socket_addr, error) result" where
  "try_upnp_igd calls port =
     rbind (default_ipv4_gateway_and_client (uc_gateway calls)) (\<lambda>(_, client).
     (let local_addr = sock_new (IpV4 client) port in
      rbind (with_context ''UPnP IGD discovery failed'' (uc_search calls GATEWAY_DISCOVERY_TIMEOUT)) (\<lambda>_.
      rbind (with_context ''UPnP IGD port mapping failed''
               (uc_any_address calls local_addr MAPPING_LIFETIME_SECONDS ''p2p-tunnler'')) (\<lambda>external_addr.
      Ok (external_addr, local_addr)))))"

section \<open>The worker\<close>

datatype shutdown_wait = Signalled | Disconnected | WaitTimeout

text \<open>
  How a worker leaves the mapping: the watch value, whether it asked the router to remove the
  mapping, how long it waited, and whether it has returned.
\<close>

record worker =
  wk_active :: bool
  wk_removed :: bool
  wk_waits :: "duration list"
  wk_done :: bool

text \<open>Asking the router to remove the mapping; a failure is only logged.\<close>

definition remove_pcp_natpmp_mapping :: "worker \<Rightarrow> worker" where
  "remove_pcp_natpmp_mapping w = w\<lparr>wk_removed := True\<rparr>"

definition remove_upnp_igd_mapping :: "worker \<Rightarrow> worker" where
  "remove_upnp_igd_mapping w = w\<lparr>wk_removed := True\<rparr>"

definition pcp_renewal_delay :: "port_mapping \<Rightarrow> duration" where
  "pcp_renewal_delay m = max (from_secs (unat (pm_lifetime m) div 2)) MAPPING_RENEWAL_MINIMUM"

fun renew_pcp_natpmp :: "worker \<Rightarrow> port_mapping \<Rightarrow> (shutdown_wait \<times> (port_mapping, error) result) list \<Rightarrow> worker" where
  "renew_pcp_natpmp w m [] = w"
| "renew_pcp_natpmp w m ((wait, renewal) # rest) =
     (let w = w\<lparr>wk_waits := wk_waits w @ [pcp_renewal_delay m]\<rparr> in
      (case wait of
         WaitTimeout \<Rightarrow>
           (case renewal of
              Inl _ \<Rightarrow> w\<lparr>wk_active := False, wk_done := True\<rparr>
            | Inr m' \<Rightarrow> renew_pcp_natpmp w m' rest)
       | _ \<Rightarrow> (remove_pcp_natpmp_mapping w)\<lparr>wk_done := True\<rparr>))"

definition upnp_renewal_delay :: duration where
  "upnp_renewal_delay = from_secs (unat MAPPING_LIFETIME_SECONDS div 2)"

fun renew_upnp_igd :: "worker \<Rightarrow> (shutdown_wait \<times> (unit, error) result) list \<Rightarrow> worker" where
  "renew_upnp_igd w [] = w"
| "renew_upnp_igd w ((wait, renewal) # rest) =
     (let w = w\<lparr>wk_waits := wk_waits w @ [upnp_renewal_delay]\<rparr> in
      (case wait of
         WaitTimeout \<Rightarrow>
           (case renewal of
              Inl _ \<Rightarrow> w\<lparr>wk_active := False, wk_done := True\<rparr>
            | Inr _ \<Rightarrow> renew_upnp_igd w rest)
       | _ \<Rightarrow> (remove_upnp_igd_mapping w)\<lparr>wk_done := True\<rparr>))"

definition worker_new :: worker where
  "worker_new = \<lparr>wk_active = True, wk_removed = False, wk_waits = [], wk_done = False\<rparr>"

text \<open>
  \<open>mapping_worker\<close>: what it hands to the caller and what becomes of the mapping; \<open>delivered\<close>
  says whether the caller still waits for the result. The lists are the waits on the shutdown
  channel with the renewal results.
\<close>

record nat_env =
  ne_pcp :: pcp_calls
  ne_upnp :: upnp_calls
  ne_delivered :: bool
  ne_pcp_events :: "(shutdown_wait \<times> (port_mapping, error) result) list"
  ne_upnp_events :: "(shutdown_wait \<times> (unit, error) result) list"

definition mapping_worker :: "nat_env \<Rightarrow> u16 \<Rightarrow> (mapping, error) result \<times> worker" where
  "mapping_worker env port =
     (let new = (\<lambda>external meth. \<lparr>external_addr = external, mapping_method = meth, mapping_active = True,
                                  mapping_shutdown = True\<rparr>) in
      (case try_pcp_natpmp (ne_pcp env) port of
         Inr (external, meth, lease) \<Rightarrow>
           (Ok (new external meth),
            if ne_delivered env then renew_pcp_natpmp worker_new lease (ne_pcp_events env)
            else (remove_pcp_natpmp_mapping worker_new)\<lparr>wk_done := True\<rparr>)
       | Inl pcp_error \<Rightarrow>
           (case try_upnp_igd (ne_upnp env) port of
              Inr (external, local_addr) \<Rightarrow>
                (Ok (new external UpnpIgd),
                 if ne_delivered env then renew_upnp_igd worker_new (ne_upnp_events env)
                 else (remove_upnp_igd_mapping worker_new)\<lparr>wk_done := True\<rparr>)
            | Inl upnp_error \<Rightarrow>
                (Err (Anyhow (''No PCP/NAT-PMP or UPnP IGD mapping was available; PCP/NAT-PMP: ''
                   @ error_chain pcp_error @ ''; UPnP IGD: '' @ error_chain upnp_error)),
                 worker_new\<lparr>wk_done := True\<rparr>))))"

text \<open>
  \<open>map_udp_port\<close>: \<open>started\<close> is the result of starting the thread, \<open>panicked\<close> whether the thread
  dies before it reports. Without a port or a thread there is no worker.
\<close>

definition map_udp_port ::
    "(unit, error) result \<Rightarrow> bool \<Rightarrow> nat_env \<Rightarrow> u16 \<Rightarrow> (mapping, error) result \<times> worker option" where
  "map_udp_port started panicked env port =
     (if port = 0 then (Err (Anyhow ''Cannot request a NAT mapping for UDP port 0''), None)
      else
        (case with_context ''Failed to start NAT mapping worker'' started of
           Inl e \<Rightarrow> (Err e, None)
         | Inr _ \<Rightarrow>
             if panicked then (Err (Anyhow ''NAT mapping worker stopped before returning a result''), None)
             else (let (r, w) = mapping_worker env port in (r, Some w))))"

section \<open>The life of a lease\<close>

text \<open>The events that end a worker: a shutdown or a failed renewal.\<close>

definition ends_lease :: "shutdown_wait \<times> ('a, error) result \<Rightarrow> bool" where
  "ends_lease e = (case e of (WaitTimeout, Inr _) \<Rightarrow> False | _ \<Rightarrow> True)"

definition lease_outcome :: "worker \<Rightarrow> (shutdown_wait \<times> ('a, error) result) list \<Rightarrow> bool" where
  "lease_outcome w events =
     (case find ends_lease events of
        None \<Rightarrow> wk_active w \<and> \<not> wk_removed w \<and> \<not> wk_done w \<and> length (wk_waits w) = length events
      | Some (wait, _) \<Rightarrow> wk_done w \<and> wk_removed w = (wait \<noteq> WaitTimeout) \<and> wk_active w = (wait \<noteq> WaitTimeout))"

text \<open>
  The contract both renewal loops meet: one wait, then the end on a signal, the end on a failed
  renewal, or the next round with the renewed lease.
\<close>

locale renewal_loop =
  fixes delay :: "'l \<Rightarrow> duration" and renew :: "worker \<Rightarrow> 'l \<Rightarrow> (shutdown_wait \<times> ('l, error) result) list \<Rightarrow> worker"
  assumes renew_Nil: "renew w l [] = w"
    and renew_next: "renew w l ((WaitTimeout, Inr l') # rest) = renew (w\<lparr>wk_waits := wk_waits w @ [delay l]\<rparr>) l' rest"
    and renew_failed: "renew w l ((WaitTimeout, Inl e) # rest) =
      w\<lparr>wk_waits := wk_waits w @ [delay l], wk_active := False, wk_done := True\<rparr>"
    and renew_signal: "wait \<noteq> WaitTimeout \<Longrightarrow> renew w l ((wait, r) # rest) =
      w\<lparr>wk_waits := wk_waits w @ [delay l], wk_removed := True, wk_done := True\<rparr>"
begin

lemma outcome_from:
  "wk_active w \<Longrightarrow> \<not> wk_removed w \<Longrightarrow> \<not> wk_done w \<Longrightarrow>
   (case find ends_lease events of
      None \<Rightarrow> wk_active (renew w l events) \<and> \<not> wk_removed (renew w l events) \<and> \<not> wk_done (renew w l events) \<and>
        length (wk_waits (renew w l events)) = length (wk_waits w) + length events
    | Some (wait, _) \<Rightarrow> wk_done (renew w l events) \<and> wk_removed (renew w l events) = (wait \<noteq> WaitTimeout) \<and>
        wk_active (renew w l events) = (wait \<noteq> WaitTimeout))"
proof (induction events arbitrary: w l)
  case (Cons e events)
  obtain wait r where e: "e = (wait, r)" by fastforce
  consider "wait \<noteq> WaitTimeout" | x where "wait = WaitTimeout" "r = Inl x" | l' where "wait = WaitTimeout" "r = Inr l'"
    by (cases r) auto
  then show ?case
  proof cases
    case 3
    with Cons.IH [of "w\<lparr>wk_waits := wk_waits w @ [delay l]\<rparr>" l'] Cons.prems show ?thesis
      by (auto simp: e renew_next ends_lease_def split: option.splits)
  qed (use Cons.prems in \<open>auto simp: e renew_failed renew_signal ends_lease_def split: shutdown_wait.splits\<close>)
qed (simp add: renew_Nil)

lemma outcome: "lease_outcome (renew worker_new l events) events"
  using outcome_from [where w = worker_new and l = l and events = events]
  by (auto simp: lease_outcome_def worker_new_def split: option.splits prod.splits)

lemma waits_from:
  "(\<And>l. d \<le> delay l) \<Longrightarrow> list_all ((\<le>) d) (wk_waits w) \<Longrightarrow> list_all ((\<le>) d) (wk_waits (renew w l events))"
proof (induction events arbitrary: w l)
  case (Cons e events)
  obtain wait r where e: "e = (wait, r)" by fastforce
  with Cons show ?case
    by (cases wait; cases r) (auto simp: renew_next renew_failed renew_signal)
qed (simp add: renew_Nil)

end

interpretation pcp: renewal_loop pcp_renewal_delay renew_pcp_natpmp
  by unfold_locales (auto simp: Let_def remove_pcp_natpmp_mapping_def split: shutdown_wait.split)

interpretation upnp: renewal_loop "\<lambda>_. upnp_renewal_delay" "\<lambda>w (_ :: unit). renew_upnp_igd w"
  by unfold_locales (auto simp: Let_def remove_upnp_igd_mapping_def split: shutdown_wait.split)

lemma try_pcp_method: "try_pcp_natpmp calls port = Ok (external, meth, lease) \<Longrightarrow> meth \<noteq> UpnpIgd"
  by (auto simp: try_pcp_natpmp_def Let_def rbind_eq_Inr split: port_mapping_type.splits prod.splits)
    (metis port_mapping_type.exhaust)

lemma pcp_waits: "list_all (\<lambda>d. from_secs 60 \<le> d) (wk_waits (renew_pcp_natpmp worker_new lease events))"
  using pcp.waits_from [of "from_secs 60" worker_new lease events]
  by (simp add: worker_new_def pcp_renewal_delay_def MAPPING_RENEWAL_MINIMUM_def)

text \<open>
  \<^bold>\<open>C34\<close>. The life of a router mapping, for every answer of the router and every sequence of
  waits and renewal results. A mapping that is handed out was requested for a port other than
  zero, is active and can be shut down; its method is UPnP exactly when PCP and NAT-PMP failed.
  If the caller has gone its worker removes it at once. Otherwise it stays active and is
  renewed until the first shutdown signal (or drop of the mapping) or failed renewal; a
  shutdown removes it from the router, a failed renewal marks it inactive without removing it,
  and exactly one of the two happens; the PCP worker never renews more often than once a
  minute. A request that fails leaves no worker behind.
\<close>

theorem lease_lifecycle:
  "case map_udp_port started panicked env port of
     (Inl e, wk) \<Rightarrow> pred_option (\<lambda>w. wk_done w \<and> \<not> wk_removed w \<and> wk_waits w = []) wk
   | (Inr m, wk) \<Rightarrow> port \<noteq> 0 \<and> is_active m \<and> mapping_shutdown m \<and>
       (mapping_method m = UpnpIgd \<longleftrightarrow> res_ok (try_pcp_natpmp (ne_pcp env) port) = None) \<and>
       (\<exists>w. wk = Some w \<and>
         (if \<not> ne_delivered env then wk_done w \<and> wk_removed w \<and> wk_waits w = []
          else if mapping_method m = UpnpIgd then lease_outcome w (ne_upnp_events env)
          else lease_outcome w (ne_pcp_events env) \<and> list_all (\<lambda>d. from_secs 60 \<le> d) (wk_waits w)))"
proof (cases "try_pcp_natpmp (ne_pcp env) port")
  case (Inl e)
  then show ?thesis
    using upnp.outcome
    by (auto simp: map_udp_port_def mapping_worker_def is_active_def worker_new_def remove_upnp_igd_mapping_def
        split: sum.split)
next
  case (Inr a)
  then obtain external meth lease where ok: "try_pcp_natpmp (ne_pcp env) port = Ok (external, meth, lease)"
    by (cases a) auto
  from pcp.outcome [of lease "ne_pcp_events env"] pcp_waits [of lease "ne_pcp_events env"] try_pcp_method [OF ok]
  show ?thesis
    by (cases "ne_delivered env")
      (simp_all add: map_udp_port_def mapping_worker_def ok is_active_def remove_pcp_natpmp_mapping_def worker_new_def
        Let_def split: sum.split)
qed

text \<open>
  \<^bold>\<open>C35\<close>. A PCP or NAT-PMP lease is renewed before it expires exactly when the router grants
  more than 60 seconds: for a shorter lease the one-minute floor puts the renewal at or after
  the end of the lease.
\<close>

theorem renewal_before_expiry:
  "pcp_renewal_delay m < from_secs (unat (pm_lifetime m)) \<longleftrightarrow> 60 < unat (pm_lifetime m)"
proof -
  have "unat (pm_lifetime m) div 2 < unat (pm_lifetime m) \<longleftrightarrow> 0 < unat (pm_lifetime m)"
    by linarith
  then show ?thesis
    by (auto simp: pcp_renewal_delay_def MAPPING_RENEWAL_MINIMUM_def from_secs_def max_def)
qed

section \<open>The routing table\<close>

text \<open>
  The kernel prints a route as tab-separated fields: interface, destination and gateway as
  eight hexadecimal digits, flags as four, then fields that the program ignores.
\<close>

record route =
  rt_iface :: string
  rt_destination :: u32
  rt_gateway :: u32
  rt_flags :: u16
  rt_rest :: string

definition tab :: char where "tab = char_of (9 :: nat)"
definition nl :: char where "nl = char_of (10 :: nat)"

definition print_route :: "route \<Rightarrow> string" where
  "print_route r = rt_iface r @ tab # show_hex 8 (unat (rt_destination r)) @ tab # show_hex 8 (unat (rt_gateway r))
     @ tab # show_hex 4 (unat (rt_flags r)) @ rt_rest r"

definition plain_text :: "string \<Rightarrow> bool" where
  "plain_text s \<longleftrightarrow> list_all plain_char s"

definition route_printable :: "route \<Rightarrow> bool" where
  "route_printable r \<longleftrightarrow> rt_iface r \<noteq> [] \<and> list_all (\<lambda>c. \<not> is_whitespace c) (rt_iface r) \<and>
     plain_text (rt_rest r) \<and> (rt_rest r = [] \<or> is_whitespace (hd (rt_rest r)))"

definition is_default_route :: "route \<Rightarrow> bool" where
  "is_default_route r \<longleftrightarrow> rt_destination r = 0 \<and> rt_flags r AND 2 \<noteq> 0"

lemma tab_space [simp]: "is_whitespace tab" and tab_plain [simp]: "plain_char tab"
  by (simp_all add: tab_def is_whitespace_def plain_char_def is_newline_def Let_def)

lemma nl_newline [simp]: "is_newline nl"
  by (simp add: nl_def is_newline_def)

lemma whitespace_plain: "\<not> is_whitespace c \<Longrightarrow> plain_char c"
  by (auto simp: is_whitespace_def plain_char_def is_newline_def Let_def)

lemma show_hex_word: "list_all (\<lambda>c. \<not> is_whitespace c) (show_hex k n)" "plain_text (show_hex k n)"
  using show_hex_chars [of _ k n] hex_char_plain by (auto simp: list_all_iff plain_text_def)

lemma unat_hex: "unat (w :: u32) < 16 ^ 8" "unat (v :: u16) < 16 ^ 4"
  using unsigned_less [of w, where 'a = nat] unsigned_less [of v, where 'a = nat] by simp_all

lemma show_hex_zero: "show_hex 8 (unat (w :: u32)) = ''00000000'' \<longleftrightarrow> w = 0"
proof
  assume "show_hex 8 (unat w) = ''00000000''"
  moreover have "show_hex 8 0 = ''00000000''" by code_simp
  ultimately have "parse_digits 16 32 0 (show_hex 8 (unat w)) = parse_digits 16 32 0 (show_hex 8 0)"
    by simp
  then show "w = 0"
    using parse_digits_show_hex [OF unat_hex(1) [of w], of 32] parse_digits_show_hex [of 0 8 32]
    by (simp add: unsigned_eq_0_iff)
next
  show "w = 0 \<Longrightarrow> show_hex 8 (unat w) = ''00000000''"
    by simp code_simp
qed

lemma print_route_fields:
  assumes "route_printable r"
  shows "split_whitespace (print_route r) =
    rt_iface r # show_hex 8 (unat (rt_destination r)) # show_hex 8 (unat (rt_gateway r)) #
      show_hex 4 (unat (rt_flags r)) # split_whitespace (rt_rest r)"
proof -
  have "show_hex (numeral k) n \<noteq> []" for k n
    by (metis length_show_hex list.size(3) zero_neq_numeral)
  with assms show ?thesis
    by (simp add: print_route_def route_printable_def split_whitespace_word show_hex_word split_whitespace_space)
qed

lemma parse_route_line_print:
  assumes "route_printable r"
  shows "parse_route_line (print_route r) =
    (if is_default_route r then Some (to_le_ipv4 (rt_gateway r)) else None)"
  using from_str_radix_show_hex [OF unat_hex(2) [of "rt_flags r"], of 16]
    from_str_radix_show_hex [OF unat_hex(1) [of "rt_gateway r"], of 32]
  by (simp add: parse_route_line_def print_route_fields [OF assms] show_hex_zero is_default_route_def)

lemma strip_cr_plain: "plain_text s \<Longrightarrow> strip_cr s = s"
  by (auto simp: strip_cr_def plain_text_def list_all_iff plain_char_def dest!: last_in_set)

lemma print_route_plain: "route_printable r \<Longrightarrow> plain_text (print_route r)"
  using show_hex_word(2) whitespace_plain
  by (auto simp: print_route_def route_printable_def plain_text_def list_all_iff)

lemma find_map_find:
  "list_all route_printable rs \<Longrightarrow> find_map parse_route_line (map print_route rs) =
     map_option (\<lambda>r. to_le_ipv4 (rt_gateway r)) (find is_default_route rs)"
  by (induction rs) (simp_all add: parse_route_line_print)

lemma printed_gateway:
  assumes "plain_text header" and "list_all route_printable rs"
  shows "parse_default_ipv4_gateway (concat (map (\<lambda>l. l @ [nl]) (header # map print_route rs))) =
    map_option (\<lambda>r. from_be (rev (to_be 4 (rt_gateway r)))) (find is_default_route rs)"
proof -
  have "list_all (\<lambda>l. list_all (\<lambda>c. \<not> is_newline c) l \<and> strip_cr l = l) (header # map print_route rs)"
    using assms print_route_plain
    by (auto simp: list_all_iff strip_cr_plain) (auto simp: plain_text_def list_all_iff plain_char_def)
  then have "split_lines (concat (map (\<lambda>l. l @ [nl]) (header # map print_route rs))) = header # map print_route rs"
    by (rule split_lines_concat [OF nl_newline])
  then show ?thesis
    using find_map_find [OF assms(2)]
    by (simp add: parse_default_ipv4_gateway_def to_le_ipv4_def del: concat.simps list.map)
qed

text \<open>
  \<^bold>\<open>C36\<close>. Gateway discovery reads the kernel's routing table correctly: for every table printed
  in the kernel's format under any header line, the result is the gateway of the first route
  with destination 0.0.0.0 and the gateway flag, with its bytes in network order, and nothing
  if there is no such route.
\<close>

theorem gateway_of_route_table:
  assumes "plain_text header" and "list_all route_printable rs"
  shows "parse_default_ipv4_gateway (concat (map (\<lambda>l. l @ [nl]) (header # map print_route rs))) =
    map_option (\<lambda>r. from_be (rev (to_be 4 (rt_gateway r)))) (find is_default_route rs)"
  using assms by (rule printed_gateway)

theorem gateway_of_route_table_witness:
  "parse_default_ipv4_gateway (concat (map (\<lambda>l. l @ [nl]) (''Iface'' #
     map print_route [\<lparr>rt_iface = ''wlan0'', rt_destination = 0x0001A8C0, rt_gateway = 0, rt_flags = 1, rt_rest = []\<rparr>,
       \<lparr>rt_iface = ''wlan0'', rt_destination = 0, rt_gateway = 0x0101A8C0, rt_flags = 3, rt_rest = []\<rparr>]))) =
   Some 0xC0A80101"
proof -
  have "(from_be (rev (to_be 4 (0x0101A8C0 :: u32))) :: u32) = 0xC0A80101"
    by code_simp
  moreover have "plain_text ''Iface''" and "list_all (\<lambda>c. \<not> is_whitespace c) ''wlan0''"
    by code_simp+
  ultimately show ?thesis
    by (subst gateway_of_route_table)
      (simp_all add: route_printable_def is_default_route_def plain_text_def)
qed

end
