(* ===== verification/Candidates.thy ===== *)
theory Candidates
  imports Probe_Protocol Stun Crypto Config Nat_Mapping
begin

text \<open>
  \<open>src/message.rs\<close> and \<open>src/candidates.rs\<close>: the DHT record, the listener that turns accepted
  records into candidates and probe paths, the publisher, and the gathering of the program's
  own candidates. The JSON text form of a record is a parameter (\<open>from_slice\<close>, \<open>to_vec\<close>), and so
  are the results of the DHT, the resolver and the sockets.
\<close>

section \<open>Records and their age\<close>

text \<open>\<open>SystemTime\<close> in nanoseconds since the epoch; it can lie before the epoch.\<close>

type_synonym system_time = int

record control =
  probe_token :: string

record message =
  timestamp :: system_time
  ip_addr_list :: "socket_addr list"
  msg_control :: "control option"

definition MAX_DHT_MESSAGE_AGE :: duration where "MAX_DHT_MESSAGE_AGE = from_secs (10 * 60)"
definition MAX_DHT_FUTURE_SKEW :: duration where "MAX_DHT_FUTURE_SKEW = from_secs (5 * 60)"
definition MAX_REMOTE_CANDIDATES :: nat where "MAX_REMOTE_CANDIDATES = 64"

text \<open>\<open>SystemTime::duration_since\<close>: the error carries the distance the other way.\<close>

definition system_duration_since :: "system_time \<Rightarrow> system_time \<Rightarrow> (duration, duration) result" where
  "system_duration_since a b = (if b \<le> a then Ok (nat (a - b)) else Err (nat (b - a)))"

definition is_fresh_dht_timestamp :: "system_time \<Rightarrow> system_time \<Rightarrow> bool" where
  "is_fresh_dht_timestamp ts now =
     (case system_duration_since ts now of
        Inr future_skew \<Rightarrow> future_skew \<le> MAX_DHT_FUTURE_SKEW
      | Inl _ \<Rightarrow>
          (case system_duration_since now ts of
             Inr age \<Rightarrow> age \<le> MAX_DHT_MESSAGE_AGE
           | Inl _ \<Rightarrow> False))"

definition dht_key :: "public_key \<Rightarrow> public_key \<Rightarrow> bytes" where
  "dht_key publisher subscriber = public_key_as_bytes publisher @ public_key_as_bytes subscriber"

definition is_usable_peer_addr :: "socket_addr \<Rightarrow> bool" where
  "is_usable_peer_addr addr \<longleftrightarrow> \<not> is_loopback (sock_ip addr) \<and> \<not> is_unspecified (sock_ip addr) \<and>
     \<not> is_multicast (sock_ip addr) \<and> sock_port addr > 1024"

section \<open>The listener\<close>

definition retained_known_connections ::
    "(socket_addr set \<Rightarrow> socket_addr list) \<Rightarrow> socket_addr set \<Rightarrow> bool \<Rightarrow> socket_addr list" where
  "retained_known_connections iter known only_ipv4 =
     filter (\<lambda>addr. \<not> only_ipv4 \<or> is_ipv4 (sock_ip addr)) (iter known)"

fun fill_candidates :: "socket_addr set \<Rightarrow> socket_addr list \<Rightarrow> socket_addr set" where
  "fill_candidates updated [] = updated"
| "fill_candidates updated (peer # peers) =
     (if card updated = MAX_REMOTE_CANDIDATES then updated
      else fill_candidates (insert peer updated) peers)"

definition advertised_peers :: "connection_flags \<Rightarrow> message \<Rightarrow> socket_addr set" where
  "advertised_peers flags msg =
     set (take MAX_REMOTE_CANDIDATES
       (filter is_usable_peer_addr
         (filter (\<lambda>addr. \<not> filter_ipv6 flags \<or> is_ipv4 (sock_ip addr)) (ip_addr_list msg))))"

definition updated_peers ::
    "(socket_addr set \<Rightarrow> socket_addr list) \<Rightarrow> connection_flags \<Rightarrow> socket_addr set \<Rightarrow> message \<Rightarrow> socket_addr set" where
  "updated_peers iter flags known msg =
     (let updated = advertised_peers flags msg in
      if no_clear flags
      then fill_candidates updated (retained_known_connections iter known (filter_ipv6 flags))
      else updated)"

text \<open>What the listener is given once: keys, flags and the crates it calls.\<close>

record listen_env =
  le_box :: crypto_box
  le_flags :: connection_flags
  le_unseal :: box_fun
  le_from_slice :: "bytes \<Rightarrow> (message, string) result"
  le_b64_decode :: b64_decoder
  le_iter :: "socket_addr set \<Rightarrow> socket_addr list"

record listener =
  last_timestamp :: "system_time option"
  ls_connections :: candidate_set
  ls_probes :: probe_state

definition parse_dht_message :: "listen_env \<Rightarrow> bytes \<Rightarrow> message option" where
  "parse_dht_message env plaintext = res_ok (le_from_slice env plaintext)"

definition record_token :: "listen_env \<Rightarrow> message \<Rightarrow> bytes option" where
  "record_token env msg =
     (case msg_control msg of
        None \<Rightarrow> None
      | Some c \<Rightarrow> decode_token (\<lambda>t. res_ok (le_b64_decode env t)) (probe_token c))"

text \<open>The record a DHT value carries, if the listener accepts it.\<close>

definition accept_value :: "listen_env \<Rightarrow> system_time \<Rightarrow> system_time option \<Rightarrow> bytes \<Rightarrow> message option" where
  "accept_value env now_system previous value =
     (case decrypt (le_unseal env) (le_box env) value of
        None \<Rightarrow> None
      | Some plaintext \<Rightarrow>
          (case parse_dht_message env plaintext of
             None \<Rightarrow> None
           | Some msg \<Rightarrow>
               if \<not> is_fresh_dht_timestamp (timestamp msg) now_system then None
               else if (case previous of None \<Rightarrow> False | Some seen \<Rightarrow> timestamp msg \<le> seen) then None
               else Some msg))"

text \<open>One iteration of \<open>listen_for_peer_candidates\<close>.\<close>

definition listen_value :: "listen_env \<Rightarrow> system_time \<Rightarrow> instant \<Rightarrow> listener \<Rightarrow> bytes \<Rightarrow> listener" where
  "listen_value env now_system now ls value =
     (case accept_value env now_system (last_timestamp ls) value of
        None \<Rightarrow> ls
      | Some msg \<Rightarrow>
          (let updated = updated_peers (le_iter env) (le_flags env) (advertised (ls_connections ls)) msg;
               connections = (if advertised (ls_connections ls) \<noteq> updated
                              then replace_advertised (ls_connections ls) updated else ls_connections ls)
           in \<lparr>last_timestamp = Some (timestamp msg), ls_connections = connections,
               ls_probes = update_remote now (ls_probes ls) (record_token env msg) (le_iter env updated)\<rparr>))"

text \<open>The listener on the values of the stream until it ends, which is an error.\<close>

fun listen_for_peer_candidates ::
    "listen_env \<Rightarrow> listener \<Rightarrow> (system_time \<times> instant \<times> bytes) list \<Rightarrow> listener \<times> (unit, error) result" where
  "listen_for_peer_candidates env ls [] = (ls, Err (Anyhow ''DHT listener ended''))"
| "listen_for_peer_candidates env ls ((now_system, now, value) # vals) =
     listen_for_peer_candidates env (listen_value env now_system now ls value) vals"

section \<open>The publisher\<close>

datatype candidate_recv = RecvTimeout | NewAddresses "socket_addr list" | RecvClosed | RecvOverflowed

definition publish_record ::
    "(message \<Rightarrow> (bytes, error) result) \<Rightarrow> box_fun \<Rightarrow> crypto_box \<Rightarrow> string \<Rightarrow> system_time \<Rightarrow> bytes \<Rightarrow>
     socket_addr list \<Rightarrow> (bytes, error) result" where
  "publish_record to_vec seal cb token now_system nonce addrs =
     rbind (to_vec \<lparr>timestamp = now_system, ip_addr_list = addrs, msg_control = Some \<lparr>probe_token = token\<rparr>\<rparr>)
       (\<lambda>plaintext. encrypt seal nonce cb plaintext)"

text \<open>
  The publisher over its rounds: the clock, the random nonce, the result of the DHT put and
  what the wait of up to 60 seconds returned. The result is the values put and how it ended.
\<close>

fun publish_candidates ::
    "(message \<Rightarrow> (bytes, error) result) \<Rightarrow> box_fun \<Rightarrow> crypto_box \<Rightarrow> string \<Rightarrow> socket_addr list \<Rightarrow>
     (system_time \<times> bytes \<times> (unit, error) result \<times> candidate_recv) list \<Rightarrow>
     bytes list \<times> (unit, error) result option" where
  "publish_candidates to_vec seal cb token addrs [] = ([], None)"
| "publish_candidates to_vec seal cb token addrs ((now_system, nonce, put, recv) # rounds) =
     (case publish_record to_vec seal cb token now_system nonce addrs of
        Inl e \<Rightarrow> ([], Some (Err e))
      | Inr value \<Rightarrow>
          (case put of
             Inl e \<Rightarrow> ([], Some (Err e))
           | Inr _ \<Rightarrow>
               (case recv of
                  RecvClosed \<Rightarrow> ([value], Some (Err (Anyhow ''STUN candidate source stopped'')))
                | NewAddresses addrs' \<Rightarrow>
                    (let (vals, ended) = publish_candidates to_vec seal cb token addrs' rounds
                     in (value # vals, ended))
                | _ \<Rightarrow>
                    (let (vals, ended) = publish_candidates to_vec seal cb token addrs rounds
                     in (value # vals, ended)))))"

section \<open>Gathering the own candidates\<close>

definition local_ipv6_candidate :: "ip_addr option \<Rightarrow> u16 \<Rightarrow> bool \<Rightarrow> socket_addr option" where
  "local_ipv6_candidate local_ipv6 port gather_ipv6 =
     (if gather_ipv6 then map_option (\<lambda>ip. sock_new ip port) local_ipv6 else None)"

text \<open>\<open>get_local_ipv6_addr\<close> over the results of bind, connect and \<open>local_addr\<close>.\<close>

definition get_local_ipv6_addr ::
    "(unit, error) result \<Rightarrow> (unit, error) result \<Rightarrow> (socket_addr, error) result \<Rightarrow> (ip_addr option, error) result" where
  "get_local_ipv6_addr bound connected local_addr =
     rbind bound (\<lambda>_.
     (case connected of
        Inl _ \<Rightarrow> Ok None
      | Inr _ \<Rightarrow>
          rbind local_addr (\<lambda>address.
          if \<not> is_unspecified (sock_ip address) \<and> \<not> is_loopback (sock_ip address)
          then Ok (Some (sock_ip address)) else Ok None)))"

text \<open>The addresses one round announces, and how long it then waits.\<close>

definition gathered_addresses ::
    "bool \<Rightarrow> ip_addr option \<Rightarrow> u16 \<Rightarrow> mapping option \<Rightarrow> (socket_addr, error) result \<Rightarrow> socket_addr list \<times> duration" where
  "gathered_addresses gather_ipv6 local_ipv6 port nat_mapping stun_answer =
     (let addresses = (case local_ipv6_candidate local_ipv6 port gather_ipv6 of None \<Rightarrow> [] | Some a \<Rightarrow> [a]) in
      (case stun_answer of
         Inr address \<Rightarrow>
           (let addresses = (case nat_mapping of
                None \<Rightarrow> addresses
              | Some m \<Rightarrow>
                  if \<not> is_active m then addresses
                  else if sock_ip (external_addr m) = sock_ip address then addresses @ [external_addr m]
                  else addresses)
            in (addresses @ [address], from_secs 60))
       | Inl _ \<Rightarrow> (addresses, from_secs 15)))"

text \<open>
  \<open>wait_for_next_stun_attempt\<close>: how long it waits when the mapping's watch channel changes
  after \<open>changed\<close> (\<open>None\<close>: not within the delay), or its sender is gone (\<open>Err\<close>).
\<close>

definition wait_for_next_stun_attempt ::
    "mapping option \<Rightarrow> duration option \<Rightarrow> (unit, unit) result \<Rightarrow> duration \<Rightarrow> duration" where
  "wait_for_next_stun_attempt m changed outcome delay =
     (case m of
        None \<Rightarrow> delay
      | Some _ \<Rightarrow>
          (case changed of
             None \<Rightarrow> delay
           | Some d \<Rightarrow> if delay < d then delay
                       else (case outcome of Inl _ \<Rightarrow> d + delay | Inr _ \<Rightarrow> d)))"

text \<open>
  One round of the gathering task: what the resolver, the sockets and the STUN client return,
  whether the router mapping is still active, and what its watch channel does afterwards.
\<close>

record gather_round =
  gr_resolved :: "(socket_addr list, error) result"
  gr_local_ipv6 :: "(ip_addr option, error) result"
  gr_active :: bool
  gr_stun :: "socket_addr \<Rightarrow> (socket_addr, error) result"
  gr_broadcast :: "(unit, error) result"
  gr_changed :: "duration option"
  gr_watch :: "(unit, unit) result"

definition stun_server_of :: "socket_addr list \<Rightarrow> (socket_addr, error) result" where
  "stun_server_of server_addresses =
     ok_or (find (\<lambda>a. is_ipv4 (sock_ip a)) server_addresses)
       (Anyhow ''Failed to resolve an IPv4 STUN server address'')"

text \<open>One round of \<open>lookup_public_address\<close>: what it broadcasts and the wait that follows.\<close>

definition gather_once ::
    "bool \<Rightarrow> u16 \<Rightarrow> mapping option \<Rightarrow> gather_round \<Rightarrow> (socket_addr list \<times> duration, error) result" where
  "gather_once gather_ipv6 port nat_mapping r =
     rbind (gr_resolved r) (\<lambda>server_addresses.
     rbind (stun_server_of server_addresses) (\<lambda>server.
     rbind (if gather_ipv6 then gr_local_ipv6 r else Ok None) (\<lambda>local_ipv6.
     (let nat_mapping = map_option (\<lambda>m. m\<lparr>mapping_active := gr_active r\<rparr>) nat_mapping;
          (addresses, delay) = gathered_addresses gather_ipv6 local_ipv6 port nat_mapping (gr_stun r server) in
      rbind (gr_broadcast r) (\<lambda>_.
      Ok (addresses, wait_for_next_stun_attempt nat_mapping (gr_changed r) (gr_watch r) delay))))))"

fun lookup_public_address ::
    "bool \<Rightarrow> u16 \<Rightarrow> mapping option \<Rightarrow> bool \<Rightarrow> gather_round list \<Rightarrow>
     (socket_addr list \<times> duration) list \<times> (unit, error) result option" where
  "lookup_public_address gather_ipv6 port nat_mapping run_once [] = ([], None)"
| "lookup_public_address gather_ipv6 port nat_mapping run_once (r # rounds) =
     (case gather_once gather_ipv6 port nat_mapping r of
        Inl e \<Rightarrow> ([], Some (Err e))
      | Inr announced \<Rightarrow>
          if run_once then ([announced], Some (Ok ()))
          else (let (more, ended) = lookup_public_address gather_ipv6 port nat_mapping run_once rounds
                in (announced # more, ended)))"

text \<open>\<open>start_stun_candidates\<close> hands its set-up to the gathering task.\<close>

record stun_setup =
  st_local_port :: u16
  st_gather_ipv6 :: bool
  st_nat_mapping :: "mapping option"
  st_run_once :: bool

definition start_stun_candidates ::
    "stun_setup \<Rightarrow> gather_round list \<Rightarrow> (socket_addr list \<times> duration) list \<times> (unit, error) result option" where
  "start_stun_candidates su rounds =
     lookup_public_address (st_gather_ipv6 su) (st_local_port su) (st_nat_mapping su) (st_run_once su) rounds"

section \<open>Which records count\<close>

lemma is_fresh_iff:
  "is_fresh_dht_timestamp ts now \<longleftrightarrow>
     now - int MAX_DHT_MESSAGE_AGE \<le> ts \<and> ts \<le> now + int MAX_DHT_FUTURE_SKEW"
  by (auto simp: is_fresh_dht_timestamp_def system_duration_since_def)

lemma accept_value_Some:
  "accept_value env now_system previous value = Some msg \<longleftrightarrow>
     (\<exists>plaintext. decrypt (le_unseal env) (le_box env) value = Some plaintext \<and>
        le_from_slice env plaintext = Ok msg) \<and>
     now_system - int MAX_DHT_MESSAGE_AGE \<le> timestamp msg \<and> timestamp msg \<le> now_system + int MAX_DHT_FUTURE_SKEW \<and>
     (\<forall>seen. previous = Some seen \<longrightarrow> seen < timestamp msg)"
  by (auto simp: accept_value_def parse_dht_message_def is_fresh_iff res_ok_def split: option.splits sum.splits)

text \<open>The records the listener accepts from a stream of values, with the clock at each.\<close>

fun accepted_records ::
    "listen_env \<Rightarrow> system_time option \<Rightarrow> (system_time \<times> instant \<times> bytes) list \<Rightarrow> (system_time \<times> message) list" where
  "accepted_records env previous [] = []"
| "accepted_records env previous ((now_system, now, value) # vals) =
     (case accept_value env now_system previous value of
        None \<Rightarrow> accepted_records env previous vals
      | Some msg \<Rightarrow> (now_system, msg) # accepted_records env (Some (timestamp msg)) vals)"

lemma accepted_after:
  "(t, msg) \<in> set (accepted_records env (Some seen) vals) \<Longrightarrow> seen < timestamp msg"
proof (induction env "Some seen" vals arbitrary: seen rule: accepted_records.induct)
  case (2 env now_system now v vals)
  then show ?case
    by (force simp: accept_value_Some split: option.splits)
qed simp


section \<open>What the listener advertises\<close>

text \<open>The two bounded fills of the program are the same function.\<close>

lemma fill_candidates_select: "fill_candidates updated peers = select_paths updated peers"
  by (induction updated peers rule: fill_candidates.induct)
    (simp_all add: MAX_REMOTE_CANDIDATES_def MAX_PROBE_PATHS_def)

lemma advertised_peers_sound:
  "finite (advertised_peers flags msg) \<and> card (advertised_peers flags msg) \<le> 64 \<and>
   advertised_peers flags msg \<subseteq> {a. a \<in> set (ip_addr_list msg) \<and> is_usable_peer_addr a \<and>
     (filter_ipv6 flags \<longrightarrow> is_ipv4 (sock_ip a))}"
proof -
  let ?l = "take MAX_REMOTE_CANDIDATES (filter is_usable_peer_addr
      (filter (\<lambda>addr. \<not> filter_ipv6 flags \<or> is_ipv4 (sock_ip addr)) (ip_addr_list msg)))"
  have "card (set ?l) \<le> length ?l" by (rule card_length)
  also have "\<dots> \<le> 64" by (simp add: MAX_REMOTE_CANDIDATES_def)
  finally show ?thesis
    unfolding advertised_peers_def using set_take_subset by fastforce
qed

lemma updated_peers_sound:
  assumes "hash_order iter" and "finite known"
  shows "finite (updated_peers iter flags known msg) \<and> card (updated_peers iter flags known msg) \<le> 64 \<and>
    updated_peers iter flags known msg \<subseteq> advertised_peers flags msg \<union>
      {a \<in> known. no_clear flags \<and> (filter_ipv6 flags \<longrightarrow> is_ipv4 (sock_ip a))}"
proof (cases "no_clear flags")
  case False
  then show ?thesis
    using advertised_peers_sound [of flags msg] by (simp add: updated_peers_def)
next
  case True
  have "set (retained_known_connections iter known (filter_ipv6 flags)) =
      {a \<in> known. filter_ipv6 flags \<longrightarrow> is_ipv4 (sock_ip a)}"
    using hash_order.iter_set [OF assms] by (auto simp: retained_known_connections_def)
  then show ?thesis
    using True advertised_peers_sound [of flags msg]
      select_paths_bounds [of "advertised_peers flags msg"
        "retained_known_connections iter known (filter_ipv6 flags)"]
    by (auto simp: updated_peers_def Let_def fill_candidates_select MAX_PROBE_PATHS_def)
qed

definition listener_wf :: "connection_flags \<Rightarrow> listener \<Rightarrow> bool" where
  "listener_wf flags ls \<longleftrightarrow> candidate_wf (ls_connections ls) \<and> card (advertised (ls_connections ls)) \<le> 64 \<and>
     (\<forall>a \<in> advertised (ls_connections ls). is_usable_peer_addr a \<and> (filter_ipv6 flags \<longrightarrow> is_ipv4 (sock_ip a))) \<and>
     probe_wf (ls_probes ls) \<and> dom (paths (ls_probes ls)) \<subseteq> advertised (ls_connections ls)"

definition listener_new :: "bytes \<Rightarrow> listener" where
  "listener_new token = \<lparr>last_timestamp = None, ls_connections = candidate_set_default, ls_probes = probe_new token\<rparr>"

lemma listener_new_wf: "length token = 16 \<Longrightarrow> listener_wf flags (listener_new token)"
  by (simp add: listener_wf_def listener_new_def candidate_set_default_def candidate_wf_def
      probe_new_wf) (simp add: probe_new_def)

lemma record_token_16: "record_token env msg = Some token \<Longrightarrow> length token = 16"
  by (auto simp: record_token_def decode_token_def split: option.splits if_splits)

lemma update_remote_dom:
  assumes "hash_order iter" and "finite s" and "card s \<le> 64"
  shows "dom (paths (update_remote now st token (iter s))) = (if token = None then {} else s)"
proof -
  have "select_paths {} (iter s) = s"
    using assms hash_order.iter_set [OF assms(1,2)] by (simp add: select_paths_all MAX_PROBE_PATHS_def)
  then show ?thesis
    by (auto simp: update_remote_paths dom_def)
qed

lemma listen_value_accepted:
  assumes "accept_value env now_system (last_timestamp ls) value = Some msg"
  shows "listen_value env now_system now ls value =
    (let updated = updated_peers (le_iter env) (le_flags env) (advertised (ls_connections ls)) msg
     in \<lparr>last_timestamp = Some (timestamp msg), ls_connections = replace_advertised (ls_connections ls) updated,
         ls_probes = update_remote now (ls_probes ls) (record_token env msg) (le_iter env updated)\<rparr>)"
  using assms by (auto simp: listen_value_def Let_def replace_advertised_def)

lemma listen_value_wf:
  assumes order: "hash_order (le_iter env)" and wf: "listener_wf (le_flags env) ls"
  shows "listener_wf (le_flags env) (listen_value env now_system now ls value)"
proof (cases "accept_value env now_system (last_timestamp ls) value")
  case None
  with wf show ?thesis by (simp add: listen_value_def)
next
  case (Some msg)
  define u where "u = updated_peers (le_iter env) (le_flags env) (advertised (ls_connections ls)) msg"
  have fin: "finite (advertised (ls_connections ls))"
    using wf by (simp add: listener_wf_def candidate_wf_def)
  note u = updated_peers_sound [OF order fin, of "le_flags env" msg, folded u_def]
  have "\<forall>a\<in>u. is_usable_peer_addr a \<and> (filter_ipv6 (le_flags env) \<longrightarrow> is_ipv4 (sock_ip a))"
    using u advertised_peers_sound [of "le_flags env" msg] wf by (auto simp: listener_wf_def)
  moreover have "dom (paths (update_remote now (ls_probes ls) (record_token env msg) (le_iter env u))) \<subseteq> u"
    using update_remote_dom [OF order] u by simp
  moreover have "probe_wf (update_remote now (ls_probes ls) (record_token env msg) (le_iter env u))"
    using wf record_token_16 by (intro update_remote_wf) (auto simp: listener_wf_def)
  ultimately show ?thesis
    using u wf
    by (simp add: listen_value_accepted [OF Some] Let_def u_def [symmetric] listener_wf_def
        candidate_wf_def replace_advertised_def)
qed

interpretation listening: invariant_system "\<lambda>ls. \<exists>token. length token = 16 \<and> ls = listener_new token"
    "\<lambda>ls (now_system, now, value) ls'. hash_order (le_iter env) \<and> ls' = listen_value env now_system now ls value"
    "listener_wf (le_flags env)" for env
  by unfold_locales (auto intro: listener_new_wf listen_value_wf)

lemma listen_steps:
  "hash_order (le_iter env) \<Longrightarrow>
   steps (\<lambda>ls (now_system, now, value) ls'. hash_order (le_iter env) \<and> ls' = listen_value env now_system now ls value)
     ls vals (fst (listen_for_peer_candidates env ls vals))"
  by (induction env ls vals rule: listen_for_peer_candidates.induct) (auto intro: steps.intros)

text \<open>An address a record from the peer lists, in some value of the stream.\<close>

definition listed_by_peer :: "listen_env \<Rightarrow> bytes list \<Rightarrow> socket_addr \<Rightarrow> bool" where
  "listed_by_peer env vals a \<longleftrightarrow>
     (\<exists>value \<in> set vals. \<exists>plaintext msg. decrypt (le_unseal env) (le_box env) value = Some plaintext \<and>
        le_from_slice env plaintext = Ok msg \<and> a \<in> set (ip_addr_list msg))"

lemma listen_value_listed:
  assumes "hash_order (le_iter env)" and "finite (advertised (ls_connections ls))"
    and "a \<in> advertised (ls_connections (listen_value env now_system now ls value))"
  shows "a \<in> advertised (ls_connections ls) \<or> listed_by_peer env [value] a"
proof (cases "accept_value env now_system (last_timestamp ls) value")
  case None
  with assms(3) show ?thesis by (simp add: listen_value_def)
next
  case (Some msg)
  with assms(3) have "a \<in> updated_peers (le_iter env) (le_flags env) (advertised (ls_connections ls)) msg"
    by (simp add: listen_value_accepted Let_def replace_advertised_def)
  then consider "a \<in> advertised (ls_connections ls)" | "a \<in> set (ip_addr_list msg)"
    using updated_peers_sound [OF assms(1,2), of "le_flags env" msg]
      advertised_peers_sound [of "le_flags env" msg] by blast
  then show ?thesis
    using Some by cases (auto simp: listed_by_peer_def accept_value_Some)
qed

lemma listen_run_listed:
  assumes "hash_order (le_iter env)"
  shows "listener_wf (le_flags env) ls \<Longrightarrow>
    a \<in> advertised (ls_connections (fst (listen_for_peer_candidates env ls vals))) \<Longrightarrow>
    a \<in> advertised (ls_connections ls) \<or> listed_by_peer env (map (\<lambda>(_, _, v). v) vals) a"
  using assms
proof (induction env ls vals rule: listen_for_peer_candidates.induct)
  case (2 env ls now_system now v vals)
  from "2.IH" [OF listen_value_wf] "2.prems"
  have "a \<in> advertised (ls_connections (listen_value env now_system now ls v)) \<or>
      listed_by_peer env (map (\<lambda>(_, _, v). v) vals) a"
    by simp
  moreover have "finite (advertised (ls_connections ls))"
    using "2.prems"(1) by (simp add: listener_wf_def candidate_wf_def)
  ultimately show ?case
    using listen_value_listed [OF "2.prems"(3)] by (fastforce simp: listed_by_peer_def)
qed simp

text \<open>
  \<^bold>\<open>C26\<close>. The advertised candidates are bounded, vetted and authentic: whatever values the DHT
  delivers, at most 64 addresses are advertised; each is a usable unicast address with an
  unprivileged port, an IPv4 one when IPv6 is filtered, and was listed in a record that
  decrypted under the peer's key; and only such addresses are probed.
\<close>

theorem advertised_candidates_sound:
  assumes "hash_order (le_iter env)" and "length token = 16"
    and "ls = fst (listen_for_peer_candidates env (listener_new token) vals)"
  shows "finite (advertised (ls_connections ls)) \<and> card (advertised (ls_connections ls)) \<le> 64 \<and>
    (\<forall>a \<in> advertised (ls_connections ls). is_usable_peer_addr a \<and>
       (filter_ipv6 (le_flags env) \<longrightarrow> is_ipv4 (sock_ip a)) \<and>
       listed_by_peer env (map (\<lambda>(_, _, v). v) vals) a) \<and>
    dom (paths (ls_probes ls)) \<subseteq> advertised (ls_connections ls)"
proof -
  have "listener_wf (le_flags env) ls"
    using listening.inv_reachable [OF _ listen_steps [OF assms(1)]] assms(2,3) by blast
  moreover have "advertised (ls_connections (listener_new token)) = {}"
    by (simp add: listener_new_def candidate_set_default_def)
  ultimately show ?thesis
    using listen_run_listed [OF assms(1) listener_new_wf [OF assms(2)]] assms(3)
    by (auto simp: listener_wf_def candidate_wf_def)
qed

text \<open>
  \<^bold>\<open>C28\<close>. What an accepted record does: without \<open>--no-clear\<close> the advertised candidates become
  exactly the record's vetted addresses while every admitted peer-reflexive source stays; the
  probe paths become exactly these addresses when the record carries a valid token and none
  otherwise; and with an unchanged token the state of a path that is still listed is kept,
  while every other path starts unverified.
\<close>

theorem accepted_record_effect:
  assumes "hash_order (le_iter env)" and "\<not> no_clear (le_flags env)"
    and "accept_value env now_system (last_timestamp ls) value = Some msg"
    and "ls' = listen_value env now_system now ls value"
  shows "last_timestamp ls' = Some (timestamp msg) \<and>
    advertised (ls_connections ls') = advertised_peers (le_flags env) msg \<and>
    peer_reflexive (ls_connections ls') = peer_reflexive (ls_connections ls) \<and>
    remote_token (ls_probes ls') = record_token env msg \<and>
    (\<forall>a. paths (ls_probes ls') a =
       (if record_token env msg = None \<or> a \<notin> advertised_peers (le_flags env) msg then None
        else if remote_token (ls_probes ls) = record_token env msg \<and> paths (ls_probes ls) a \<noteq> None
        then paths (ls_probes ls) a else Some (path_new now)))"
proof -
  let ?u = "advertised_peers (le_flags env) msg"
  have u: "updated_peers (le_iter env) (le_flags env) (advertised (ls_connections ls)) msg = ?u"
    using assms(2) by (simp add: updated_peers_def)
  have "select_paths {} (le_iter env ?u) = ?u"
    using advertised_peers_sound [of "le_flags env" msg] hash_order.iter_set [OF assms(1)]
    by (simp add: select_paths_all MAX_PROBE_PATHS_def)
  then show ?thesis
    unfolding assms(4) listen_value_accepted [OF assms(3)] u Let_def
    by (simp add: update_remote_paths replace_advertised_def)
qed

section \<open>Publishing\<close>

text \<open>The addresses in force in each round: the last ones announced before it.\<close>

fun in_force :: "socket_addr list \<Rightarrow> candidate_recv list \<Rightarrow> socket_addr list list" where
  "in_force addrs [] = []"
| "in_force addrs (recv # recvs) =
     addrs # in_force (case recv of NewAddresses addrs' \<Rightarrow> addrs' | _ \<Rightarrow> addrs) recvs"

text \<open>A round whose record could be built and put, with the value that was put.\<close>

definition published_in ::
    "(socket_addr list \<Rightarrow> system_time \<Rightarrow> bytes \<Rightarrow> (bytes, error) result) \<Rightarrow> socket_addr list \<Rightarrow>
     system_time \<times> bytes \<times> (unit, error) result \<times> candidate_recv \<Rightarrow> bytes \<Rightarrow> bool" where
  "published_in build addrs round value =
     (case round of (now_system, nonce, put, _) \<Rightarrow> put = Ok () \<and> build addrs now_system nonce = Ok value)"

lemma published_in_simp [simp]:
  "published_in build addrs (now_system, nonce, put, recv) v \<longleftrightarrow> put = Ok () \<and> build addrs now_system nonce = Ok v"
  by (simp add: published_in_def)



section \<open>Announcing the own candidates\<close>

text \<open>
  The announced candidates are what was observed: a round that reaches the STUN server
  announces its answer last, preceded by the router mapping only while that is active and has
  the same public IP address, and by the local IPv6 address only when IPv6 is gathered; a
  round whose lookup fails announces at most the local IPv6 address and retries sooner. With
  IPv6 gathering off, every announced address has the IP address the STUN server reported.
\<close>

lemma gathered_addresses_sound:
  assumes "gathered_addresses gather_ipv6 local_ipv6 port nat_mapping stun_answer = (addrs, delay)"
  shows "(case stun_answer of
      Inl _ \<Rightarrow> delay = from_secs 15 \<and> length addrs \<le> 1
    | Inr public \<Rightarrow> delay = from_secs 60 \<and> last addrs = public \<and> length addrs \<le> 3 \<and>
        (\<forall>a \<in> set addrs. (\<not> gather_ipv6 \<longrightarrow> sock_ip a = sock_ip public))) \<and>
    (\<forall>a \<in> set addrs. stun_answer = Ok a \<or>
       (\<exists>m public. nat_mapping = Some m \<and> mapping_active m \<and> a = external_addr m \<and>
          stun_answer = Ok public \<and> sock_ip a = sock_ip public) \<or>
       (gather_ipv6 \<and> (\<exists>ip. local_ipv6 = Some ip \<and> a = sock_new ip port)))"
  using assms
  by (auto simp: gathered_addresses_def local_ipv6_candidate_def is_active_def Let_def
      split: sum.splits option.splits if_splits)

text \<open>
  How long the gathering task pauses: never less than the delay unless the mapping's state
  changed, so a worker that is gone does not make it spin, and never more than twice the delay.
\<close>

lemma wait_bounds:
  "wait_for_next_stun_attempt m changed outcome delay \<le> 2 * delay"
  "m = None \<or> outcome = Err () \<or> changed = None \<Longrightarrow> delay \<le> wait_for_next_stun_attempt m changed outcome delay"
  by (auto simp: wait_for_next_stun_attempt_def split: option.splits sum.splits)

section \<open>A concrete listener\<close>

definition sample_message :: message where
  "sample_message = \<lparr>timestamp = 7, ip_addr_list = [SockV4 0xC0000201 8080, SockV4 0x7F000001 8080],
     msg_control = Some \<lparr>probe_token = sample_b64_encode (replicate 16 9)\<rparr>\<rparr>"

definition sample_env :: listen_env where
  "sample_env = \<lparr>le_box = crypto_box_new (PublicKey [3]) (SecretKey [5]),
     le_flags = \<lparr>filter_ipv6 = True, no_clear = False, out_port = 0, nat_map = False\<rparr>,
     le_unseal = sample_unseal, le_from_slice = (\<lambda>_. Ok sample_message),
     le_b64_decode = sample_b64_decode, le_iter = sorted_list_of_set\<rparr>"

lemma sample_order: "hash_order (le_iter sample_env)"
  by (simp add: sample_env_def ascending.hash_order_axioms)

lemma sample_accepted:
  "accept_value sample_env 7 (last_timestamp (listener_new token)) (replicate 24 0 @ [6]) = Some sample_message"
  by (simp add: accept_value_Some listener_new_def sample_env_def decrypt_def NONCE_BYTES_def crypto_box_new_def
      sample_unseal_def sample_tag_def sample_message_def)

lemma sample_advertised: "advertised_peers (le_flags sample_env) sample_message = {SockV4 0xC0000201 8080}"
  by (simp add: advertised_peers_def sample_env_def sample_message_def is_usable_peer_addr_def
      MAX_REMOTE_CANDIDATES_def)

theorem accepted_record_effect_witness:
  "advertised (ls_connections (listen_value sample_env 7 0 (listener_new (replicate 16 1)) (replicate 24 0 @ [6])))
     = {SockV4 0xC0000201 8080}"
  using accepted_record_effect [OF sample_order _ sample_accepted refl, of 0 "replicate 16 1"] sample_advertised
  by (simp add: sample_env_def)

theorem advertised_candidates_sound_witness:
  "(let ls = fst (listen_for_peer_candidates sample_env (listener_new (replicate 16 1)) [(7, 0, replicate 24 0 @ [6])])
    in advertised (ls_connections ls) \<noteq> {} \<and> card (advertised (ls_connections ls)) \<le> 64)"
proof -
  let ?ls = "listen_value sample_env 7 0 (listener_new (replicate 16 1)) (replicate 24 0 @ [6])"
  have "advertised (ls_connections ?ls) = {SockV4 0xC0000201 8080}"
    unfolding listen_value_accepted [OF sample_accepted] sample_advertised [symmetric]
    by (simp add: updated_peers_def replace_advertised_def sample_env_def Let_def)
  then show ?thesis
    using advertised_candidates_sound [OF sample_order, of "replicate 16 1" ?ls "[(7, 0, replicate 24 0 @ [6])]"]
    by simp
qed

end
