(* ===== verification/Dht.thy ===== *)
theory Dht
  imports Utils
begin

text \<open>
  \<open>src/dht.rs\<close>: starting the DHT node, its tick loop, and the three operations the program
  uses. The \<open>opendht\<close> crate is a parameter: a record of its functions over an abstract node.
  How a socket address prints (\<open>debug_addrs\<close>) is an argument of the error message only.
\<close>

section \<open>The crate\<close>

record 'd dht_crate =
  dc_new :: "u16 \<Rightarrow> ('d, error) result"
  dc_lookup_host :: "string \<Rightarrow> (socket_addr list, error) result"
  dc_bootstrap :: "'d \<Rightarrow> socket_addr list \<Rightarrow> (unit, error) result"
  dc_tick :: "'d \<Rightarrow> (duration \<times> 'd) option"
  dc_put :: "'d \<Rightarrow> bytes \<Rightarrow> bytes \<Rightarrow> ('d, error) result"
  dc_get :: "'d \<Rightarrow> bytes \<Rightarrow> bytes list"
  dc_listen :: "'d \<Rightarrow> bytes \<Rightarrow> bytes list"

section \<open>Operations\<close>

text \<open>\<open>OpenDht::new\<close> up to the point where the tick loop is spawned.\<close>

definition open_dht_new ::
    "'d dht_crate \<Rightarrow> (socket_addr list \<Rightarrow> string) \<Rightarrow> u16 \<Rightarrow> string \<Rightarrow> ('d, error) result" where
  "open_dht_new crate debug_addrs listen_port bootstrap_servers =
     rbind (dc_new crate listen_port) (\<lambda>dht.
     rbind (dc_lookup_host crate bootstrap_servers) (\<lambda>servers.
     (case dc_bootstrap crate dht servers of
        Inl _ \<Rightarrow> Err (Anyhow (''Failed to bootstrap using '' @ debug_addrs servers))
      | Inr _ \<Rightarrow> Ok dht)))"

text \<open>
  The tick loop, at most \<open>fuel\<close> iterations of it: the sleeps it took and, if it ended, its
  result, which is always an error.
\<close>

fun dht_tick_loop :: "'d dht_crate \<Rightarrow> nat \<Rightarrow> 'd \<Rightarrow> duration list \<times> (unit, error) result option" where
  "dht_tick_loop crate 0 dht = ([], None)"
| "dht_tick_loop crate (Suc fuel) dht =
     (case dc_tick crate dht of
        None \<Rightarrow> ([], Some (Err (Anyhow ''OpenDHT tick loop ended'')))
      | Some (next_tick, dht') \<Rightarrow>
          (let (sleeps, ended) = dht_tick_loop crate fuel dht' in (next_tick # sleeps, ended)))"

definition dht_get :: "'d dht_crate \<Rightarrow> 'd \<Rightarrow> bytes \<Rightarrow> bytes list" where
  "dht_get crate dht key = dc_get crate dht key"

definition dht_listen :: "'d dht_crate \<Rightarrow> 'd \<Rightarrow> bytes \<Rightarrow> bytes list" where
  "dht_listen crate dht key = dc_listen crate dht key"

definition dht_put :: "'d dht_crate \<Rightarrow> 'd \<Rightarrow> bytes \<Rightarrow> bytes \<Rightarrow> ('d, error) result" where
  "dht_put crate dht key value = rbind (dc_put crate dht key value) Ok"

section \<open>Facts\<close>

lemma open_dht_new_Ok:
  "open_dht_new crate debug_addrs port servers = Ok dht \<longleftrightarrow>
     dc_new crate port = Ok dht \<and>
     (\<exists>addrs. dc_lookup_host crate servers = Ok addrs \<and> dc_bootstrap crate dht addrs = Ok ())"
  by (cases "dc_new crate port"; cases "dc_lookup_host crate servers")
    (auto simp: open_dht_new_def split: sum.split)

text \<open>
  The node's clock never stops silently: the loop runs as long as the crate names a next tick,
  and the first time it does not the loop ends with an error.
\<close>

primrec ticks :: "'d dht_crate \<Rightarrow> nat \<Rightarrow> 'd \<Rightarrow> 'd option" where
  "ticks crate 0 dht = Some dht"
| "ticks crate (Suc n) dht = (case dc_tick crate dht of None \<Rightarrow> None | Some (_, dht') \<Rightarrow> ticks crate n dht')"

lemma dht_tick_loop_ends:
  "snd (dht_tick_loop crate fuel dht) =
     (if ticks crate fuel dht = None then Some (Err (Anyhow ''OpenDHT tick loop ended'')) else None)"
  by (induction fuel arbitrary: dht) (auto simp: case_prod_beta Let_def split: option.split)

lemma dht_tick_loop_length:
  "ticks crate fuel dht \<noteq> None \<Longrightarrow> length (fst (dht_tick_loop crate fuel dht)) = fuel"
  by (induction fuel arbitrary: dht) (auto simp: case_prod_beta Let_def split: option.splits)

end
