(* ===== verification/Service.thy ===== *)
theory Service
  imports Candidates Dht
begin

text \<open>
  \<open>src/service.rs\<close>: the classification of Internet packets, the checks before anything is
  started, the set-up of one connection and the supervision of the running service. Opening
  sockets, starting the DHT and creating a router mapping are arguments.
\<close>

section \<open>Classification\<close>

definition classify_packet :: "bytes \<Rightarrow> (internet_packet_kind, error) result" where
  "classify_packet packet =
     (if classify packet then
        (if length packet = FRAME_LEN then Ok KProbe else Ok KDrop)
      else if length packet > 20 then
        rbind (slice packet 4 12) (\<lambda>field.
          if field = to_be 8 cookie_word then Ok KStun else Ok KData)
      else Ok KData)"

section \<open>Validation\<close>

definition parse_peer_key :: "b64_decoder \<Rightarrow> peer \<Rightarrow> nat \<Rightarrow> (public_key, error) result" where
  "parse_peer_key b64_decode p peer_index =
     (case public_key_try_from b64_decode (peer_public_key p) of
        Inl e \<Rightarrow> Err (Anyhow (''Failed to parse public key for peer '' @ show_nat peer_index @ '' (''
                   @ (case peer_name p of None \<Rightarrow> ''unnamed'' | Some n \<Rightarrow> n) @ ''): '' @ error_text e))
      | Inr k \<Rightarrow> Ok k)"

fun validate_peers :: "b64_decoder \<Rightarrow> nat \<Rightarrow> peer list \<Rightarrow> (unit, error) result" where
  "validate_peers b64_decode i [] = Ok ()"
| "validate_peers b64_decode i (p # ps) =
     rbind (parse_peer_key b64_decode p i) (\<lambda>_. validate_peers b64_decode (i + 1) ps)"

fun validate_from :: "b64_decoder \<Rightarrow> nat \<Rightarrow> p2p_connection list \<Rightarrow> (unit, error) result" where
  "validate_from b64_decode i [] = Ok ()"
| "validate_from b64_decode i (c # cs) =
     (case secret_key_try_from b64_decode (conn_secret_key c) of
        Inl e \<Rightarrow> Err (Anyhow (''Failed to parse secret key for connection '' @ show_nat i @ '': '' @ error_text e))
      | Inr _ \<Rightarrow> rbind (validate_peers b64_decode 0 (conn_peers c)) (\<lambda>_. validate_from b64_decode (i + 1) cs))"

definition validate_connections :: "b64_decoder \<Rightarrow> p2p_connection list \<Rightarrow> (unit, error) result" where
  "validate_connections b64_decode cs = validate_from b64_decode 0 cs"

section \<open>Setting up a connection\<close>

text \<open>A failed mapping is not an error: the service continues with STUN alone.\<close>

definition request_nat_mapping :: "(unit, error) result \<Rightarrow> bool \<Rightarrow> nat_env \<Rightarrow> u16 \<Rightarrow> mapping option" where
  "request_nat_mapping started panicked env port = res_ok (fst (map_udp_port started panicked env port))"

text \<open>What one peer needs from the operating system and the random source.\<close>

record peer_resources =
  pr_socket :: socket_calls
  pr_nat_started :: "(unit, error) result"
  pr_nat_panicked :: bool
  pr_nat :: nat_env
  pr_loopback :: socket_calls
  pr_token :: bytes

text \<open>The shared state of one peer when its tasks start.\<close>

record peer_setup =
  su_remote_key :: public_key
  su_local_port :: u16
  su_nat_mapping :: "mapping option"
  su_gather_ipv6 :: bool
  su_probes :: probe_state
  su_connections :: candidate_set
  su_local_peer :: local_peer
  su_to_internet :: "datagram channel"
  su_receivers :: receivers

definition setup_peer ::
    "b64_decoder \<Rightarrow> connection_flags \<Rightarrow> peer_resources \<Rightarrow> peer \<Rightarrow> nat \<Rightarrow> (peer_setup, error) result" where
  "setup_peer b64_decode flags res p peer_index =
     rbind (parse_peer_key b64_decode p peer_index) (\<lambda>remote_key.
     rbind (open_internet_socket (pr_socket res) (out_port flags)) (\<lambda>port.
     (let nat_mapping = (if nat_map flags then request_nat_mapping (pr_nat_started res) (pr_nat_panicked res) (pr_nat res) port else None) in
      rbind (bind_loopback (pr_loopback res) (peer_local_port p)) (\<lambda>local_peer.
      Ok \<lparr>su_remote_key = remote_key, su_local_port = port, su_nat_mapping = nat_mapping,
          su_gather_ipv6 = (\<not> filter_ipv6 flags), su_probes = probe_new (pr_token res),
          su_connections = candidate_set_default,
          su_local_peer = local_peer,
          su_to_internet = channel_new UDP_QUEUE_CAPACITY, su_receivers = receivers_new\<rparr>))))"

fun setup_peers ::
    "b64_decoder \<Rightarrow> connection_flags \<Rightarrow> nat \<Rightarrow> (peer \<times> peer_resources) list \<Rightarrow> (peer_setup list, error) result" where
  "setup_peers b64_decode flags i [] = Ok []"
| "setup_peers b64_decode flags i ((p, res) # rest) =
     rbind (setup_peer b64_decode flags res p i) (\<lambda>s.
     rbind (setup_peers b64_decode flags (i + 1) rest) (\<lambda>ss. Ok (s # ss)))"

definition setup_connection ::
    "b64_decoder \<Rightarrow> connection_flags \<Rightarrow> p2p_connection \<Rightarrow> (nat \<Rightarrow> peer_resources) \<Rightarrow>
     (secret_key \<times> peer_setup list, error) result" where
  "setup_connection b64_decode flags c resources =
     (case secret_key_try_from b64_decode (conn_secret_key c) of
        Inl e \<Rightarrow> Err (Anyhow (''Failed to parse own secret key: '' @ error_text e))
      | Inr secret_key \<Rightarrow>
          rmap (Pair secret_key)
            (setup_peers b64_decode flags 0
              (map (\<lambda>i. (conn_peers c ! i, resources i)) [0..<length (conn_peers c)])))"

section \<open>The service\<close>

definition start_dht ::
    "'d dht_crate \<Rightarrow> (socket_addr list \<Rightarrow> string) \<Rightarrow> dht_flags \<Rightarrow> ('d, error) result" where
  "start_dht crate debug_addrs flags =
     with_context ''Initializing DHT failed''
       (open_dht_new crate debug_addrs (opendht_port flags) (bootstrap_addr flags))"

lemma start_dht_Ok:
  "start_dht crate debug_addrs flags = Ok dht \<longleftrightarrow>
     open_dht_new crate debug_addrs (opendht_port flags) (bootstrap_addr flags) = Ok dht"
  by (simp add: start_dht_def)

definition service_failure :: "task_failure option \<Rightarrow> string" where
  "service_failure failure =
     (let f = (case failure of
                 None \<Rightarrow> \<lparr>failed_task = ''unknown task'', failure_error = ''failure notification did not include a reason''\<rparr>
               | Some f \<Rightarrow> f)
      in ''Background task stopped: '' @ failed_task f @ '': '' @ failure_error f)"

definition peer_count :: "p2p_connection list \<Rightarrow> nat" where
  "peer_count connections = sum_list (map (\<lambda>c. length (conn_peers c)) connections)"

text \<open>
  \<open>run\<close>: \<open>crate\<close> is the DHT crate, \<open>resources\<close> what each peer of each connection
  finds, \<open>failures\<close> how the failure watch ends: \<open>None\<close> when its sender is gone. The result is
  the error the command ends with and whether any set-up was begun.
\<close>

definition run_service ::
    "b64_decoder \<Rightarrow> 'd dht_crate \<Rightarrow> (socket_addr list \<Rightarrow> string) \<Rightarrow> run_command \<Rightarrow> (nat \<Rightarrow> nat \<Rightarrow> peer_resources) \<Rightarrow> monitor option \<Rightarrow>
     error \<times> bool" where
  "run_service b64_decode crate debug_addrs cmd resources failures =
     (let peers = peer_count (rc_connections cmd) in
      (case validate_connections b64_decode (rc_connections cmd) of
         Inl e \<Rightarrow> (e, False)
       | Inr _ \<Rightarrow>
           if peers = 0 then (Anyhow ''No peers configured'', False)
           else if out_port (rc_connection_flags cmd) \<noteq> 0 \<and> peers > 1 then
             (Anyhow ''--out-port supports one peer at a time; use the default ephemeral port or run separate processes'', False)
           else
             (case start_dht crate debug_addrs (rc_dht_flags cmd) of
                Inl e \<Rightarrow> (e, False)
              | Inr _ \<Rightarrow>
                  (case mapR (\<lambda>i. setup_connection b64_decode (rc_connection_flags cmd) (rc_connections cmd ! i) (resources i))
                          [0..<length (rc_connections cmd)] of
                     Inl e \<Rightarrow> (e, True)
                   | Inr _ \<Rightarrow>
                       (case failures of
                          None \<Rightarrow> (Context ''Task supervision stopped unexpectedly'' (Anyhow ''channel closed''), True)
                        | Some failure \<Rightarrow> (Anyhow (service_failure failure), True))))))"

section \<open>Classification is total and exact\<close>

lemma classify_packet_eq:
  "classify_packet packet =
     Ok (if classify packet then (if length packet = 20 then KProbe else KDrop)
         else if length packet > 20 \<and> take 8 (drop 4 packet) = to_be 8 cookie_word then KStun else KData)"
  by (simp add: classify_packet_def FRAME_LEN_def)



section \<open>What is checked before anything starts\<close>

definition valid_key :: "b64_decoder \<Rightarrow> string \<Rightarrow> bool" where
  "valid_key b64_decode text = (case b64_decode text of Inl _ \<Rightarrow> False | Inr raw \<Rightarrow> length raw = 32)"

lemma secret_key_valid: "(\<exists>k. secret_key_try_from b64_decode t = Ok k) \<longleftrightarrow> valid_key b64_decode t"
  by (auto simp: secret_key_try_from_def valid_key_def decode_base64_key_def result_simps split: sum.splits)

lemma peer_key_valid: "(\<exists>k. parse_peer_key b64_decode p i = Ok k) \<longleftrightarrow> valid_key b64_decode (peer_public_key p)"
  by (auto simp: parse_peer_key_def public_key_try_from_def valid_key_def decode_base64_key_def result_simps
      split: sum.splits)

lemma validate_peers_Ok:
  "validate_peers b64_decode i ps = Ok () \<longleftrightarrow> list_all (\<lambda>p. valid_key b64_decode (peer_public_key p)) ps"
proof (induction b64_decode i ps rule: validate_peers.induct)
  case (2 b64_decode i p ps)
  then show ?case
    using peer_key_valid [of b64_decode p i] by (auto simp: result_simps)
qed simp

definition valid_connection :: "b64_decoder \<Rightarrow> p2p_connection \<Rightarrow> bool" where
  "valid_connection b64_decode c \<longleftrightarrow> valid_key b64_decode (conn_secret_key c) \<and>
     list_all (\<lambda>p. valid_key b64_decode (peer_public_key p)) (conn_peers c)"

lemma validate_from_Ok:
  "validate_from b64_decode i cs = Ok () \<longleftrightarrow> list_all (valid_connection b64_decode) cs"
proof (induction b64_decode i cs rule: validate_from.induct)
  case (2 b64_decode i c cs)
  then show ?case
    using secret_key_valid [of b64_decode "conn_secret_key c"]
    by (auto simp: result_simps validate_peers_Ok valid_connection_def split: sum.splits)
qed simp

text \<open>
  \<^bold>\<open>C31\<close>. The service starts nothing on a bad configuration: set-up begins exactly when every
  secret and public key of every connection is the encoding of 32 bytes, at least one peer is
  configured, a fixed outgoing port is shared by no two peers, and the DHT could be started.
\<close>

theorem run_service_guards:
  "snd (run_service b64_decode crate debug_addrs cmd resources failures) \<longleftrightarrow>
     list_all (valid_connection b64_decode) (rc_connections cmd) \<and>
     0 < peer_count (rc_connections cmd) \<and>
     (out_port (rc_connection_flags cmd) = 0 \<or> peer_count (rc_connections cmd) = 1) \<and>
     (\<exists>dht. start_dht crate debug_addrs (rc_dht_flags cmd) = Ok dht)"
proof -
  have valid: "validate_connections b64_decode (rc_connections cmd) = Ok () \<longleftrightarrow>
      list_all (valid_connection b64_decode) (rc_connections cmd)"
    by (simp add: validate_connections_def validate_from_Ok)
  show ?thesis
  proof (cases "validate_connections b64_decode (rc_connections cmd)")
    case (Inl e)
    with valid show ?thesis by (simp add: run_service_def)
  next
    case (Inr u)
    with valid show ?thesis
      by (cases "start_dht crate debug_addrs (rc_dht_flags cmd)") (auto simp: run_service_def Let_def split: sum.split option.split)
  qed
qed

section \<open>Supervision\<close>

text \<open>The reason reported for a task that stopped.\<close>

definition stop_reason :: "(unit, error) result \<Rightarrow> string" where
  "stop_reason outcome =
     (case outcome of Inr _ \<Rightarrow> ''task ended unexpectedly'' | Inl Panic \<Rightarrow> ''task panicked'' | Inl e \<Rightarrow> error_chain e)"

lemma spawn_completed_kept: "spawn_completed (Some f) task outcome = Some f"
  using spawn_completed_report [of "Some f" task outcome] by (auto simp: report_failure_first)

lemma spawn_completed_new:
  "spawn_completed monitor_new task outcome = Some \<lparr>failed_task = task, failure_error = stop_reason outcome\<rparr>"
  by (auto simp: spawn_completed_def stop_reason_def report_failure_def monitor_new_def
      split: sum.split error.split)

text \<open>
  \<^bold>\<open>C32\<close>. A stopped task stops the service, and the service names it: whichever background tasks
  end, with success, an error or a panic, and in whatever order, once set-up succeeded the
  command ends with an error that names the first task that stopped and its reason; later
  failures do not replace it.
\<close>

theorem service_reports_first_failure:
  assumes "snd (run_service b64_decode crate debug_addrs cmd resources None)"
    and "\<And>i. i < length (rc_connections cmd) \<Longrightarrow> \<exists>s. setup_connection b64_decode (rc_connection_flags cmd)
          (rc_connections cmd ! i) (resources i) = Ok s"
  shows "fst (run_service b64_decode crate debug_addrs cmd resources
      (Some (foldl (\<lambda>m (task, outcome). spawn_completed m task outcome) monitor_new ((task, outcome) # later)))) =
    Anyhow (''Background task stopped: '' @ task @ '': '' @ stop_reason outcome)"
proof -
  have first: "foldl (\<lambda>m (task, outcome). spawn_completed m task outcome) (Some f) later = Some f" for f
    by (induction later) (auto simp: spawn_completed_kept)
  let ?start = "\<lambda>i. setup_connection b64_decode (rc_connection_flags cmd) (rc_connections cmd ! i) (resources i)"
  have "mapR ?start [0..<length (rc_connections cmd)] =
      Ok (map (\<lambda>i. the (res_ok (?start i))) [0..<length (rc_connections cmd)])"
    using assms(2) by (intro mapR_Ok) fastforce
  with assms(1) show ?thesis
    by (auto simp: run_service_def Let_def first spawn_completed_new service_failure_def
        split: sum.splits if_splits)
qed

definition sample_key :: string where
  "sample_key = sample_b64_encode (replicate 32 65)"

definition sample_command :: run_command where
  "sample_command = \<lparr>rc_stun_flags = \<lparr>stun_addr = []\<rparr>, rc_dht_flags = \<lparr>bootstrap_addr = [], opendht_port = 4222\<rparr>,
     rc_connection_flags = \<lparr>filter_ipv6 = False, no_clear = False, out_port = 0, nat_map = False\<rparr>,
     rc_tunnels = [], rc_connections = [\<lparr>conn_secret_key = sample_key,
       conn_peers = [\<lparr>peer_local_port = 10001, peer_public_key = sample_key, peer_name = None\<rparr>]\<rparr>]\<rparr>"

definition sample_socket :: socket_calls where
  "sample_socket = \<lparr>sc_new = Ok (), sc_set_only_v6 = (\<lambda>_. Ok ()), sc_bind = (\<lambda>_. Ok ()),
     sc_set_nonblocking = (\<lambda>_. Ok ()), sc_from_std = Ok (), sc_local_addr = Ok (SockV6 0 4000 0 0)\<rparr>"

definition sample_gateway :: gateway_calls where
  "sample_gateway = \<lparr>gc_route_table = Err (IoError NotFound ''no such file''), gc_bind = Ok (), gc_connect = (\<lambda>_. Ok ()),
     gc_local_addr = Ok (SockV4 0xC0A80102 0)\<rparr>"

definition sample_nat :: nat_env where
  "sample_nat = \<lparr>ne_pcp = \<lparr>pc_gateway = sample_gateway, pc_runtime = Ok (), pc_pcp = (\<lambda>_ _ _ _. Err Panic),
       pc_natpmp = (\<lambda>_ _ _. Err Panic), pc_natpmp_external = (\<lambda>_ _. Err Panic)\<rparr>,
     ne_upnp = \<lparr>uc_gateway = sample_gateway, uc_search = (\<lambda>_. Ok ()), uc_any_address = (\<lambda>_ _ _. Err Panic)\<rparr>,
     ne_delivered = True, ne_pcp_events = [], ne_upnp_events = []\<rparr>"

definition sample_resources :: peer_resources where
  "sample_resources = \<lparr>pr_socket = sample_socket, pr_nat_started = Ok (), pr_nat_panicked = False,
     pr_nat = sample_nat, pr_loopback = sample_socket,
     pr_token = replicate 16 1\<rparr>"

lemma sample_socket_opens:
  "open_internet_socket sample_socket port = Ok 4000"
  "bind_loopback sample_socket port = Ok \<lparr>lp_sender = channel_new UDP_QUEUE_CAPACITY, lp_addr = None\<rparr>"
  by (simp_all add: open_internet_socket_def bind_loopback_def sample_socket_def)

definition sample_crate :: "unit dht_crate" where
  "sample_crate = \<lparr>dc_new = (\<lambda>_. Ok ()), dc_lookup_host = (\<lambda>_. Ok []), dc_bootstrap = (\<lambda>_ _. Ok ()),
     dc_tick = (\<lambda>_. None), dc_put = (\<lambda>_ _ _. Ok ()), dc_get = (\<lambda>_ _. []), dc_listen = (\<lambda>_ _. [])\<rparr>"

lemma sample_crate_starts: "start_dht sample_crate (\<lambda>_. []) flags = Ok ()"
  by (simp add: start_dht_Ok open_dht_new_Ok sample_crate_def)

lemma sample_key_decodes: "sample_b64_decode sample_key = Ok (replicate 32 65)"
  using sample_b64 by (simp add: sample_key_def b64_inverse_def)

lemma sample_setup:
  "\<exists>s. setup_connection sample_b64_decode (rc_connection_flags sample_command) (rc_connections sample_command ! 0)
     (\<lambda>_. sample_resources) = Ok s"
  by (simp add: sample_command_def setup_connection_def secret_key_try_from_def setup_peer_def parse_peer_key_def
      public_key_try_from_def decode_base64_key_def sample_key_decodes sample_resources_def
      sample_socket_opens del: replicate.simps)

lemma sample_starts: "snd (run_service sample_b64_decode sample_crate (\<lambda>_. []) sample_command (\<lambda>_ _. sample_resources) None)"
proof -
  have "validate_connections sample_b64_decode (rc_connections sample_command) = Ok ()"
    by (simp add: validate_connections_def validate_from_Ok valid_connection_def valid_key_def sample_command_def
        sample_key_decodes del: replicate.simps validate_from.simps)
  then show ?thesis
    by (simp add: run_service_def Let_def peer_count_def sample_crate_starts split: sum.split)
      (simp add: sample_command_def)
qed

theorem service_reports_first_failure_witness:
  "fst (run_service sample_b64_decode sample_crate (\<lambda>_. []) sample_command (\<lambda>_ _. sample_resources)
     (Some (foldl (\<lambda>m (task, outcome). spawn_completed m task outcome) monitor_new
        [(''a'', Ok ()), (''b'', Err Panic)]))) =
   Anyhow (''Background task stopped: '' @ ''a'' @ '': '' @ ''task ended unexpectedly'')"
  using service_reports_first_failure [OF sample_starts, of "''a''" "Ok ()" "[(''b'', Err Panic)]"] sample_setup
  by (simp add: sample_command_def stop_reason_def del: foldl.simps)

end
