(* ===== verification/Session.thy ===== *)
theory Session
  imports Service
begin

text \<open>
  One running connection: the tasks that \<open>setup_connection\<close> spawns, interleaved. A task step is
  what a task does between two points where another task can run: it takes a datagram from a
  queue, or does the work it does under one lock. What a task holds between two such points
  (a packet whose source passed the check, an echo that is due, a record being applied) is
  part of the state, so a run can interleave the tasks at every lock boundary.
\<close>

section \<open>State and steps\<close>

record session =
  ss_connections :: candidate_set
  ss_probes :: probe_state
  ss_local :: local_peer
  ss_to_internet :: "datagram channel"
  ss_from_internet :: "datagram channel"
  ss_rx :: receivers
  ss_from_local :: "datagram channel"
  ss_last_timestamp :: "system_time option"
  hold_inbound :: "bytes option"
  hold_outbound :: "bytes option"
  hold_admit :: "datagram option"
  hold_echo :: "datagram option"
  hold_replace :: "(bytes option \<times> socket_addr set) option"
  hold_paths :: "(bytes option \<times> socket_addr set) option"

datatype task_step =
    SocketReceive datagram | RoutePacket
  | ProbeTake instant nat | ProbeAdmit | ProbeEcho | ProbeSchedule instant "socket_addr \<Rightarrow> nat"
  | InboundTake | InboundForward
  | LoopbackReceive datagram | OutboundTake | OutboundForward
  | DhtTake system_time bytes | DhtReplace | DhtPaths instant
  | StunSend bytes socket_addr | StunTake | SocketSend | LoopbackSend

definition session_new :: "peer_setup \<Rightarrow> session" where
  "session_new su =
     \<lparr>ss_connections = su_connections su, ss_probes = su_probes su, ss_local = su_local_peer su,
      ss_to_internet = su_to_internet su, ss_from_internet = channel_new UDP_QUEUE_CAPACITY,
      ss_rx = su_receivers su, ss_from_local = channel_new UDP_QUEUE_CAPACITY, ss_last_timestamp = None,
      hold_inbound = None, hold_outbound = None, hold_admit = None, hold_echo = None,
      hold_replace = None, hold_paths = None\<rparr>"

text \<open>
  The step function: \<open>None\<close> when the step is not enabled (an empty queue, a task busy with
  something else) or when the task would end with an error, which ends the service.
\<close>

fun session_step :: "listen_env \<Rightarrow> session \<Rightarrow> task_step \<Rightarrow> session option" where
  "session_step env s (SocketReceive d) =
     map_option (\<lambda>(c, _). s\<lparr>ss_from_internet := c\<rparr>)
       (res_ok (try_send (ss_from_internet s) (take (64 * 1024) (fst d), snd d)))"
| "session_step env s RoutePacket =
     (case mpsc_try_recv (ss_from_internet s) of
        None \<Rightarrow> None
      | Some (d, rest) \<Rightarrow>
          map_option (\<lambda>rx. s\<lparr>ss_from_internet := rest, ss_rx := rx\<rparr>)
            (res_ok (route_packet classify_packet (ss_rx s) d)))"
| "session_step env s (ProbeTake now percent) =
     (if hold_admit s \<noteq> None \<or> hold_echo s \<noteq> None then None
      else
        (case mpsc_try_recv (probe_rx (ss_rx s)) of
           None \<Rightarrow> None
         | Some ((packet, source), rest) \<Rightarrow>
             (let (st, action) = packet_action now percent (ss_probes s) packet source
              in Some (s\<lparr>ss_rx := (ss_rx s)\<lparr>probe_rx := rest\<rparr>, ss_probes := st,
                         hold_admit := (if action = EchoAndAdmit then Some (packet, source) else None)\<rparr>))))"
| "session_step env s ProbeAdmit =
     (case hold_admit s of
        None \<Rightarrow> None
      | Some (packet, source) \<Rightarrow>
          Some (s\<lparr>ss_connections := fst (add_peer_reflexive (ss_connections s) source),
                  hold_admit := None, hold_echo := Some (packet, source)\<rparr>))"
| "session_step env s ProbeEcho =
     (case hold_echo s of
        None \<Rightarrow> None
      | Some d \<Rightarrow>
          map_option (\<lambda>(c, _). s\<lparr>ss_to_internet := c, hold_echo := None\<rparr>) (res_ok (try_send (ss_to_internet s) d)))"
| "session_step env s (ProbeSchedule now percent) =
     (let (st, queued) = schedule_tick (le_iter env) now percent (ss_probes s) (ss_to_internet s)
      in map_option (\<lambda>c. s\<lparr>ss_probes := st, ss_to_internet := c\<rparr>) (res_ok queued))"
| "session_step env s InboundTake =
     (if hold_inbound s \<noteq> None then None
      else
        (case mpsc_try_recv (data_rx (ss_rx s)) of
           None \<Rightarrow> None
         | Some ((packet, remote_peer), rest) \<Rightarrow>
             Some (s\<lparr>ss_rx := (ss_rx s)\<lparr>data_rx := rest\<rparr>,
                     hold_inbound := (if contains (ss_connections s) remote_peer then Some packet else None)\<rparr>)))"
| "session_step env s InboundForward =
     (case hold_inbound s of
        None \<Rightarrow> None
      | Some packet \<Rightarrow>
          (case lp_addr (ss_local s) of
             None \<Rightarrow> Some (s\<lparr>hold_inbound := None\<rparr>)
           | Some wireguard_addr \<Rightarrow>
               map_option (\<lambda>(c, _). s\<lparr>ss_local := (ss_local s)\<lparr>lp_sender := c\<rparr>, hold_inbound := None\<rparr>)
                 (res_ok (try_send (lp_sender (ss_local s)) (packet, wireguard_addr)))))"
| "session_step env s (LoopbackReceive d) =
     map_option (\<lambda>(c, _). s\<lparr>ss_from_local := c\<rparr>)
       (res_ok (try_send (ss_from_local s) (take (64 * 1024) (fst d), snd d)))"
| "session_step env s OutboundTake =
     (if hold_outbound s \<noteq> None then None
      else
        (case mpsc_try_recv (ss_from_local s) of
           None \<Rightarrow> None
         | Some ((packet, wireguard_addr), rest) \<Rightarrow>
             Some (s\<lparr>ss_from_local := rest, ss_local := (ss_local s)\<lparr>lp_addr := Some wireguard_addr\<rparr>,
                     hold_outbound := Some packet\<rparr>)))"
| "session_step env s OutboundForward =
     (case hold_outbound s of
        None \<Rightarrow> None
      | Some packet \<Rightarrow>
          map_option (\<lambda>c. s\<lparr>ss_to_internet := c, hold_outbound := None\<rparr>)
            (res_ok (send_each try_send (ss_to_internet s)
              (map (Pair packet) (addresses (le_iter env) (ss_connections s))))))"
| "session_step env s (DhtTake now_system value) =
     (if hold_replace s \<noteq> None \<or> hold_paths s \<noteq> None then None
      else
        (case accept_value env now_system (ss_last_timestamp s) value of
           None \<Rightarrow> Some s
         | Some msg \<Rightarrow>
             Some (s\<lparr>ss_last_timestamp := Some (timestamp msg),
                     hold_replace := Some (record_token env msg,
                       updated_peers (le_iter env) (le_flags env) (advertised (ss_connections s)) msg)\<rparr>)))"
| "session_step env s DhtReplace =
     (case hold_replace s of
        None \<Rightarrow> None
      | Some (token, updated) \<Rightarrow>
          Some (s\<lparr>ss_connections := (if advertised (ss_connections s) \<noteq> updated
                     then replace_advertised (ss_connections s) updated else ss_connections s),
                  hold_replace := None, hold_paths := Some (token, updated)\<rparr>))"
| "session_step env s (DhtPaths now) =
     (case hold_paths s of
        None \<Rightarrow> None
      | Some (token, updated) \<Rightarrow>
          Some (s\<lparr>ss_probes := update_remote now (ss_probes s) token (le_iter env updated), hold_paths := None\<rparr>))"
| "session_step env s (StunSend request server) =
     map_option (\<lambda>(c, _). s\<lparr>ss_to_internet := c\<rparr>) (res_ok (try_send (ss_to_internet s) (request, server)))"
| "session_step env s StunTake =
     map_option (\<lambda>(_, rest). s\<lparr>ss_rx := (ss_rx s)\<lparr>stun_rx := rest\<rparr>\<rparr>) (mpsc_try_recv (stun_rx (ss_rx s)))"
| "session_step env s SocketSend =
     map_option (\<lambda>(_, rest). s\<lparr>ss_to_internet := rest\<rparr>) (mpsc_try_recv (ss_to_internet s))"
| "session_step env s LoopbackSend =
     map_option (\<lambda>(_, rest). s\<lparr>ss_local := (ss_local s)\<lparr>lp_sender := rest\<rparr>\<rparr>) (mpsc_try_recv (lp_sender (ss_local s)))"

text \<open>A run of the session with the steps taken so far.\<close>

definition session_run :: "listen_env \<Rightarrow> task_step list \<times> session \<Rightarrow> task_step \<Rightarrow> task_step list \<times> session \<Rightarrow> bool" where
  "session_run env hs l hs' \<longleftrightarrow> fst hs' = fst hs @ [l] \<and> session_step env (snd hs) l = Some (snd hs')"

section \<open>Channel steps\<close>

definition chan_ok :: "'a channel \<Rightarrow> bool" where
  "chan_ok c \<longleftrightarrow> channel_wf c \<and> ch_capacity c = UDP_QUEUE_CAPACITY \<and> \<not> ch_closed c"

lemma try_send_step:
  assumes "res_ok (try_send c x) = Some (c', stored)"
  shows "chan_ok c \<Longrightarrow> chan_ok c'" and "set (ch_items c') \<subseteq> insert x (set (ch_items c))"
  using assms by (auto simp: try_send_eq chan_ok_def channel_wf_def split: if_splits)

lemma send_each_step:
  "res_ok (send_each try_send c xs) = Some c' \<Longrightarrow>
   (chan_ok c \<longrightarrow> chan_ok c') \<and> set (ch_items c') \<subseteq> set (ch_items c) \<union> set xs"
proof (induction xs arbitrary: c)
  case (Cons x xs)
  then obtain c1 b where "res_ok (try_send c x) = Some (c1, b)" "res_ok (send_each try_send c1 xs) = Some c'"
    by (cases "try_send c x") auto
  with Cons.IH [of c1] try_send_step [of c x c1 b] show ?case
    by auto
qed simp

lemma recv_step:
  assumes "mpsc_try_recv c = Some (x, c')"
  shows "chan_ok c \<Longrightarrow> chan_ok c'" and "set (ch_items c) = insert x (set (ch_items c'))"
  using assms by (auto simp: mpsc_try_recv_def chan_ok_def channel_wf_def split: list.splits)

lemma chan_ok_new [simp]: "chan_ok (channel_new UDP_QUEUE_CAPACITY)"
  by (simp add: chan_ok_def channel_new_def channel_wf_def)

definition rx_ok :: "receivers \<Rightarrow> bool" where
  "rx_ok rx \<longleftrightarrow> chan_ok (probe_rx rx) \<and> chan_ok (stun_rx rx) \<and> chan_ok (data_rx rx)"

lemma route_packet_step:
  assumes "res_ok (route_packet classify_packet rx (packet, raw)) = Some rx'"
  shows "rx_ok rx \<Longrightarrow> rx_ok rx'"
    and "set (ch_items (probe_rx rx')) \<subseteq> set (ch_items (probe_rx rx)) \<union>
      (if classify_packet packet = Ok KProbe then {(packet, normalize_ipv4_mapped_source raw)} else {})"
    and "set (ch_items (data_rx rx')) \<subseteq> set (ch_items (data_rx rx)) \<union>
      (if classify_packet packet = Ok KData then {(packet, normalize_ipv4_mapped_source raw)} else {})"
  using assms
  by (auto simp: route_packet_def classify_packet_eq Let_def rx_ok_def try_send_eq chan_ok_def channel_wf_def
      split: if_splits internet_packet_kind.splits)

section \<open>Bounded memory\<close>

definition vetted :: "connection_flags \<Rightarrow> socket_addr set \<Rightarrow> bool" where
  "vetted flags u \<longleftrightarrow> finite u \<and> card u \<le> 64 \<and>
     (\<forall>a\<in>u. is_usable_peer_addr a \<and> (filter_ipv6 flags \<longrightarrow> is_ipv4 (sock_ip a)))"

definition hold_ok :: "connection_flags \<Rightarrow> (bytes option \<times> socket_addr set) option \<Rightarrow> bool" where
  "hold_ok flags h \<longleftrightarrow> (\<forall>token u. h = Some (token, u) \<longrightarrow> vetted flags u \<and> (\<forall>t. token = Some t \<longrightarrow> length t = 16))"

definition session_wf :: "connection_flags \<Rightarrow> session \<Rightarrow> bool" where
  "session_wf flags s \<longleftrightarrow>
     chan_ok (ss_to_internet s) \<and> chan_ok (ss_from_internet s) \<and> chan_ok (ss_from_local s) \<and>
     chan_ok (lp_sender (ss_local s)) \<and> rx_ok (ss_rx s) \<and>
     candidate_wf (ss_connections s) \<and> vetted flags (advertised (ss_connections s)) \<and> probe_wf (ss_probes s) \<and>
     hold_ok flags (hold_replace s) \<and> hold_ok flags (hold_paths s)"

lemma updated_peers_vetted:
  assumes "hash_order iter" and "vetted flags known"
  shows "vetted flags (updated_peers iter flags known msg)"
proof -
  have "finite known" using assms(2) by (simp add: vetted_def)
  from updated_peers_sound [OF assms(1) this, of flags msg] show ?thesis
    using assms(2) advertised_peers_sound [of flags msg] unfolding vetted_def by blast
qed

lemma add_peer_reflexive_advertised [simp]:
  "advertised (fst (add_peer_reflexive cs a)) = advertised cs"
  by (simp add: add_peer_reflexive_def)

lemma replace_advertised_if [simp]:
  "(if advertised cs \<noteq> u then replace_advertised cs u else cs) = replace_advertised cs u"
  by (auto simp: replace_advertised_def)

lemma replace_advertised_sel [simp]:
  "advertised (replace_advertised cs u) = u" "peer_reflexive (replace_advertised cs u) = peer_reflexive cs"
  by (simp_all add: replace_advertised_def)

lemma probe_take_Some:
  assumes "session_step env s (ProbeTake now percent) = Some t"
  obtains packet source rest where "mpsc_try_recv (probe_rx (ss_rx s)) = Some ((packet, source), rest)"
    and "t = s\<lparr>ss_rx := (ss_rx s)\<lparr>probe_rx := rest\<rparr>,
      ss_probes := fst (packet_action now percent (ss_probes s) packet source),
      hold_admit := (if snd (packet_action now percent (ss_probes s) packet source) = EchoAndAdmit
                     then Some (packet, source) else None)\<rparr>"
  using assms by (auto simp: Let_def case_prod_unfold split: option.splits if_splits)

text \<open>The steps that only move a datagram into, between or out of queues.\<close>

definition moves_datagram :: "task_step \<Rightarrow> bool" where
  "moves_datagram l = (case l of SocketReceive _ \<Rightarrow> True | RoutePacket \<Rightarrow> True | LoopbackReceive _ \<Rightarrow> True
     | StunSend _ _ \<Rightarrow> True | StunTake \<Rightarrow> True | SocketSend \<Rightarrow> True | LoopbackSend \<Rightarrow> True
     | ProbeEcho \<Rightarrow> True | InboundForward \<Rightarrow> True | _ \<Rightarrow> False)"

lemma session_wf_move:
  assumes "session_wf flags s" and "session_step env s l = Some t" and "moves_datagram l"
  shows "session_wf flags t"
  using assms try_send_step(1) recv_step(1) route_packet_step(1)
  by (cases l) (fastforce simp: session_wf_def rx_ok_def moves_datagram_def split: option.splits prod.splits)+

lemma session_wf_probe_take:
  assumes "session_wf flags s" and "session_step env s (ProbeTake now percent) = Some t"
  shows "session_wf flags t"
proof -
  obtain packet source rest where recv: "mpsc_try_recv (probe_rx (ss_rx s)) = Some ((packet, source), rest)"
    and t: "t = s\<lparr>ss_rx := (ss_rx s)\<lparr>probe_rx := rest\<rparr>,
      ss_probes := fst (packet_action now percent (ss_probes s) packet source),
      hold_admit := (if snd (packet_action now percent (ss_probes s) packet source) = EchoAndAdmit
                     then Some (packet, source) else None)\<rparr>"
    using assms(2) by (rule probe_take_Some)
  show ?thesis
    using assms(1) recv_step(1) [OF recv] by (simp add: t session_wf_def rx_ok_def packet_action_wf)
qed

lemma session_wf_step:
  assumes order: "hash_order (le_iter env)" and wf: "session_wf (le_flags env) s"
    and step: "session_step env s l = Some t"
  shows "session_wf (le_flags env) t"
proof (cases l)
  case (ProbeTake now percent)
  with wf step session_wf_probe_take show ?thesis by blast
next
  case ProbeAdmit
  with wf step ascending_addresses.candidates.wf_admit show ?thesis
    by (fastforce simp: session_wf_def split: option.splits prod.splits)
next
  case (ProbeSchedule now percent)
  with wf step send_each_step due_frames_wf [of "ss_probes s" "le_iter env" now percent] show ?thesis
    by (fastforce simp: session_wf_def schedule_tick_def Let_def split: option.splits prod.splits)
next
  case InboundTake
  with wf step recv_step(1) show ?thesis
    by (fastforce simp: session_wf_def rx_ok_def split: option.splits prod.splits if_splits)
next
  case OutboundTake
  with wf step recv_step(1) show ?thesis
    by (fastforce simp: session_wf_def split: option.splits prod.splits if_splits)
next
  case OutboundForward
  with wf step send_each_step show ?thesis
    by (fastforce simp: session_wf_def split: option.splits)
next
  case (DhtTake now_system v)
  with wf step updated_peers_vetted [OF order] record_token_16 show ?thesis
    by (auto simp: session_wf_def hold_ok_def split: option.splits if_splits)
next
  case DhtReplace
  with wf step show ?thesis
    by (auto simp: session_wf_def hold_ok_def vetted_def candidate_wf_def
        split: option.splits prod.splits)
next
  case (DhtPaths now)
  with wf step show ?thesis
    by (auto simp: session_wf_def hold_ok_def intro!: update_remote_wf split: option.splits prod.splits)
qed (use session_wf_move [OF wf step] in \<open>simp_all add: moves_datagram_def del: session_step.simps\<close>)

section \<open>Whose packets reach WireGuard\<close>

definition received :: "task_step list \<Rightarrow> bytes \<Rightarrow> socket_addr \<Rightarrow> bool" where
  "received h packet raw \<longleftrightarrow> (\<exists>d. SocketReceive d \<in> set h \<and> packet = take (64 * 1024) (fst d) \<and> raw = snd d)"

definition received_from :: "task_step list \<Rightarrow> bytes \<Rightarrow> socket_addr \<Rightarrow> bool" where
  "received_from h packet source \<longleftrightarrow>
     (\<exists>raw. received h packet raw \<and> source = normalize_ipv4_mapped_source raw)"

text \<open>
  An address is vouched for if a record from the configured peer listed it, or if the socket
  received a frame with this run's token from it.
\<close>

definition vouched :: "listen_env \<Rightarrow> bytes \<Rightarrow> task_step list \<Rightarrow> socket_addr \<Rightarrow> bool" where
  "vouched env token h a \<longleftrightarrow>
     (\<exists>now_system value. DhtTake now_system value \<in> set h \<and> listed_by_peer env [value] a) \<or>
     received_from h (frame token) a"

definition deliverable :: "listen_env \<Rightarrow> bytes \<Rightarrow> task_step list \<Rightarrow> bytes \<Rightarrow> bool" where
  "deliverable env token h packet \<longleftrightarrow>
     (\<exists>a. received_from h packet a \<and> classify_packet packet = Ok KData \<and> vouched env token h a)"

definition session_auth :: "listen_env \<Rightarrow> bytes \<Rightarrow> task_step list \<Rightarrow> session \<Rightarrow> bool" where
  "session_auth env token h s \<longleftrightarrow>
     local_token (ss_probes s) = token \<and>
     (\<forall>(packet, raw) \<in> set (ch_items (ss_from_internet s)). received h packet raw) \<and>
     (\<forall>(packet, a) \<in> set (ch_items (probe_rx (ss_rx s))). received_from h packet a) \<and>
     (\<forall>(packet, a) \<in> set (ch_items (data_rx (ss_rx s))). received_from h packet a \<and> classify_packet packet = Ok KData) \<and>
     (\<forall>a. contains (ss_connections s) a \<longrightarrow> vouched env token h a) \<and>
     (\<forall>packet a. hold_admit s = Some (packet, a) \<longrightarrow> vouched env token h a) \<and>
     (\<forall>tok u. hold_replace s = Some (tok, u) \<longrightarrow> (\<forall>a\<in>u. vouched env token h a)) \<and>
     (\<forall>packet. hold_inbound s = Some packet \<longrightarrow> deliverable env token h packet) \<and>
     (\<forall>(packet, wg) \<in> set (ch_items (lp_sender (ss_local s))). deliverable env token h packet)"

lemma received_mono: "received h p a \<Longrightarrow> received (h @ [l]) p a"
  by (auto simp: received_def)

lemma received_from_mono: "received_from h p a \<Longrightarrow> received_from (h @ [l]) p a"
  using received_mono unfolding received_from_def by blast

lemma vouched_mono: "vouched env token h a \<Longrightarrow> vouched env token (h @ [l]) a"
  using received_from_mono [of h] by (auto simp: vouched_def)

lemma deliverable_mono: "deliverable env token h p \<Longrightarrow> deliverable env token (h @ [l]) p"
  using received_from_mono vouched_mono unfolding deliverable_def by blast

lemma session_auth_mono: "session_auth env token h s \<Longrightarrow> session_auth env token (h @ [l]) s"
  unfolding session_auth_def
  by (intro conjI) (auto intro: received_mono received_from_mono vouched_mono deliverable_mono)

lemma echo_vouched:
  assumes "snd (packet_action now percent st packet source) = EchoAndAdmit" and "received_from h packet source"
  shows "vouched env (local_token st) h source"
  using assms by (auto simp: packet_action_echo parse_frame_iff vouched_def)

lemma updated_vouched:
  assumes "hash_order (le_iter env)" and "finite known" and "\<forall>a\<in>known. vouched env token h a"
    and "accept_value env now_system previous value = Some msg" and "DhtTake now_system value \<in> set h"
    and "a \<in> updated_peers (le_iter env) (le_flags env) known msg"
  shows "vouched env token h a"
proof -
  from updated_peers_sound [OF assms(1,2), of "le_flags env" msg] assms(6)
  consider "a \<in> known" | "a \<in> set (ip_addr_list msg)"
    using advertised_peers_sound [of "le_flags env" msg] by blast
  then show ?thesis
  proof cases
    case 2
    with assms(4) have "listed_by_peer env [value] a"
      by (auto simp: listed_by_peer_def accept_value_Some)
    with assms(5) show ?thesis
      by (auto simp: vouched_def)
  qed (use assms(3) in blast)
qed

text \<open>The steps that only move datagrams between queues.\<close>

definition queue_step :: "task_step \<Rightarrow> bool" where
  "queue_step l = (case l of LoopbackReceive _ \<Rightarrow> True | OutboundTake \<Rightarrow> True | OutboundForward \<Rightarrow> True
     | StunSend _ _ \<Rightarrow> True | StunTake \<Rightarrow> True | SocketSend \<Rightarrow> True | ProbeEcho \<Rightarrow> True | _ \<Rightarrow> False)"

lemma queue_step_frame:
  assumes "queue_step l" and "session_step env s l = Some t"
  shows "ss_connections t = ss_connections s \<and> ss_probes t = ss_probes s \<and>
    lp_sender (ss_local t) = lp_sender (ss_local s) \<and> ss_from_internet t = ss_from_internet s \<and>
    probe_rx (ss_rx t) = probe_rx (ss_rx s) \<and> data_rx (ss_rx t) = data_rx (ss_rx s) \<and>
    hold_admit t = hold_admit s \<and> hold_replace t = hold_replace s \<and> hold_inbound t = hold_inbound s"
  using assms by (cases l) (auto simp: queue_step_def split: option.splits prod.splits if_splits)

lemma session_auth_queue:
  "session_auth env token h s \<Longrightarrow> queue_step l \<Longrightarrow> session_step env s l = Some t \<Longrightarrow> session_auth env token h t"
  using queue_step_frame [of l env s t] by (simp add: session_auth_def)

lemma session_auth_receive:
  assumes "session_auth env token (h @ [l]) s" and "l = SocketReceive d" and "session_step env s l = Some t"
  shows "session_auth env token (h @ [l]) t"
proof -
  let ?d = "(take (64 * 1024) (fst d), snd d)"
  from assms(2,3) obtain c b where c: "res_ok (try_send (ss_from_internet s) ?d) = Some (c, b)"
    and t: "t = s\<lparr>ss_from_internet := c\<rparr>"
    by auto
  have "received (h @ [l]) (fst ?d) (snd ?d)"
    unfolding received_def by (rule exI [of _ d]) (simp add: assms(2))
  with assms(1) try_send_step(2) [OF c] show ?thesis
    unfolding t session_auth_def by fastforce
qed

lemma session_auth_route:
  assumes "session_auth env token h s" and "session_step env s RoutePacket = Some t"
  shows "session_auth env token h t"
proof -
  from assms(2) obtain packet raw rest rx where
    d: "mpsc_try_recv (ss_from_internet s) = Some ((packet, raw), rest)"
    and rx: "res_ok (route_packet classify_packet (ss_rx s) (packet, raw)) = Some rx"
    and t: "t = s\<lparr>ss_from_internet := rest, ss_rx := rx\<rparr>"
    by (auto split: option.splits)
  have "received_from h packet (normalize_ipv4_mapped_source raw)"
    using assms(1) recv_step(2) [OF d] by (auto simp: session_auth_def received_from_def)
  then have "\<forall>(p, a) \<in> set (ch_items (probe_rx rx)). received_from h p a"
    and "\<forall>(p, a) \<in> set (ch_items (data_rx rx)). received_from h p a \<and> classify_packet p = Ok KData"
    using assms(1) route_packet_step(2,3) [OF rx] by (fastforce simp: session_auth_def split: if_splits)+
  then show ?thesis
    using assms(1) recv_step(2) [OF d] by (auto simp: t session_auth_def)
qed

lemma session_auth_probe_take:
  assumes "session_auth env token h s" and "session_step env s (ProbeTake now percent) = Some t"
  shows "session_auth env token h t"
proof -
  obtain packet source rest where recv: "mpsc_try_recv (probe_rx (ss_rx s)) = Some ((packet, source), rest)"
    and t: "t = s\<lparr>ss_rx := (ss_rx s)\<lparr>probe_rx := rest\<rparr>,
      ss_probes := fst (packet_action now percent (ss_probes s) packet source),
      hold_admit := (if snd (packet_action now percent (ss_probes s) packet source) = EchoAndAdmit
                     then Some (packet, source) else None)\<rparr>"
    using probe_take_Some [OF assms(2)] by metis
  have from_socket: "received_from h packet source"
    using assms(1) recv_step(2) [OF recv] by (auto simp: session_auth_def)
  have "local_token (ss_probes s) = token"
    using assms(1) by (simp add: session_auth_def)
  with assms(1) recv_step(2) [OF recv] echo_vouched [OF _ from_socket, of now percent "ss_probes s" env]
  show ?thesis
    by (auto simp: t session_auth_def)
qed

lemma session_auth_inbound_take:
  assumes "session_auth env token h s" and "session_step env s InboundTake = Some t"
  shows "session_auth env token h t"
proof -
  from assms(2) obtain packet source rest where
    recv: "mpsc_try_recv (data_rx (ss_rx s)) = Some ((packet, source), rest)"
    and t: "t = s\<lparr>ss_rx := (ss_rx s)\<lparr>data_rx := rest\<rparr>,
      hold_inbound := (if contains (ss_connections s) source then Some packet else None)\<rparr>"
    by (auto split: option.splits if_splits)
  have "received_from h packet source" "classify_packet packet = Ok KData"
    using assms(1) recv_step(2) [OF recv] by (auto simp: session_auth_def)
  then have "contains (ss_connections s) source \<Longrightarrow> deliverable env token h packet"
    using assms(1) by (auto simp: session_auth_def deliverable_def)
  then show ?thesis
    using assms(1) recv_step(2) [OF recv] by (auto simp: t session_auth_def)
qed

lemma session_auth_inbound_forward:
  assumes "session_auth env token h s" and "session_step env s InboundForward = Some t"
  shows "session_auth env token h t"
proof (cases "lp_addr (ss_local s)")
  case None
  with assms show ?thesis
    by (auto simp: session_auth_def split: option.splits)
next
  case (Some wg)
  with assms(2) obtain packet c b where p: "hold_inbound s = Some packet"
    and c: "res_ok (try_send (lp_sender (ss_local s)) (packet, wg)) = Some (c, b)"
    and t: "t = s\<lparr>ss_local := (ss_local s)\<lparr>lp_sender := c\<rparr>, hold_inbound := None\<rparr>"
    by (auto split: option.splits)
  have "deliverable env token h packet"
    using assms(1) p by (simp add: session_auth_def)
  then have "\<forall>(p, wg) \<in> set (ch_items c). deliverable env token h p"
    using assms(1) try_send_step(2) [OF c] by (fastforce simp: session_auth_def)
  then show ?thesis
    using assms(1) by (simp add: t session_auth_def)
qed

lemma session_auth_dht_take:
  assumes "hash_order (le_iter env)" and "session_wf (le_flags env) s"
    and "session_auth env token h s" and "DhtTake now_system v \<in> set h"
    and "session_step env s (DhtTake now_system v) = Some t"
  shows "session_auth env token h t"
proof (cases "accept_value env now_system (ss_last_timestamp s) v")
  case None
  with assms(3,5) show ?thesis by (auto split: if_splits)
next
  case (Some msg)
  have "finite (advertised (ss_connections s))"
    using assms(2) by (simp add: session_wf_def vetted_def)
  moreover have "\<forall>a\<in>advertised (ss_connections s). vouched env token h a"
    using assms(3) by (simp add: session_auth_def contains_def)
  ultimately have "\<forall>a\<in>updated_peers (le_iter env) (le_flags env) (advertised (ss_connections s)) msg.
      vouched env token h a"
    using updated_vouched [OF assms(1) _ _ Some assms(4)] by blast
  with Some assms(3,5) show ?thesis
    by (auto simp: session_auth_def split: if_splits)
qed

lemma session_auth_local:
  assumes "session_auth env token h s" and "session_step env s l = Some t"
    and "l \<in> {ProbeAdmit, DhtReplace, DhtPaths now, ProbeSchedule now percent, LoopbackSend}"
  shows "session_auth env token h t"
proof -
  consider "l = ProbeAdmit" | "l = DhtReplace" | "l = DhtPaths now" | "l = ProbeSchedule now percent" | "l = LoopbackSend"
    using assms(3) by blast
  then show ?thesis
  proof cases
    case 1
    with assms(1,2) show ?thesis
      by (auto simp: session_auth_def ascending_addresses.candidates.admit_member split: option.splits)
  next
    case 2
    with assms(1,2) show ?thesis by (auto simp: session_auth_def contains_def split: option.splits)
  next
    case 3
    with assms(1,2) show ?thesis by (auto simp: session_auth_def split: option.splits)
  next
    case 4
    with assms(1,2) show ?thesis
      by (auto simp: session_auth_def schedule_tick_def Let_def case_prod_unfold due_frames_fields)
  next
    case 5
    with assms(1,2) show ?thesis by (auto simp: session_auth_def dest!: recv_step(2))
  qed
qed

lemma session_auth_step:
  assumes order: "hash_order (le_iter env)" and wf: "session_wf (le_flags env) s"
    and old: "session_auth env token h s" and step: "session_step env s l = Some t"
  shows "session_auth env token (h @ [l]) t"
proof (cases "queue_step l")
  case True
  then show ?thesis
    using session_auth_queue [OF session_auth_mono [OF old] _ step] by blast
next
  case False
  note auth = session_auth_mono [OF old, of l] and by_local = session_auth_local [OF session_auth_mono [OF old, of l] step]
  show ?thesis
  proof (cases l)
    case (SocketReceive d)
    show ?thesis by (rule session_auth_receive [OF auth SocketReceive step])
  next
    case RoutePacket
    show ?thesis by (rule session_auth_route [OF auth step [unfolded RoutePacket]])
  next
    case (ProbeTake now percent)
    show ?thesis by (rule session_auth_probe_take [OF auth step [unfolded ProbeTake]])
  next
    case InboundTake
    show ?thesis by (rule session_auth_inbound_take [OF auth step [unfolded InboundTake]])
  next
    case InboundForward
    show ?thesis by (rule session_auth_inbound_forward [OF auth step [unfolded InboundForward]])
  next
    case (DhtTake now_system v)
    show ?thesis
      by (rule session_auth_dht_take [OF order wf auth _ step [unfolded DhtTake]]) (simp add: DhtTake)
  qed (use False by_local in \<open>simp_all add: queue_step_def del: session_step.simps\<close>)
qed

lemma session_new_wf:
  assumes "setup_peer b64_decode flags res p i = Ok su" and "length (pr_token res) = 16"
  shows "session_wf flags (session_new su)" and "session_auth env (pr_token res) [] (session_new su)"
proof -
  have su: "su_connections su = candidate_set_default" "su_probes su = probe_new (pr_token res)"
    "su_local_peer su = \<lparr>lp_sender = channel_new UDP_QUEUE_CAPACITY, lp_addr = None\<rparr>"
    "su_to_internet su = channel_new UDP_QUEUE_CAPACITY" "su_receivers su = receivers_new"
    using assms(1) by (auto simp: setup_peer_def bind_loopback_def Let_def result_simps)
  show "session_wf flags (session_new su)"
    using assms(2)
    by (simp add: su session_new_def session_wf_def rx_ok_def receivers_new_def hold_ok_def probe_new_wf)
      (simp add: vetted_def candidate_set_default_def)
  show "session_auth env (pr_token res) [] (session_new su)"
    by (simp add: su session_new_def session_auth_def receivers_new_def channel_new_def)
      (simp add: probe_new_def)
qed

text \<open>The sessions of a connection, with the steps they took.\<close>

definition session_initial :: "listen_env \<Rightarrow> bytes \<Rightarrow> task_step list \<times> session \<Rightarrow> bool" where
  "session_initial env token hs \<longleftrightarrow> fst hs = [] \<and> length token = 16 \<and>
     (\<exists>b64_decode res p i su. setup_peer b64_decode (le_flags env) res p i = Ok su \<and>
        pr_token res = token \<and> snd hs = session_new su)"

interpretation running: invariant_system "session_initial env token"
    "\<lambda>hs l hs'. hash_order (le_iter env) \<and> session_run env hs l hs'"
    "\<lambda>hs. session_wf (le_flags env) (snd hs) \<and> session_auth env token (fst hs) (snd hs)" for env token
proof
  fix hs hs' :: "task_step list \<times> session" and l
  show "session_initial env token hs \<Longrightarrow>
      session_wf (le_flags env) (snd hs) \<and> session_auth env token (fst hs) (snd hs)"
    using session_new_wf by (auto simp: session_initial_def)
  show "session_wf (le_flags env) (snd hs) \<and> session_auth env token (fst hs) (snd hs) \<Longrightarrow>
      hash_order (le_iter env) \<and> session_run env hs l hs' \<Longrightarrow>
      session_wf (le_flags env) (snd hs') \<and> session_auth env token (fst hs') (snd hs')"
    using session_wf_step session_auth_step by (auto simp: session_run_def)
qed

section \<open>Executions\<close>

fun session_exec :: "listen_env \<Rightarrow> session \<Rightarrow> task_step list \<Rightarrow> session option" where
  "session_exec env s [] = Some s"
| "session_exec env s (l # ls) = (case session_step env s l of None \<Rightarrow> None | Some t \<Rightarrow> session_exec env t ls)"

lemma session_exec_steps:
  "hash_order (le_iter env) \<Longrightarrow> session_exec env s ls = Some t \<Longrightarrow>
   steps (\<lambda>hs l hs'. hash_order (le_iter env) \<and> session_run env hs l hs') (h, s) ls (h @ ls, t)"
proof (induction ls arbitrary: s h)
  case (Cons l ls)
  then obtain u where u: "session_step env s l = Some u" "session_exec env u ls = Some t"
    by (auto simp del: session_step.simps split: option.splits)
  have "session_run env (h, s) l (h @ [l], u)"
    using u(1) by (simp add: session_run_def)
  with Cons.IH [OF Cons.prems(1) u(2), of "h @ [l]"] Cons.prems(1) show ?case
    by (auto intro: steps.intros)
qed simp

lemma session_exec_inv:
  assumes "hash_order (le_iter env)" and "setup_peer b64_decode (le_flags env) res p i = Ok su"
    and "length (pr_token res) = 16" and "session_exec env (session_new su) ls = Some s"
  shows "session_wf (le_flags env) s \<and> session_auth env (pr_token res) ls s"
proof -
  have "session_initial env (pr_token res) ([], session_new su)"
    using assms(2,3) unfolding session_initial_def by auto blast
  from running.inv_reachable [OF this session_exec_steps [OF assms(1,4), of "[]", simplified]] show ?thesis
    by simp
qed

text \<open>
  \<^bold>\<open>C24\<close>. A running connection uses bounded memory: in every state that any interleaving of its
  tasks reaches, whatever the Internet, the DHT and WireGuard send, every queue holds at most
  256 datagrams, at most 64 advertised and 64 peer-reflexive candidates are kept, at most 64
  probe paths and at most 256 reply sources; and no queue is ever closed by a task step.
\<close>

theorem session_bounded:
  assumes "hash_order (le_iter env)" and "setup_peer b64_decode (le_flags env) res p i = Ok su"
    and "length (pr_token res) = 16" and "session_exec env (session_new su) ls = Some s"
  shows "list_all (\<lambda>c. length (ch_items c) \<le> 256 \<and> \<not> ch_closed c)
      [ss_to_internet s, ss_from_internet s, ss_from_local s, lp_sender (ss_local s),
       probe_rx (ss_rx s), stun_rx (ss_rx s), data_rx (ss_rx s)] \<and>
    card (advertised (ss_connections s)) \<le> 64 \<and> card (peer_reflexive (ss_connections s)) \<le> 64 \<and>
    card (dom (paths (ss_probes s))) \<le> 64 \<and> card (dom (reply_sources (ss_probes s))) \<le> 256"
  using session_exec_inv [OF assms]
  by (simp add: session_wf_def chan_ok_def channel_wf_def rx_ok_def vetted_def candidate_wf_def probe_wf_def
      UDP_QUEUE_CAPACITY_def MAX_PEER_REFLEXIVE_CANDIDATES_def MAX_PROBE_PATHS_def MAX_REPLY_SOURCES_def)

text \<open>
  \<^bold>\<open>C1\<close>. Only vouched-for traffic reaches WireGuard: under any interleaving of the tasks, a
  packet queued for WireGuard is the payload of a datagram that arrived on the Internet socket
  and is neither a control frame nor STUN-shaped, and its source address was listed in a record
  that decrypted under the configured peer's key, or had sent a frame with this run's token.
\<close>

theorem only_vouched_traffic:
  assumes "hash_order (le_iter env)" and "setup_peer b64_decode (le_flags env) res p i = Ok su"
    and "length (pr_token res) = 16" and "session_exec env (session_new su) ls = Some s"
    and "(packet, wireguard) \<in> set (ch_items (lp_sender (ss_local s)))"
  shows "\<exists>d source. SocketReceive d \<in> set ls \<and> packet = take (64 * 1024) (fst d) \<and>
    source = normalize_ipv4_mapped_source (snd d) \<and> classify_packet packet = Ok KData \<and>
    ((\<exists>now_system value. DhtTake now_system value \<in> set ls \<and> listed_by_peer env [value] source) \<or>
     (\<exists>d'. SocketReceive d' \<in> set ls \<and> take (64 * 1024) (fst d') = frame (pr_token res) \<and>
        normalize_ipv4_mapped_source (snd d') = source))"
proof -
  have "deliverable env (pr_token res) ls packet"
    using session_exec_inv [OF assms(1-4)] assms(5) by (auto simp: session_auth_def)
  then show ?thesis
    unfolding deliverable_def received_from_def received_def vouched_def by metis
qed

section \<open>Uninterrupted tasks\<close>

text \<open>One iteration of each task as the code writes it, on the shared state of the session.\<close>

definition inbound_iteration :: "session \<Rightarrow> session option" where
  "inbound_iteration s =
     (case mpsc_try_recv (data_rx (ss_rx s)) of
        None \<Rightarrow> None
      | Some (d, rest) \<Rightarrow>
          map_option (\<lambda>lp. s\<lparr>ss_rx := (ss_rx s)\<lparr>data_rx := rest\<rparr>, ss_local := lp\<rparr>)
            (res_ok (forward_inbound (ss_connections s) (ss_local s) d)))"

definition outbound_iteration :: "listen_env \<Rightarrow> session \<Rightarrow> session option" where
  "outbound_iteration env s =
     (case mpsc_try_recv (ss_from_local s) of
        None \<Rightarrow> None
      | Some (d, rest) \<Rightarrow>
          (let (lp, queued) = loopback_forward (le_iter env) (ss_connections s) (ss_local s) (ss_to_internet s) d
           in map_option (\<lambda>c. s\<lparr>ss_from_local := rest, ss_local := lp, ss_to_internet := c\<rparr>) (res_ok queued)))"

definition probe_iteration :: "instant \<Rightarrow> nat \<Rightarrow> session \<Rightarrow> session option" where
  "probe_iteration now percent s =
     (case mpsc_try_recv (probe_rx (ss_rx s)) of
        None \<Rightarrow> None
      | Some (d, rest) \<Rightarrow>
          (let ((st, cs, tx), r) = handle_packet now percent (ss_probes s, ss_connections s, ss_to_internet s) d
           in map_option (\<lambda>_. s\<lparr>ss_rx := (ss_rx s)\<lparr>probe_rx := rest\<rparr>, ss_probes := st, ss_connections := cs,
                                ss_to_internet := tx\<rparr>) (res_ok r)))"

definition dht_iteration :: "listen_env \<Rightarrow> system_time \<Rightarrow> instant \<Rightarrow> bytes \<Rightarrow> session \<Rightarrow> session" where
  "dht_iteration env now_system now value s =
     (let ls = listen_value env now_system now
            \<lparr>last_timestamp = ss_last_timestamp s, ls_connections = ss_connections s, ls_probes = ss_probes s\<rparr> value
      in s\<lparr>ss_last_timestamp := last_timestamp ls, ss_connections := ls_connections ls, ss_probes := ls_probes ls\<rparr>)"

definition idle :: "session \<Rightarrow> bool" where
  "idle s \<longleftrightarrow> hold_inbound s = None \<and> hold_outbound s = None \<and> hold_admit s = None \<and> hold_echo s = None \<and>
     hold_replace s = None \<and> hold_paths s = None"

text \<open>Running a task's remaining steps while it holds something.\<close>

definition continue_if :: "(session \<Rightarrow> 'a option) \<Rightarrow> listen_env \<Rightarrow> task_step list \<Rightarrow> session \<Rightarrow> session option" where
  "continue_if held env ls s = (if held s = None then Some s else session_exec env s ls)"

lemma inbound_refines:
  "idle s \<Longrightarrow> Option.bind (session_step env s InboundTake) (continue_if hold_inbound env [InboundForward]) =
     inbound_iteration s"
  by (auto simp: idle_def continue_if_def inbound_iteration_def forward_inbound_def try_send_eq
      split: option.splits)

lemma outbound_refines:
  "idle s \<Longrightarrow> Option.bind (session_step env s OutboundTake) (continue_if hold_outbound env [OutboundForward]) =
     outbound_iteration env s"
  by (auto simp: idle_def continue_if_def outbound_iteration_def loopback_forward_def Let_def
      split: option.splits)

lemma probe_refines:
  assumes "idle s"
  shows "Option.bind (session_step env s (ProbeTake now percent)) (continue_if hold_admit env [ProbeAdmit, ProbeEcho]) =
     probe_iteration now percent s"
proof (cases "mpsc_try_recv (probe_rx (ss_rx s))")
  case None
  with assms show ?thesis by (simp add: idle_def probe_iteration_def)
next
  case (Some a)
  then obtain packet source rest where d: "mpsc_try_recv (probe_rx (ss_rx s)) = Some ((packet, source), rest)"
    by (metis surj_pair)
  obtain st action where act: "packet_action now percent (ss_probes s) packet source = (st, action)"
    by fastforce
  with assms d show ?thesis
    by (cases action) (auto simp: idle_def probe_iteration_def continue_if_def handle_packet_def try_send_eq Let_def)
qed

lemma dht_refines:
  assumes "idle s"
  shows "Option.bind (session_step env s (DhtTake now_system v)) (continue_if hold_replace env [DhtReplace, DhtPaths now]) =
     Some (dht_iteration env now_system now v s)"
  using assms
  by (auto simp: idle_def continue_if_def dht_iteration_def listen_value_def Let_def split: option.splits)


section \<open>A concrete session\<close>

definition sample_peer :: peer where
  "sample_peer = \<lparr>peer_local_port = 10001, peer_public_key = sample_key, peer_name = None\<rparr>"

definition sample_su :: peer_setup where
  "sample_su = \<lparr>su_remote_key = PublicKey (replicate 32 65), su_local_port = 4000, su_nat_mapping = None,
     su_gather_ipv6 = False, su_probes = probe_new (replicate 16 1), su_connections = candidate_set_default,
     su_local_peer = \<lparr>lp_sender = channel_new UDP_QUEUE_CAPACITY, lp_addr = None\<rparr>,
     su_to_internet = channel_new UDP_QUEUE_CAPACITY, su_receivers = receivers_new\<rparr>"

lemma sample_setup_peer_token:
  "setup_peer sample_b64_decode (le_flags sample_env) (sample_resources\<lparr>pr_token := token\<rparr>) sample_peer 0 =
     Ok (sample_su\<lparr>su_probes := probe_new token\<rparr>)"
  by (simp add: setup_peer_def parse_peer_key_def public_key_try_from_def decode_base64_key_def sample_key_decodes
      sample_peer_def sample_resources_def sample_socket_opens sample_env_def sample_su_def del: replicate.simps)

lemma sample_setup_peer: "setup_peer sample_b64_decode (le_flags sample_env) sample_resources sample_peer 0 = Ok sample_su"
  using sample_setup_peer_token [of "replicate 16 1"] by (simp add: sample_resources_def sample_su_def del: replicate.simps)

lemma sample_token: "pr_token sample_resources = replicate 16 1" "length (pr_token sample_resources) = 16"
  by (simp_all add: sample_resources_def)

text \<open>A peer punches through with a frame, WireGuard sends a packet, and the peer answers.\<close>

definition sample_steps :: "socket_addr \<Rightarrow> task_step list" where
  "sample_steps a =
     [SocketReceive (frame (replicate 16 1), a), RoutePacket, ProbeTake 0 100, ProbeAdmit, ProbeEcho,
      LoopbackReceive ([5], SockV4 0x7F000001 7), OutboundTake, OutboundForward,
      SocketReceive ([9], a), RoutePacket, InboundTake, InboundForward]"

lemma sample_frame: "take 65536 (frame (replicate 16 1)) = frame (replicate 16 1)"
  "classify_packet (frame (replicate 16 1)) = Ok KProbe"
  by (simp_all add: length_frame classify_packet_eq)

lemma sample_data: "classify_packet [9] = Ok KData"
  by (simp add: classify_packet_eq classify_def starts_with_def MAGIC_def)

lemma sample_echo:
  "packet_action 0 100 (probe_new (replicate 16 1)) (frame (replicate 16 1)) a =
     (probe_new (replicate 16 1)\<lparr>reply_sources := [a \<mapsto> 0]\<rparr>, EchoAndAdmit)"
  by (simp add: packet_action_def probe_new_def retain_recent_def MAX_REPLY_SOURCES_def Let_def)

lemma sample_run:
  assumes "normalize_ipv4_mapped_source a = a"
  shows "\<exists>s. session_exec sample_env (session_new sample_su) (sample_steps a) = Some s \<and>
    ch_items (lp_sender (ss_local s)) = [([9], SockV4 0x7F000001 7)] \<and> contains (ss_connections s) a \<and>
    ch_items (ss_to_internet s) = [(frame (replicate 16 1), a), ([5], a)]"
  by (simp add: sample_steps_def session_new_def sample_su_def try_send_eq channel_new_def receivers_new_def
      UDP_QUEUE_CAPACITY_def mpsc_try_recv_def route_packet_def sample_frame sample_data assms sample_echo
      add_peer_reflexive_def contains_def candidate_set_default_def MAX_PEER_REFLEXIVE_CANDIDATES_def
      addresses_def sample_env_def del: replicate.simps take_replicate)

theorem session_bounded_witness:
  "\<exists>s. session_exec sample_env (session_new sample_su) (sample_steps (SockV4 9 9)) = Some s \<and>
     card (peer_reflexive (ss_connections s)) \<le> 64"
proof -
  have "normalize_ipv4_mapped_source (SockV4 9 9) = SockV4 9 9"
    by (simp add: normalize_ipv4_mapped_source_def)
  then obtain s where "session_exec sample_env (session_new sample_su) (sample_steps (SockV4 9 9)) = Some s"
    using sample_run by blast
  with session_bounded [OF sample_order sample_setup_peer sample_token(2) this] show ?thesis
    by blast
qed

theorem only_vouched_traffic_witness:
  "\<exists>d source. SocketReceive d \<in> set (sample_steps (SockV4 9 9)) \<and> [9] = take (64 * 1024) (fst d) \<and>
    source = normalize_ipv4_mapped_source (snd d) \<and> classify_packet [9] = Ok KData \<and>
    ((\<exists>now_system value. DhtTake now_system value \<in> set (sample_steps (SockV4 9 9)) \<and>
        listed_by_peer sample_env [value] source) \<or>
     (\<exists>d'. SocketReceive d' \<in> set (sample_steps (SockV4 9 9)) \<and> take (64 * 1024) (fst d') = frame (pr_token sample_resources) \<and>
        normalize_ipv4_mapped_source (snd d') = source))"
proof -
  have "normalize_ipv4_mapped_source (SockV4 9 9) = SockV4 9 9"
    by (simp add: normalize_ipv4_mapped_source_def)
  then obtain s where s: "session_exec sample_env (session_new sample_su) (sample_steps (SockV4 9 9)) = Some s"
    "ch_items (lp_sender (ss_local s)) = [([9], SockV4 0x7F000001 7)]"
    using sample_run by blast
  show ?thesis
    by (rule only_vouched_traffic [OF sample_order sample_setup_peer sample_token(2) s(1)]) (simp add: s(2))
qed




end
