(* ===== verification/Keygen.thy ===== *)
theory Keygen
  imports Crypto Config Utils
begin

text \<open>
  \<open>src/keygen.rs\<close>: generating a key pair into files. The file system maps paths to regular
  files, symbolic links and directories; opening a file follows the flags that \<open>OpenOptions\<close>
  passes to the operating system (Unix), a file handle is a path with an offset, and the
  outcome of each write is an argument.
\<close>

section \<open>Files\<close>

datatype fs_node = RegularFile string u16 | SymlinkNode string | DirectoryNode

record file_system =
  fs_nodes :: "string \<rightharpoonup> fs_node"
  fs_denied :: "string \<Rightarrow> bool"
  fs_umask :: u16

record open_options =
  oo_create :: bool
  oo_truncate :: bool
  oo_create_new :: bool
  oo_mode :: u16
  oo_nofollow :: bool

definition open_options_new :: open_options where
  "open_options_new = \<lparr>oo_create = False, oo_truncate = False, oo_create_new = False, oo_mode = 0x1B6,
     oo_nofollow = False\<rparr>"

text \<open>
  \<open>OpenOptions::open\<close> for writing: the new file system and the path of the opened file. A
  path that is denied has no writable parent or is not writable itself. A link that is
  followed opens its target, one level deep as far as the program can observe it.
\<close>

definition create_file :: "open_options \<Rightarrow> file_system \<Rightarrow> string \<Rightarrow> file_system" where
  "create_file opts fs path =
     fs\<lparr>fs_nodes := (fs_nodes fs)(path \<mapsto> RegularFile [] (oo_mode opts AND NOT (fs_umask fs)))\<rparr>"

definition open_existing :: "open_options \<Rightarrow> file_system \<Rightarrow> string \<Rightarrow> (file_system \<times> string, error) result" where
  "open_existing opts fs path =
     (case fs_nodes fs path of
        Some (RegularFile content mode) \<Rightarrow>
          Ok (if oo_truncate opts then fs\<lparr>fs_nodes := (fs_nodes fs)(path \<mapsto> RegularFile [] mode)\<rparr> else fs, path)
      | Some (SymlinkNode _) \<Rightarrow> Err (IoError OtherKind ''too many levels of symbolic links'')
      | Some DirectoryNode \<Rightarrow> Err (IoError OtherKind ''is a directory'')
      | None \<Rightarrow>
          if oo_create opts then Ok (create_file opts fs path, path)
          else Err (IoError NotFound ''no such file or directory''))"

definition open_file :: "open_options \<Rightarrow> file_system \<Rightarrow> string \<Rightarrow> (file_system \<times> string, error) result" where
  "open_file opts fs path =
     (if fs_denied fs path then Err (IoError PermissionDenied ''permission denied'')
      else if oo_create_new opts then
        (case fs_nodes fs path of
           None \<Rightarrow> Ok (create_file opts fs path, path)
         | Some _ \<Rightarrow> Err (IoError AlreadyExists ''file exists''))
      else
        (case fs_nodes fs path of
           Some (SymlinkNode target) \<Rightarrow>
             if oo_nofollow opts then Err (IoError OtherKind ''too many levels of symbolic links'')
             else if fs_denied fs target then Err (IoError PermissionDenied ''permission denied'')
             else open_existing opts fs target
         | _ \<Rightarrow> open_existing opts fs path))"

text \<open>\<open>set_permissions\<close> on an open file.\<close>

definition set_mode :: "u16 \<Rightarrow> file_system \<Rightarrow> string \<Rightarrow> file_system" where
  "set_mode mode fs path =
     (case fs_nodes fs path of
        Some (RegularFile content _) \<Rightarrow> fs\<lparr>fs_nodes := (fs_nodes fs)(path \<mapsto> RegularFile content mode)\<rparr>
      | _ \<Rightarrow> fs)"

text \<open>
  \<open>write_all\<close> through a fresh handle: the bytes go to offset 0. A failing write reports an
  error after some of the bytes were written.
\<close>

type_synonym write_outcome = "(error \<times> nat) option"

definition write_at_start :: "string \<Rightarrow> file_system \<Rightarrow> string \<Rightarrow> file_system" where
  "write_at_start text fs path =
     (case fs_nodes fs path of
        Some (RegularFile content mode) \<Rightarrow>
          fs\<lparr>fs_nodes := (fs_nodes fs)(path \<mapsto> RegularFile (text @ drop (length text) content) mode)\<rparr>
      | _ \<Rightarrow> fs)"

definition write_all :: "write_outcome \<Rightarrow> string \<Rightarrow> file_system \<Rightarrow> string \<Rightarrow> file_system \<times> (unit, error) result" where
  "write_all outcome text fs path =
     (case outcome of
        None \<Rightarrow> (write_at_start text fs path, Ok ())
      | Some (e, n) \<Rightarrow> (write_at_start (take n text) fs path, Err e))"

section \<open>Opening the key files\<close>

definition configure_output_file :: "open_options \<Rightarrow> bool \<Rightarrow> open_options" where
  "configure_output_file opts override_files =
     (if override_files then opts\<lparr>oo_create := True, oo_truncate := True\<rparr> else opts\<lparr>oo_create_new := True\<rparr>)"

text \<open>Both openers return the file system as they left it, also when they fail. Reading the
  metadata of the opened file and changing its permissions can fail (\<open>metadata\<close>, \<open>chmod\<close>).\<close>

definition open_private_key_file ::
    "(unit, error) result \<Rightarrow> (unit, error) result \<Rightarrow> gen_flags \<Rightarrow> file_system \<Rightarrow> string \<Rightarrow>
     file_system \<times> (string, error) result" where
  "open_private_key_file metadata chmod flags fs path =
     (let opts = configure_output_file open_options_new (gf_override_files flags);
          opts = (if \<not> gf_insecure_priv flags then opts\<lparr>oo_mode := 0x180\<rparr> else opts);
          opts = (if gf_override_files flags then opts\<lparr>oo_nofollow := True\<rparr> else opts) in
      (case with_context ''Failed to open private key file for writing'' (open_file opts fs path) of
         Inl e \<Rightarrow> (fs, Err e)
       | Inr (fs', file) \<Rightarrow>
           if \<not> gf_insecure_priv flags then
             (case metadata of
                Inl e \<Rightarrow> (fs', Err e)
              | Inr _ \<Rightarrow>
                  (case with_context ''Failed to set security permissions for private key file'' chmod of
                     Inl e \<Rightarrow> (fs', Err e)
                   | Inr _ \<Rightarrow> (set_mode 0x180 fs' file, Ok file)))
           else (fs', Ok file)))"

definition open_output_file ::
    "bool \<Rightarrow> string \<Rightarrow> file_system \<Rightarrow> string \<Rightarrow> file_system \<times> (string, error) result" where
  "open_output_file override_files description fs path =
     (let opts = configure_output_file open_options_new override_files;
          opts = (if override_files then opts\<lparr>oo_nofollow := True\<rparr> else opts) in
      (case with_context (''Failed to open '' @ description @ '' file for writing'') (open_file opts fs path) of
         Inl e \<Rightarrow> (fs, Err e)
       | Inr (fs', file) \<Rightarrow> (fs', Ok file)))"

definition public_path_of :: "gen_flags \<Rightarrow> string option" where
  "public_path_of flags =
     (case gf_pub_path flags of
        Some p \<Rightarrow> Some p
      | None \<Rightarrow> map_option (\<lambda>path. path @ ''.pub'') (gf_path flags))"

definition open_key_files ::
    "(unit, error) result \<Rightarrow> (unit, error) result \<Rightarrow> gen_flags \<Rightarrow> file_system \<Rightarrow>
     file_system \<times> (string option \<times> string option, error) result" where
  "open_key_files metadata chmod flags fs =
     (let (fs1, private_file) =
            (case gf_path flags of
               None \<Rightarrow> (fs, Ok None)
             | Some path \<Rightarrow> (let (fs', r) = open_private_key_file metadata chmod flags fs path in (fs', rmap Some r))) in
      (case private_file of
         Inl e \<Rightarrow> (fs1, Err e)
       | Inr private \<Rightarrow>
           (case public_path_of flags of
              None \<Rightarrow> (fs1, Ok (private, None))
            | Some path \<Rightarrow>
                (let (fs2, r) = open_output_file (gf_override_files flags) ''public key'' fs1 path
                 in (fs2, rmap (\<lambda>file. (private, Some file)) r)))))"

section \<open>Generating a key\<close>

record gen_env =
  ge_b64_encode :: b64_encoder
  ge_b64_decode :: b64_decoder
  ge_derive :: "bytes \<Rightarrow> bytes"
  ge_random :: bytes
  ge_metadata :: "(unit, error) result"
  ge_chmod :: "(unit, error) result"
  ge_write_private :: write_outcome
  ge_write_public :: write_outcome
  ge_write_stdout :: write_outcome

text \<open>\<open>generate\<close>: the file system, what was printed to standard output, and the result.\<close>

definition generate :: "gen_env \<Rightarrow> gen_flags \<Rightarrow> file_system \<Rightarrow> file_system \<times> string \<times> (unit, error) result" where
  "generate env flags fs =
     (let (secret_key, secret_text, public_key) =
            generate_secret_key_base64 (ge_b64_encode env) (ge_derive env) (ge_random env);
          (fs1, files) = open_key_files (ge_metadata env) (ge_chmod env) flags fs in
      (case files of
         Inl e \<Rightarrow> (fs1, [], Err e)
       | Inr (private_file, public_file) \<Rightarrow>
           (let (fs2, out, r) =
                  (case private_file of
                     Some file \<Rightarrow>
                       (let (fs', r) = write_all (ge_write_private env) secret_text fs1 file
                        in (fs', [], with_context ''Failed to write base64 to secret key file'' r))
                   | None \<Rightarrow>
                       (case ge_write_stdout env of
                          None \<Rightarrow> (fs1, secret_text @ [CHR 0x0A], Ok ())
                        | Some (e, n) \<Rightarrow> (fs1, take n (secret_text @ [CHR 0x0A]), with_context ''Failed to write secret key to stdout'' (Err e)))) in
            (case r of
               Inl e \<Rightarrow> (fs2, out, Err e)
             | Inr _ \<Rightarrow>
                 (let (fs3, r) =
                        (case public_file of
                           Some file \<Rightarrow> write_all (ge_write_public env) (public_key_display (ge_b64_encode env) public_key) fs2 file
                         | None \<Rightarrow> (fs2, Ok ())) in
                  (case with_context ''Failed to write base64 to public key file'' r of
                     Inl e \<Rightarrow> (fs3, out, Err e)
                   | Inr _ \<Rightarrow>
                       (case secret_key_try_from (ge_b64_decode env) secret_text of
                          Inl _ \<Rightarrow> (fs3, out, Err Panic)
                        | Inr _ \<Rightarrow> (fs3, out, Ok ()))))))))"

section \<open>What opening does\<close>

text \<open>
  When an output file can be opened: a regular file only with override, a link or a directory
  never. The file is then empty; a new one gets the requested mode less the umask.
\<close>

definition openable :: "bool \<Rightarrow> file_system \<Rightarrow> string \<Rightarrow> bool" where
  "openable override_files fs path \<longleftrightarrow> \<not> fs_denied fs path \<and>
     (case fs_nodes fs path of None \<Rightarrow> True | Some (RegularFile _ _) \<Rightarrow> override_files | Some _ \<Rightarrow> False)"

definition file_mode :: "u16 \<Rightarrow> file_system \<Rightarrow> string \<Rightarrow> u16" where
  "file_mode mode fs path =
     (case fs_nodes fs path of Some (RegularFile _ m) \<Rightarrow> m | _ \<Rightarrow> mode AND NOT (fs_umask fs))"

definition open_failure :: "bool \<Rightarrow> file_system \<Rightarrow> string \<Rightarrow> error" where
  "open_failure ov fs path =
     (if fs_denied fs path then IoError PermissionDenied ''permission denied''
      else if \<not> ov then IoError AlreadyExists ''file exists''
      else if fs_nodes fs path = Some DirectoryNode then IoError OtherKind ''is a directory''
      else IoError OtherKind ''too many levels of symbolic links'')"

definition store :: "string \<Rightarrow> string \<Rightarrow> u16 \<Rightarrow> file_system \<Rightarrow> file_system" where
  "store path content mode fs = fs\<lparr>fs_nodes := (fs_nodes fs)(path \<mapsto> RegularFile content mode)\<rparr>"

lemma store_simps [simp]:
  "fs_nodes (store path content mode fs) = (fs_nodes fs)(path \<mapsto> RegularFile content mode)"
  "fs_denied (store path content mode fs) = fs_denied fs"
  "fs_umask (store path content mode fs) = fs_umask fs"
  "store path content' mode' (store path content mode fs) = store path content' mode' fs"
  "set_mode mode' (store path content mode fs) path = store path content mode' fs"
  by (simp_all add: store_def set_mode_def)

lemma open_file_configured:
  "open_file ((configure_output_file open_options_new ov)\<lparr>oo_mode := mode, oo_nofollow := ov\<rparr>) fs path =
     (if openable ov fs path then Ok (store path [] (file_mode mode fs path) fs, path)
      else Err (open_failure ov fs path))"
  by (cases ov) (auto simp: open_file_def openable_def configure_output_file_def open_options_new_def
      open_existing_def create_file_def store_def file_mode_def open_failure_def split: option.splits fs_node.splits)

lemma open_failure_context [simp]:
  "with_context msg (Err (open_failure ov fs path)) = Err (Context msg (open_failure ov fs path))"
  by (simp add: open_failure_def)

lemma private_options:
  "(let opts = configure_output_file open_options_new ov;
        opts = (if secure then opts\<lparr>oo_mode := 0x180\<rparr> else opts) in
    if ov then opts\<lparr>oo_nofollow := True\<rparr> else opts) =
   (configure_output_file open_options_new ov)\<lparr>oo_mode := (if secure then 0x180 else 0x1B6), oo_nofollow := ov\<rparr>"
  by (simp add: configure_output_file_def open_options_new_def)

lemma open_output_file_eq:
  "open_output_file ov description fs path =
     (if openable ov fs path then (store path [] (file_mode 0x1B6 fs path) fs, Ok path)
      else (fs, Err (Context (''Failed to open '' @ description @ '' file for writing'') (open_failure ov fs path))))"
  using private_options [of ov False] open_file_configured [of ov "0x1B6" fs path]
  by (simp add: open_output_file_def Let_def)

text \<open>The mode of the private key file once it is open.\<close>

definition private_mode :: "gen_flags \<Rightarrow> file_system \<Rightarrow> string \<Rightarrow> u16" where
  "private_mode flags fs path = (if gf_insecure_priv flags then file_mode 0x1B6 fs path else 0x180)"

definition secured :: "gen_flags \<Rightarrow> (unit, error) result \<Rightarrow> (unit, error) result \<Rightarrow> bool" where
  "secured flags metadata chmod \<longleftrightarrow> gf_insecure_priv flags \<or> metadata = Ok () \<and> chmod = Ok ()"

lemma open_private_key_file_eq:
  "secured flags metadata chmod \<Longrightarrow>
   open_private_key_file metadata chmod flags fs path =
     (if openable (gf_override_files flags) fs path then (store path [] (private_mode flags fs path) fs, Ok path)
      else (fs, Err (Context ''Failed to open private key file for writing''
                       (open_failure (gf_override_files flags) fs path))))"
  using private_options [of "gf_override_files flags" "\<not> gf_insecure_priv flags"]
    open_file_configured [of "gf_override_files flags" "if gf_insecure_priv flags then 0x1B6 else 0x180" fs path]
  by (auto simp: open_private_key_file_def Let_def private_mode_def secured_def)

lemma open_private_key_file_not_secured:
  "\<not> secured flags metadata chmod \<Longrightarrow> \<exists>fs' e. open_private_key_file metadata chmod flags fs path = (fs', Err e)"
  by (auto simp: open_private_key_file_def Let_def secured_def split: sum.split)

lemma write_all_empty:
  "fs_nodes fs path = Some (RegularFile [] mode) \<Longrightarrow>
   write_all outcome content fs path =
     (case outcome of None \<Rightarrow> (store path content mode fs, Ok ())
                    | Some (e, n) \<Rightarrow> (store path (take n content) mode fs, Err e))"
  by (simp add: write_all_def write_at_start_def store_def split: option.split)

lemma store_commute:
  "path \<noteq> pub \<Longrightarrow> store path a m (store pub b n fs) = store pub b n (store path a m fs)"
  by (simp add: store_def fun_upd_twist)

lemma open_failure_store [simp]: "path \<noteq> pub \<Longrightarrow> open_failure ov (store path a m fs) pub = open_failure ov fs pub"
  by (simp add: open_failure_def)

lemma openable_store [simp]: "path \<noteq> pub \<Longrightarrow> openable ov (store path a m fs) pub = openable ov fs pub"
  by (simp add: openable_def)

lemma file_mode_store [simp]: "path \<noteq> pub \<Longrightarrow> file_mode mode (store path a m fs) pub = file_mode mode fs pub"
  by (simp add: file_mode_def split: option.split fs_node.split)

text \<open>Both files open: each is empty, and nothing else has changed.\<close>

lemma open_key_files_eq:
  assumes "gf_path flags = Some path" and "public_path_of flags = Some pub" and "path \<noteq> pub"
    and "secured flags metadata chmod"
  shows "open_key_files metadata chmod flags fs =
    (if \<not> openable (gf_override_files flags) fs path
     then (fs, Err (Context ''Failed to open private key file for writing'' (open_failure (gf_override_files flags) fs path)))
     else if \<not> openable (gf_override_files flags) fs pub
     then (store path [] (private_mode flags fs path) fs,
           Err (Context ''Failed to open public key file for writing'' (open_failure (gf_override_files flags) fs pub)))
     else (store pub [] (file_mode 0x1B6 fs pub) (store path [] (private_mode flags fs path) fs),
           Ok (Some path, Some pub)))"
  using assms by (simp add: open_key_files_def open_private_key_file_eq open_output_file_eq)

lemma generate_opened:
  assumes "open_key_files (ge_metadata env) (ge_chmod env) flags fs = (fs', Ok (Some path, Some pub))"
    and "fs_nodes fs' path = Some (RegularFile [] m)" and "fs_nodes fs' pub = Some (RegularFile [] n)"
    and "path \<noteq> pub" and "b64_inverse (ge_b64_encode env) (ge_b64_decode env)" and "length (ge_random env) = 32"
    and "ge_write_private env = None" and "ge_write_public env = None"
  shows "generate env flags fs =
    (store pub (ge_b64_encode env (ge_derive env (ge_random env))) n
       (store path (ge_b64_encode env (ge_random env)) m fs'), [], Ok ())"
  using assms
  by (simp add: generate_def generate_secret_key_base64_def Let_def write_all_empty public_key_display_def
      public_key_of_def secret_key_try_from_def decode_base64_key_def b64_inverse_def)

lemma generate_write_failed:
  assumes "open_key_files (ge_metadata env) (ge_chmod env) flags fs = (fs', Ok (Some path, Some pub))"
    and "ge_write_private env \<noteq> None \<or> ge_write_public env \<noteq> None"
  shows "\<exists>e. snd (snd (generate env flags fs)) = Err e"
  using assms by (auto simp: generate_def Let_def write_all_def split: prod.split option.split sum.split)

lemma generate_open_failed:
  "open_key_files (ge_metadata env) (ge_chmod env) flags fs = (fs', Err e) \<Longrightarrow>
   generate env flags fs = (fs', [], Err e)"
  by (simp add: generate_def Let_def split: prod.split)

lemma generate_fails:
  assumes "gf_path flags = Some path" and "public_path_of flags = Some pub" and "path \<noteq> pub"
    and "\<not> (openable (gf_override_files flags) fs path \<and> openable (gf_override_files flags) fs pub \<and>
      secured flags (ge_metadata env) (ge_chmod env) \<and> ge_write_private env = None \<and> ge_write_public env = None)"
  shows "\<exists>e. snd (snd (generate env flags fs)) = Err e"
proof (cases "\<exists>fs' e. open_key_files (ge_metadata env) (ge_chmod env) flags fs = (fs', Err e)")
  case True
  then show ?thesis
    by (auto dest: generate_open_failed)
next
  case False
  have secured: "secured flags (ge_metadata env) (ge_chmod env)"
  proof (rule ccontr)
    assume "\<not> secured flags (ge_metadata env) (ge_chmod env)"
    then obtain fs' e where "open_private_key_file (ge_metadata env) (ge_chmod env) flags fs path = (fs', Err e)"
      using open_private_key_file_not_secured by blast
    with assms(1) False show False
      by (simp add: open_key_files_def)
  qed
  show ?thesis
    using False assms(4) secured open_key_files_eq [OF assms(1-3) secured, of fs]
    by (auto split: if_splits intro: generate_write_failed)
qed

section \<open>A key pair is stored whole\<close>

text \<open>
  \<^bold>\<open>C39\<close>. Generating a key pair into files succeeds exactly when both paths can be opened (a
  missing file, or with override a regular file; never a symbolic link), the private file can
  be secured and both writes succeed. Then the private file holds the text of the fresh secret
  key and nothing of what it held before, with mode 0600 unless the insecure option was given,
  also when the file existed with a wider mode; the public file holds the text of the matching
  public key; every other file is as before and nothing is printed.
\<close>

theorem generate_stores_key_pair:
  assumes "gf_path flags = Some path" and "public_path_of flags = Some pub" and "path \<noteq> pub"
    and "b64_inverse (ge_b64_encode env) (ge_b64_decode env)" and "length (ge_random env) = 32"
  shows "generate env flags fs = (fs', out, Ok ()) \<longleftrightarrow>
    openable (gf_override_files flags) fs path \<and> openable (gf_override_files flags) fs pub \<and>
    secured flags (ge_metadata env) (ge_chmod env) \<and> ge_write_private env = None \<and> ge_write_public env = None \<and>
    out = [] \<and>
    fs' = fs\<lparr>fs_nodes := (fs_nodes fs)
      (path \<mapsto> RegularFile (ge_b64_encode env (ge_random env))
         (if gf_insecure_priv flags then file_mode 0x1B6 fs path else 0x180),
       pub \<mapsto> RegularFile (ge_b64_encode env (ge_derive env (ge_random env))) (file_mode 0x1B6 fs pub))\<rparr>"
    (is "_ \<longleftrightarrow> ?opens \<and> ?opens' \<and> ?secured \<and> ?wr \<and> ?wr' \<and> _ \<and> fs' = ?fs'")
proof (cases "?opens \<and> ?opens' \<and> ?secured \<and> ?wr \<and> ?wr'")
  case True
  have "?fs' = store pub (ge_b64_encode env (ge_derive env (ge_random env))) (file_mode 0x1B6 fs pub)
      (store path (ge_b64_encode env (ge_random env)) (private_mode flags fs path) fs)"
    by (simp add: store_def private_mode_def)
  moreover have "generate env flags fs = (\<dots>, [], Ok ())"
    using True assms
    by (subst generate_opened) (auto simp: open_key_files_eq store_commute)
  ultimately show ?thesis
    using True by auto
next
  case False
  then have "\<exists>e. snd (snd (generate env flags fs)) = Err e"
    using assms by (intro generate_fails) auto
  with False show ?thesis
    by auto
qed

text \<open>
  \<^bold>\<open>C40\<close>. A key pair whose files cannot both be opened is not announced: the command fails and
  prints no key. When the private path cannot be opened, as with a symbolic link, no file
  changes. When the private path opens and the public one does not, the private file is left
  behind empty; with override this destroys the previous key although no new one is stored.
\<close>

theorem generate_open_errors:
  assumes "gf_path flags = Some path" and "public_path_of flags = Some pub" and "path \<noteq> pub"
    and "secured flags (ge_metadata env) (ge_chmod env)"
  shows "(\<not> openable (gf_override_files flags) fs path \<longrightarrow>
      generate env flags fs = (fs, [], Err (Context ''Failed to open private key file for writing''
        (open_failure (gf_override_files flags) fs path)))) \<and>
    (openable (gf_override_files flags) fs path \<and> \<not> openable (gf_override_files flags) fs pub \<longrightarrow>
      (\<exists>fs'. generate env flags fs = (fs', [], Err (Context ''Failed to open public key file for writing''
           (open_failure (gf_override_files flags) fs pub))) \<and>
         fs_nodes fs' = (fs_nodes fs)(path \<mapsto> RegularFile [] (private_mode flags fs path))))"
  using open_key_files_eq [OF assms, of fs]
  by (auto simp: generate_open_failed)

text \<open>A directory with a key, a link and a directory in the way of the public key.\<close>

definition sample_fs :: file_system where
  "sample_fs = \<lparr>fs_nodes = [''key'' \<mapsto> RegularFile ''previous'' 0x1A4, ''link'' \<mapsto> SymlinkNode ''key'',
     ''pub'' \<mapsto> DirectoryNode], fs_denied = (\<lambda>_. False), fs_umask = 0x12\<rparr>"

definition sample_gen_flags :: gen_flags where
  "sample_gen_flags = \<lparr>gf_path = Some ''key'', gf_pub_path = None, gf_insecure_priv = False, gf_override_files = True\<rparr>"

definition sample_gen_env :: gen_env where
  "sample_gen_env = \<lparr>ge_b64_encode = sample_b64_encode, ge_b64_decode = sample_b64_decode, ge_derive = rev,
     ge_random = replicate 32 65, ge_metadata = Ok (), ge_chmod = Ok (), ge_write_private = None,
     ge_write_public = None, ge_write_stdout = None\<rparr>"

theorem generate_stores_key_pair_witness:
  "fs_nodes (fst (generate sample_gen_env sample_gen_flags sample_fs)) ''key'' =
     Some (RegularFile (sample_b64_encode (replicate 32 65)) 0x180) \<and>
   fs_nodes (fst (generate sample_gen_env sample_gen_flags sample_fs)) ''key.pub'' =
     Some (RegularFile (sample_b64_encode (rev (replicate 32 65))) 0x1A4)"
proof -
  have "\<exists>fs'. generate sample_gen_env sample_gen_flags sample_fs = (fs', [], Ok ()) \<and>
      fs_nodes fs' = (fs_nodes sample_fs)(''key'' \<mapsto> RegularFile (sample_b64_encode (replicate 32 65)) 0x180,
        ''key.pub'' \<mapsto> RegularFile (sample_b64_encode (rev (replicate 32 65))) 0x1A4)"
    using generate_stores_key_pair [of sample_gen_flags "''key''" "''key.pub''" sample_gen_env sample_fs _ "[]"] sample_b64
    by (simp add: sample_gen_flags_def sample_gen_env_def public_path_of_def secured_def openable_def file_mode_def
        sample_fs_def del: replicate.simps)
  then show ?thesis
    by auto
qed

theorem generate_open_errors_witness:
  "fs_nodes (fst (generate sample_gen_env (sample_gen_flags\<lparr>gf_pub_path := Some ''pub''\<rparr>) sample_fs)) ''key'' =
     Some (RegularFile [] 0x180) \<and>
   fst (generate sample_gen_env (sample_gen_flags\<lparr>gf_path := Some ''link''\<rparr>) sample_fs) = sample_fs"
  using generate_open_errors [of "sample_gen_flags\<lparr>gf_pub_path := Some ''pub''\<rparr>" "''key''" "''pub''" sample_gen_env sample_fs]
    generate_open_errors [of "sample_gen_flags\<lparr>gf_path := Some ''link''\<rparr>" "''link''" "''link.pub''" sample_gen_env sample_fs]
  by (auto simp: sample_gen_flags_def sample_gen_env_def public_path_of_def secured_def openable_def private_mode_def
      sample_fs_def simp del: replicate.simps)

end
