(* ===== verification/App.thy ===== *)
theory App
  imports Session Keygen
begin

text \<open>
  \<open>src/app.rs\<close> and \<open>src/main.rs\<close>: the four commands and the two diagnostics. The command line
  comes parsed, loading its tunnel files may have failed; what the operating system, the DHT crate and the
  network return are arguments collected in \<open>app_env\<close>. Logging has no effect on the result.
\<close>

section \<open>Diagnostics\<close>

text \<open>
  \<open>run_stun\<close>: what it logs as the public addresses; \<open>None\<close> when the gathering task stopped
  before it announced anything. Whatever it learns, the command succeeds once its socket is open.
\<close>

definition run_stun :: "socket_calls \<Rightarrow> gather_round list \<Rightarrow> (socket_addr list option, error) result" where
  "run_stun calls rounds =
     rbind (open_internet_socket calls 0) (\<lambda>port.
     (case fst (start_stun_candidates
            \<lparr>st_local_port = port, st_gather_ipv6 = True, st_nat_mapping = None, st_run_once = True\<rparr> rounds) of
        [] \<Rightarrow> Ok None
      | (addrs, _) # _ \<Rightarrow> Ok (Some addrs)))"

text \<open>\<open>run_dht_diagnostic\<close>: how many values it received back, and how it ends.\<close>

definition run_dht_diagnostic ::
    "'d dht_crate \<Rightarrow> (socket_addr list \<Rightarrow> string) \<Rightarrow> dht_flags \<Rightarrow> (nat, error) result" where
  "run_dht_diagnostic crate debug_addrs flags =
     rbind (start_dht crate debug_addrs flags) (\<lambda>dht.
     (let key = [9, 9, 9]; value = [1, 1, 1, 2] in
      rbind (dht_put crate dht key value) (\<lambda>dht'.
      Ok (length (dht_get crate dht' key)))))"

section \<open>The program\<close>

record 'd app_env =
  ae_gen :: gen_env
  ae_socket :: socket_calls
  ae_rounds :: "gather_round list"
  ae_crate :: "'d dht_crate"
  ae_debug_addrs :: "socket_addr list \<Rightarrow> string"
  ae_b64_decode :: b64_decoder
  ae_resources :: "nat \<Rightarrow> nat \<Rightarrow> peer_resources"
  ae_failures :: "monitor option"

text \<open>
  \<open>create_logger\<close>: a logger is the test that its level filter applies to a record. \<open>slog\<close> orders
  the levels by severity; the filter passes what is at least as severe as its own level.
\<close>

datatype log_level = LogCritical | LogError | LogWarning | LogInfo | LogDebug | LogTrace

fun log_verbosity :: "log_level \<Rightarrow> nat" where
  "log_verbosity LogCritical = 1"
| "log_verbosity LogError = 2"
| "log_verbosity LogWarning = 3"
| "log_verbosity LogInfo = 4"
| "log_verbosity LogDebug = 5"
| "log_verbosity LogTrace = 6"

definition create_logger :: "bool \<Rightarrow> log_level \<Rightarrow> bool" where
  "create_logger chatty record_level =
     (let level = (if chatty then LogDebug else LogInfo) in log_verbosity record_level \<le> log_verbosity level)"

text \<open>\<open>app::run\<close>: the file system afterwards, what was printed, and the result.\<close>

definition app_run ::
    "'d app_env \<Rightarrow> (cli_config, error) result \<Rightarrow> file_system \<Rightarrow> file_system \<times> string \<times> (unit, error) result" where
  "app_run env cli fs =
     (case cli of
        Inl e \<Rightarrow> (fs, [], Err e)
      | Inr config \<Rightarrow>
          (case cli_command config of
             Generate flags \<Rightarrow> generate (ae_gen env) flags fs
           | StunCommand flags \<Rightarrow> (fs, [], rmap (\<lambda>_. ()) (run_stun (ae_socket env) (ae_rounds env)))
           | DhtCommand flags \<Rightarrow>
               (fs, [], rmap (\<lambda>_. ()) (run_dht_diagnostic (ae_crate env) (ae_debug_addrs env) flags))
           | Run cmd \<Rightarrow>
               (fs, [], Err (fst (run_service (ae_b64_decode env) (ae_crate env) (ae_debug_addrs env) cmd
                  (ae_resources env) (ae_failures env))))))"

text \<open>\<open>main\<close>: \<open>build\<close> is the result of building the runtime.\<close>

definition app_main ::
    "(unit, error) result \<Rightarrow> 'd app_env \<Rightarrow> (cli_config, error) result \<Rightarrow> file_system \<Rightarrow>
     file_system \<times> string \<times> (unit, error) result" where
  "app_main build env cli fs =
     (case build of Inl e \<Rightarrow> (fs, [], Err e) | Inr _ \<Rightarrow> app_run env cli fs)"

section \<open>Facts\<close>

text \<open>Errors, warnings and information are always logged, debug output only on request.\<close>

lemma create_logger_levels:
  "create_logger chatty LogError" "create_logger chatty LogWarning" "create_logger chatty LogInfo"
  "create_logger chatty LogDebug \<longleftrightarrow> chatty" "\<not> create_logger chatty LogTrace"
  by (simp_all add: create_logger_def)

lemma run_stun_reports:
  assumes "open_internet_socket calls 0 = Ok port" and "gather_once True port None r = Ok (addrs, delay)"
  shows "run_stun calls (r # rounds) = Ok (Some addrs)"
  using assms by (simp add: run_stun_def start_stun_candidates_def)

lemma app_run_files:
  "(\<And>config flags. cli = Ok config \<Longrightarrow> cli_command config \<noteq> Generate flags) \<Longrightarrow> fst (app_run env cli fs) = fs"
  by (auto simp: app_run_def split: sum.splits command.splits)

lemma app_run_service_fails:
  "cli_command config = Run cmd \<Longrightarrow> \<exists>e. snd (snd (app_run env (Ok config) fs)) = Err e"
  by (simp add: app_run_def)

end
