(* ===== verification/Tunnel.thy ===== *)
theory Tunnel
  imports App
begin

text \<open>
  Two running connections facing each other: what a record published by one peer does at the
  other, and how the control frames of one make the other admit it. The DHT hands values over
  and the network hands datagrams over; each host sees them under the source address the
  network shows it.
\<close>

section \<open>From the publisher to the listener\<close>

text \<open>The DHT key a publisher puts its records under, and the one a listener listens on.\<close>

definition publish_key :: "(bytes \<Rightarrow> bytes) \<Rightarrow> secret_key \<Rightarrow> public_key \<Rightarrow> bytes" where
  "publish_key derive private_key remote_key = dht_key (public_key_of derive private_key) remote_key"

definition listen_key :: "(bytes \<Rightarrow> bytes) \<Rightarrow> secret_key \<Rightarrow> public_key \<Rightarrow> bytes" where
  "listen_key derive private_key remote_key = dht_key remote_key (public_key_of derive private_key)"

text \<open>\<open>serde_json\<close> reads back what it wrote.\<close>

definition json_inverse ::
    "(message \<Rightarrow> (bytes, error) result) \<Rightarrow> (bytes \<Rightarrow> (message, string) result) \<Rightarrow> bool" where
  "json_inverse to_vec from_slice \<longleftrightarrow> (\<forall>msg bs. to_vec msg = Ok bs \<longrightarrow> from_slice bs = Ok msg)"

lemma keys_meet:
  "publish_key derive b (public_key_of derive a) = listen_key derive a (public_key_of derive b)"
  by (simp add: publish_key_def listen_key_def)

lemma published_decrypts:
  assumes "box_agreement derive seal unseal" and "length nonce = 24"
    and "publish_record to_vec seal (crypto_box_new (public_key_of derive a) b) token ts nonce addrs = Ok value"
  shows "\<exists>plaintext. to_vec \<lparr>timestamp = ts, ip_addr_list = addrs, msg_control = Some \<lparr>probe_token = token\<rparr>\<rparr> = Ok plaintext \<and>
    decrypt unseal (crypto_box_new (public_key_of derive b) a) value = Some plaintext"
  using assms
  by (auto simp: publish_record_def encrypt_def encrypt_with_nonce_Ok result_simps decrypt_Some crypto_box_new_def
      public_key_of_def box_agreement_def) blast

lemma published_accepted:
  assumes "box_agreement derive seal (le_unseal env)" and "json_inverse to_vec (le_from_slice env)"
    and "le_box env = crypto_box_new (public_key_of derive b) a" and "length nonce = 24"
    and "publish_record to_vec seal (crypto_box_new (public_key_of derive a) b) token ts nonce addrs = Ok value"
    and "is_fresh_dht_timestamp ts now_system" and "\<And>seen. previous = Some seen \<Longrightarrow> seen < ts"
  shows "accept_value env now_system previous value =
    Some \<lparr>timestamp = ts, ip_addr_list = addrs, msg_control = Some \<lparr>probe_token = token\<rparr>\<rparr>"
  using published_decrypts [OF assms(1,4,5)] assms(2,3,6,7)
  by (auto simp: accept_value_Some json_inverse_def is_fresh_iff)

lemma published_token:
  assumes "b64_inverse b64_encode (le_b64_decode env)" and "length (local_token st) = 16"
    and "msg_control msg = Some \<lparr>probe_token = local_token_base64 b64_encode st\<rparr>"
  shows "record_token env msg = Some (local_token st)"
  using assms by (simp add: record_token_def decode_token_def local_token_base64_def b64_inverse_def)

lemma advertised_updated:
  "advertised_peers flags msg \<subseteq> updated_peers iter flags known msg"
  using advertised_peers_sound [of flags msg]
    select_paths_bounds [of "advertised_peers flags msg" "retained_known_connections iter known (filter_ipv6 flags)"]
  by (simp add: updated_peers_def Let_def fill_candidates_select MAX_PROBE_PATHS_def)

text \<open>The three steps of the listener on an accepted record.\<close>

lemma dht_steps:
  assumes "hold_replace s = None" and "hold_paths s = None"
    and "accept_value env now_system (ss_last_timestamp s) value = Some msg"
  shows "session_exec env s [DhtTake now_system value, DhtReplace, DhtPaths now] =
    (let updated = updated_peers (le_iter env) (le_flags env) (advertised (ss_connections s)) msg
     in Some (s\<lparr>ss_last_timestamp := Some (timestamp msg),
        ss_connections := replace_advertised (ss_connections s) updated,
        ss_probes := update_remote now (ss_probes s) (record_token env msg) (le_iter env updated),
        hold_replace := None, hold_paths := None\<rparr>))"
  using assms by (auto simp: Let_def replace_advertised_def)

text \<open>
  What a published record does to a connection that has not seen a newer one: the candidates
  and paths are those of \<open>u\<close>, which contains the first 64 usable addresses of the record.
\<close>

lemma record_applied:
  assumes crates: "box_agreement derive seal (le_unseal env)" "json_inverse to_vec (le_from_slice env)"
      "b64_inverse b64_encode (le_b64_decode env)" "hash_order (le_iter env)"
    and pair: "le_box env = crypto_box_new (public_key_of derive b) a"
    and published: "length nonce = 24" "length (local_token st) = 16"
      "publish_record to_vec seal (crypto_box_new (public_key_of derive a) b) (local_token_base64 b64_encode st)
         ts nonce addrs = Ok value"
    and fresh: "is_fresh_dht_timestamp ts now_system" "\<And>seen. ss_last_timestamp s = Some seen \<Longrightarrow> seen < ts"
    and s: "session_wf (le_flags env) s" "hold_replace s = None" "hold_paths s = None"
  obtains u where "session_exec env s [DhtTake now_system value, DhtReplace, DhtPaths now] =
      Some (s\<lparr>ss_last_timestamp := Some ts, ss_connections := replace_advertised (ss_connections s) u,
        ss_probes := update_remote now (ss_probes s) (Some (local_token st)) (le_iter env u),
        hold_replace := None, hold_paths := None\<rparr>)"
    and "select_paths {} (le_iter env u) = u"
    and "set (take 64 (filter is_usable_peer_addr
      (filter (\<lambda>a. \<not> filter_ipv6 (le_flags env) \<or> is_ipv4 (sock_ip a)) addrs))) \<subseteq> u"
proof -
  define msg where "msg = \<lparr>timestamp = ts, ip_addr_list = addrs,
    msg_control = Some \<lparr>probe_token = local_token_base64 b64_encode st\<rparr>\<rparr>"
  define u where "u = updated_peers (le_iter env) (le_flags env) (advertised (ss_connections s)) msg"
  have accepted: "accept_value env now_system (ss_last_timestamp s) value = Some msg"
    unfolding msg_def using published_accepted [OF crates(1,2) pair published(1,3) fresh(1)] fresh(2) by blast
  have token: "record_token env msg = Some (local_token st)"
    using published_token [OF crates(3) published(2)] by (simp add: msg_def)
  have "finite (advertised (ss_connections s))"
    using s(1) by (simp add: session_wf_def candidate_wf_def)
  note sound = updated_peers_sound [OF crates(4) this, of "le_flags env" msg, folded u_def]
  show ?thesis
  proof (rule that)
    show "session_exec env s [DhtTake now_system value, DhtReplace, DhtPaths now] =
      Some (s\<lparr>ss_last_timestamp := Some ts, ss_connections := replace_advertised (ss_connections s) u,
        ss_probes := update_remote now (ss_probes s) (Some (local_token st)) (le_iter env u),
        hold_replace := None, hold_paths := None\<rparr>)"
      using dht_steps [OF s(2,3) accepted, of now] unfolding u_def [symmetric] token Let_def by (simp add: msg_def)
    show "select_paths {} (le_iter env u) = u"
      using sound hash_order.iter_set [OF crates(4)] by (simp add: select_paths_all MAX_PROBE_PATHS_def)
    show "set (take 64 (filter is_usable_peer_addr
        (filter (\<lambda>a. \<not> filter_ipv6 (le_flags env) \<or> is_ipv4 (sock_ip a)) addrs))) \<subseteq> u"
      using advertised_updated [of "le_flags env" msg "le_iter env" "advertised (ss_connections s)"]
      by (simp add: u_def [symmetric] advertised_peers_def MAX_REMOTE_CANDIDATES_def msg_def [THEN arg_cong, of ip_addr_list]
          del: filter_filter)
  qed
qed

section \<open>From the prober to the answer\<close>

text \<open>A connection whose receive side has nothing in progress.\<close>

definition quiet :: "session \<Rightarrow> bool" where
  "quiet s \<longleftrightarrow> idle s \<and> ch_items (ss_from_internet s) = [] \<and> ch_items (probe_rx (ss_rx s)) = [] \<and>
     ch_items (data_rx (ss_rx s)) = []"

lemmas queue_simps = chan_ok_def rx_ok_def try_send_eq mpsc_try_recv_def UDP_QUEUE_CAPACITY_def

lemma session_exec_wf:
  "hash_order (le_iter env) \<Longrightarrow> session_wf (le_flags env) s \<Longrightarrow> session_exec env s ls = Some s' \<Longrightarrow>
   session_wf (le_flags env) s'"
proof (induction ls arbitrary: s)
  case (Cons l ls)
  then show ?case
    by (auto simp del: session_step.simps split: option.splits intro: session_wf_step)
qed simp

lemma frame_routes:
  "length token = 16 \<Longrightarrow> take 65536 (frame token) = frame token"
  "length token = 16 \<Longrightarrow> classify_packet (frame token) = Ok KProbe"
  by (simp_all add: length_frame classify_packet_eq)

lemma answer_probe:
  assumes "session_wf flags s" and "quiet s" and "ch_items (ss_to_internet s) = []" and "length token = 16"
    and "packet_action now percent (ss_probes s) (frame token) (normalize_ipv4_mapped_source raw) = (st, EchoAndAdmit)"
  shows "\<exists>s'. session_exec env s
      [SocketReceive (frame token, raw), RoutePacket, ProbeTake now percent, ProbeAdmit, ProbeEcho] = Some s' \<and>
    ss_connections s' = fst (add_peer_reflexive (ss_connections s) (normalize_ipv4_mapped_source raw)) \<and>
    ch_items (ss_to_internet s') = [(frame token, normalize_ipv4_mapped_source raw)] \<and>
    ss_local s' = ss_local s \<and> ss_from_local s' = ss_from_local s \<and> quiet s'"
  using assms
  by (simp add: session_wf_def quiet_def idle_def queue_simps frame_routes route_packet_def Let_def)

lemma take_acknowledgement:
  assumes "session_wf flags s" and "quiet s" and "length token = 16"
    and "packet_action now percent (ss_probes s) (frame token) (normalize_ipv4_mapped_source raw) = (st, Acknowledged)"
  shows "\<exists>s'. session_exec env s [SocketReceive (frame token, raw), RoutePacket, ProbeTake now percent] = Some s' \<and>
    ss_probes s' = st \<and> ss_to_internet s' = ss_to_internet s \<and> ss_connections s' = ss_connections s \<and> quiet s' \<and>
    ss_local s' = ss_local s \<and> ss_from_local s' = ss_from_local s"
  using assms
  by (simp add: session_wf_def quiet_def idle_def queue_simps frame_routes route_packet_def Let_def)

lemma deliver_data:
  assumes "session_wf flags s" and "quiet s" and "contains (ss_connections s) (normalize_ipv4_mapped_source raw)"
    and "classify_packet packet = Ok KData" and "length packet \<le> 65536"
    and "lp_addr (ss_local s) = Some wg" and "length (ch_items (lp_sender (ss_local s))) < UDP_QUEUE_CAPACITY"
  shows "\<exists>s'. session_exec env s [SocketReceive (packet, raw), RoutePacket, InboundTake, InboundForward] = Some s' \<and>
    ch_items (lp_sender (ss_local s')) = ch_items (lp_sender (ss_local s)) @ [(packet, wg)] \<and>
    ss_probes s' = ss_probes s \<and> ss_to_internet s' = ss_to_internet s"
  using assms
  by (simp add: session_wf_def quiet_def idle_def queue_simps route_packet_def Let_def)

text \<open>A controller answers a source it has not answered within the last second, while it has room.\<close>

definition willing :: "instant \<Rightarrow> probe_state \<Rightarrow> socket_addr \<Rightarrow> bool" where
  "willing now st source \<longleftrightarrow> retain_recent now (reply_sources st) source = None \<and>
     card (dom (retain_recent now (reply_sources st))) < MAX_REPLY_SOURCES"

lemma willing_echoes:
  assumes "willing now st source" and "length (local_token st) = 16"
  shows "\<exists>st'. packet_action now percent st (frame (local_token st)) source = (st', EchoAndAdmit)"
  using assms by (simp add: packet_action_def willing_def Let_def)

lemma outstanding_acknowledges:
  assumes "remote_token st = Some token" and "length token = 16" and "local_token st \<noteq> token"
    and "paths st source = Some p" and "outstanding p \<noteq> None"
  shows "\<exists>st' p'. packet_action now percent st (frame token) source = (st', Acknowledged) \<and>
    paths st' source = Some p' \<and> verified p' \<and> last_control_response p' = Some now"
  using assms by (auto simp: packet_action_def Let_def)

lemma path_due_sends:
  "next_probe p \<le> now \<Longrightarrow> snd (path_due now percent p) \<and> outstanding (fst (path_due now percent p)) = Some now"
  by (simp add: path_due_def Let_def)

text \<open>A tick of the scheduler on an empty send queue sends every frame that is due.\<close>

lemma schedule_sends:
  assumes "hash_order (le_iter env)" and "session_wf flags s" and "ch_items (ss_to_internet s) = []"
    and "remote_token (ss_probes s) = Some token" and "paths (ss_probes s) a = Some p" and "next_probe p \<le> now"
  shows "\<exists>s'. session_step env s (ProbeSchedule now percent) = Some s' \<and>
    (frame token, a) \<in> set (ch_items (ss_to_internet s')) \<and>
    paths (ss_probes s') a = Some (fst (path_due now (percent a) p)) \<and>
    remote_token (ss_probes s') = Some token \<and> local_token (ss_probes s') = local_token (ss_probes s) \<and>
    (quiet s \<longrightarrow> quiet s') \<and> length (ch_items (ss_to_internet s')) \<le> 64 \<and>
    ss_connections s' = ss_connections s \<and> ss_local s' = ss_local s \<and> ss_from_local s' = ss_from_local s"
proof -
  let ?ps = "paths (ss_probes s)"
  let ?due = "filter (\<lambda>a. case ?ps a of None \<Rightarrow> False | Some p \<Rightarrow> snd (path_due now (percent a) p)) (le_iter env (dom ?ps))"
  have wf: "probe_wf (ss_probes s)" and ch: "chan_ok (ss_to_internet s)"
    using assms(2) by (auto simp: session_wf_def)
  have fin: "finite (dom ?ps)" and few: "card (dom ?ps) \<le> 64"
    using wf by (auto simp: probe_wf_def MAX_PROBE_PATHS_def)
  note closed = due_frames_closed [OF assms(1) fin assms(4), of now percent]
  obtain q where q: "send_each try_send (ss_to_internet s) (map (Pair (frame token)) ?due) = Ok q"
    using send_each_open [of "ss_to_internet s" "map (Pair (frame token)) ?due"] ch by (auto simp: chan_ok_def)
  have short: "length ?due \<le> 64"
    using few length_filter_le [of _ "le_iter env (dom ?ps)"]
    unfolding hash_order.iter_length [OF assms(1) fin] by (rule order_trans [rotated])
  from short have items: "ch_items q = map (Pair (frame token)) ?due"
    using udp_queue.send_each_contents [OF _ q] ch assms(3) by (simp add: chan_ok_def UDP_QUEUE_CAPACITY_def)
  have "a \<in> set ?due"
    using assms(5,6) path_due_sends hash_order.iter_set [OF assms(1) fin] by auto
  with items have sent: "(frame token, a) \<in> set (ch_items q)"
    by auto
  let ?st = "(ss_probes s)\<lparr>paths := (\<lambda>a. map_option (\<lambda>p. fst (path_due now (percent a) p)) (?ps a))\<rparr>"
  have "schedule_tick (le_iter env) now percent (ss_probes s) (ss_to_internet s) = (?st, Ok q)"
    unfolding schedule_tick_def closed using q by simp
  then have "session_step env s (ProbeSchedule now percent) = Some (s\<lparr>ss_probes := ?st, ss_to_internet := q\<rparr>)"
    by simp
  then show ?thesis
    using sent short items assms(4,5) by (simp add: quiet_def idle_def)
qed

section \<open>WireGuard's packets\<close>

lemma session_exec_append:
  "session_exec env s (ls @ ms) = Option.bind (session_exec env s ls) (\<lambda>t. session_exec env t ms)"
  by (induction ls arbitrary: s) (simp_all del: session_step.simps split: option.split)

text \<open>A packet from WireGuard is queued for every candidate when the send queue has room.\<close>

lemma send_data:
  assumes "hash_order (le_iter env)" and "session_wf (le_flags env) s" and "quiet s" and "ch_items (ss_from_local s) = []"
    and "length packet \<le> 65536" and "length (ch_items (ss_to_internet s)) \<le> 128"
  shows "\<exists>s'. session_exec env s [LoopbackReceive (packet, wg), OutboundTake, OutboundForward] = Some s' \<and>
    ch_items (ss_to_internet s') =
      ch_items (ss_to_internet s) @ map (Pair packet) (addresses (le_iter env) (ss_connections s)) \<and>
    ss_local s' = (ss_local s)\<lparr>lp_addr := Some wg\<rparr> \<and> ss_connections s' = ss_connections s \<and>
    ss_probes s' = ss_probes s \<and> quiet s'"
proof -
  let ?new = "map (Pair packet) (addresses (le_iter env) (ss_connections s))"
  have ch: "chan_ok (ss_to_internet s)"
    using assms(2) by (simp add: session_wf_def)
  obtain q where q: "send_each try_send (ss_to_internet s) ?new = Ok q"
    using send_each_open [of "ss_to_internet s" ?new] ch by (auto simp: chan_ok_def)
  have "length ?new \<le> 128"
    using address_order.candidates_listing_bound [OF address_order.intro, OF assms(1), of "ss_connections s"] assms(2)
    by (simp add: session_wf_def vetted_def)
  then have "ch_items q = ch_items (ss_to_internet s) @ ?new"
    using udp_queue.send_each_contents [OF _ q] ch assms(6) by (simp add: chan_ok_def UDP_QUEUE_CAPACITY_def)
  then show ?thesis
    using assms q by (simp add: session_wf_def quiet_def idle_def queue_simps)
qed

section \<open>From set-up to traffic\<close>

text \<open>What \<open>setup_connection\<close> starts the tasks of a peer with.\<close>

lemma session_new_fresh:
  assumes "setup_peer b64_decode flags res p i = Ok su" and "length (pr_token res) = 16"
  shows "session_wf flags (session_new su)" and "quiet (session_new su)"
    and "ss_probes (session_new su) = probe_new (pr_token res)" "ss_connections (session_new su) = candidate_set_default"
    and "ch_items (ss_to_internet (session_new su)) = []" "ch_items (ss_from_local (session_new su)) = []"
    and "ss_local (session_new su) = \<lparr>lp_sender = channel_new UDP_QUEUE_CAPACITY, lp_addr = None\<rparr>"
    and "ss_last_timestamp (session_new su) = None"
proof -
  have su: "su_connections su = candidate_set_default" "su_probes su = probe_new (pr_token res)"
    "su_local_peer su = \<lparr>lp_sender = channel_new UDP_QUEUE_CAPACITY, lp_addr = None\<rparr>"
    "su_to_internet su = channel_new UDP_QUEUE_CAPACITY" "su_receivers su = receivers_new"
    using assms(1) by (auto simp: setup_peer_def bind_loopback_def Let_def result_simps)
  show "session_wf flags (session_new su)"
    by (rule session_new_wf(1) [OF assms])
qed (use assms(1) in \<open>auto simp: setup_peer_def bind_loopback_def Let_def result_simps session_new_def quiet_def idle_def
    channel_new_def receivers_new_def\<close>)

text \<open>A peer that has only answered one source sends to that source alone.\<close>

lemma only_candidate:
  assumes "hash_order iter" and "candidate_wf cs" and "\<And>x. contains cs x \<longleftrightarrow> x = a"
  shows "addresses iter cs = [a]"
proof -
  have "set (addresses iter cs) = {a}" "distinct (addresses iter cs)"
    using address_order.candidates_listing_bound [OF address_order.intro, OF assms(1,2)] assms(3) by auto
  moreover have "set xs \<subseteq> {a} \<Longrightarrow> a \<notin> set xs \<Longrightarrow> xs = []" for xs
    by (cases xs) auto
  ultimately show ?thesis
    by (cases "addresses iter cs") auto
qed

lemma fresh_peer_answers:
  fixes raw :: socket_addr
  assumes "hash_order (le_iter env)" and "setup_peer b64_decode (le_flags env) res p i = Ok su"
    and "length (pr_token res) = 16" and "length packet \<le> 65536"
  defines "source \<equiv> normalize_ipv4_mapped_source raw" and "f \<equiv> frame (pr_token res)"
  obtains s where "session_exec env (session_new su) [SocketReceive (f, raw), RoutePacket, ProbeTake now percent, ProbeAdmit,
      ProbeEcho, LoopbackReceive (packet, wg), OutboundTake, OutboundForward] = Some s"
    and "ch_items (ss_to_internet s) = [(f, source), (packet, source)]"
    and "contains (ss_connections s) source" and "lp_addr (ss_local s) = Some wg"
    and "ch_items (lp_sender (ss_local s)) = []" and "quiet s" and "session_wf (le_flags env) s"
proof -
  let ?s = "session_new su"
  note new = session_new_fresh [OF assms(2,3)]
  have "willing now (ss_probes ?s) source"
    by (simp add: new willing_def probe_new_def retain_recent_def MAX_REPLY_SOURCES_def)
  then obtain st where "packet_action now percent (ss_probes ?s) f source = (st, EchoAndAdmit)"
    using willing_echoes [of now "ss_probes ?s"] assms(3) by (auto simp: new f_def probe_new_def)
  from answer_probe [OF new(1,2,5) assms(3), of now percent raw st, folded f_def source_def, OF this] obtain s1 where
    s1: "session_exec env ?s [SocketReceive (f, raw), RoutePacket, ProbeTake now percent, ProbeAdmit, ProbeEcho] = Some s1"
    "ss_connections s1 = fst (add_peer_reflexive candidate_set_default source)" "ch_items (ss_to_internet s1) = [(f, source)]"
    "ss_local s1 = ss_local ?s" "ss_from_local s1 = ss_from_local ?s" "quiet s1"
    unfolding new(4) by blast
  have wf1: "session_wf (le_flags env) s1"
    by (rule session_exec_wf [OF assms(1) new(1) s1(1)])
  have only: "contains (ss_connections s1) x \<longleftrightarrow> x = source" for x
    by (simp add: s1(2) add_peer_reflexive_def contains_def candidate_set_default_def MAX_PEER_REFLEXIVE_CANDIDATES_def)
  have "addresses (le_iter env) (ss_connections s1) = [source]"
    using only_candidate [OF assms(1) _ only] wf1 by (simp add: session_wf_def)
  with send_data [OF assms(1) wf1 s1(6) _ assms(4), of wg] s1(3-5) new(6,7) obtain s2 where
    s2: "session_exec env s1 [LoopbackReceive (packet, wg), OutboundTake, OutboundForward] = Some s2"
    "ch_items (ss_to_internet s2) = [(f, source), (packet, source)]" "ss_connections s2 = ss_connections s1"
    "lp_addr (ss_local s2) = Some wg" "ch_items (lp_sender (ss_local s2)) = []" "quiet s2"
    by (auto simp: channel_new_def)
  show ?thesis
  proof (rule that)
    show "session_exec env ?s [SocketReceive (f, raw), RoutePacket, ProbeTake now percent, ProbeAdmit,
        ProbeEcho, LoopbackReceive (packet, wg), OutboundTake, OutboundForward] = Some s2"
      using session_exec_append [of env ?s "[SocketReceive (f, raw), RoutePacket, ProbeTake now percent, ProbeAdmit, ProbeEcho]"
          "[LoopbackReceive (packet, wg), OutboundTake, OutboundForward]"] s1(1) s2(1) by (simp del: session_exec.simps)
    show "session_wf (le_flags env) s2"
      by (rule session_exec_wf [OF assms(1) wf1 s2(1)])
  qed (use s2 only in auto)
qed

text \<open>A peer that reads its first record probes the listed addresses at the next tick.\<close>

lemma fresh_peer_probes:
  assumes crates: "box_agreement derive seal (le_unseal env)" "json_inverse to_vec (le_from_slice env)"
      "b64_inverse b64_encode (le_b64_decode env)" "hash_order (le_iter env)"
    and pair: "le_box env = crypto_box_new (public_key_of derive b) a"
    and started: "setup_peer b64_decode (le_flags env) res q i = Ok su" "length (pr_token res) = 16"
    and published: "length nonce = 24" "length (local_token st) = 16"
      "publish_record to_vec seal (crypto_box_new (public_key_of derive a) b) (local_token_base64 b64_encode st)
         ts nonce addrs = Ok value"
    and fresh: "is_fresh_dht_timestamp ts now_system"
    and listed: "addr \<in> set (take 64 (filter is_usable_peer_addr
      (filter (\<lambda>a. \<not> filter_ipv6 (le_flags env) \<or> is_ipv4 (sock_ip a)) addrs)))"
    and tick: "t0 \<le> t"
  obtains s p where "session_exec env (session_new su) [DhtTake now_system value, DhtReplace, DhtPaths t0, ProbeSchedule t percent] = Some s"
    and "(frame (local_token st), addr) \<in> set (ch_items (ss_to_internet s))" "length (ch_items (ss_to_internet s)) \<le> 64"
    and "remote_token (ss_probes s) = Some (local_token st)" "local_token (ss_probes s) = pr_token res"
    and "paths (ss_probes s) addr = Some p" "outstanding p \<noteq> None" "contains (ss_connections s) addr"
    and "ch_items (ss_from_local s) = []" "ch_items (lp_sender (ss_local s)) = []" "quiet s" "session_wf (le_flags env) s"
proof -
  let ?s = "session_new su"
  note new = session_new_fresh [OF started]
  have idle: "hold_replace ?s = None" "hold_paths ?s = None"
    using new(2) by (simp_all add: quiet_def idle_def)
  have unseen: "ss_last_timestamp ?s = Some seen \<Longrightarrow> seen < ts" for seen
    by (simp add: new(8))
  obtain u where u: "session_exec env ?s [DhtTake now_system value, DhtReplace, DhtPaths t0] =
      Some (?s\<lparr>ss_last_timestamp := Some ts, ss_connections := replace_advertised (ss_connections ?s) u,
        ss_probes := update_remote t0 (ss_probes ?s) (Some (local_token st)) (le_iter env u),
        hold_replace := None, hold_paths := None\<rparr>)" (is "_ = Some ?s1")
    and sel: "select_paths {} (le_iter env u) = u"
    and first: "set (take 64 (filter is_usable_peer_addr
      (filter (\<lambda>a. \<not> filter_ipv6 (le_flags env) \<or> is_ipv4 (sock_ip a)) addrs))) \<subseteq> u"
    by (rule record_applied [OF crates pair published fresh unseen new(1) idle, of t0])
  from first listed have "addr \<in> u" by (rule subsetD)
  then have path: "paths (ss_probes ?s1) addr = Some (path_new t0)" "next_probe (path_new t0) \<le> t"
    and tokens: "remote_token (ss_probes ?s1) = Some (local_token st)" "local_token (ss_probes ?s1) = pr_token res"
    using tick by (simp_all add: update_remote_paths sel new(3) probe_new_def path_new_def)
  have wf1: "session_wf (le_flags env) ?s1"
    by (rule session_exec_wf [OF crates(4) new(1) u])
  have still: "ch_items (ss_to_internet ?s1) = []" "quiet ?s1"
    using new(2,5) by (simp_all add: quiet_def idle_def)
  obtain s2 where s2: "session_step env ?s1 (ProbeSchedule t percent) = Some s2"
    "(frame (local_token st), addr) \<in> set (ch_items (ss_to_internet s2))" "length (ch_items (ss_to_internet s2)) \<le> 64"
    "paths (ss_probes s2) addr = Some (fst (path_due t (percent addr) (path_new t0)))"
    "remote_token (ss_probes s2) = Some (local_token st)" "local_token (ss_probes s2) = local_token (ss_probes ?s1)"
    "ss_connections s2 = ss_connections ?s1" "ss_local s2 = ss_local ?s1" "ss_from_local s2 = ss_from_local ?s1" "quiet s2"
    using schedule_sends [OF crates(4) wf1 still(1) tokens(1) path, of percent] still(2) by blast
  show ?thesis
  proof (rule that)
    show "session_exec env ?s [DhtTake now_system value, DhtReplace, DhtPaths t0, ProbeSchedule t percent] = Some s2"
      using session_exec_append [of env ?s "[DhtTake now_system value, DhtReplace, DhtPaths t0]" "[ProbeSchedule t percent]"]
        u s2(1) by (simp del: session_step.simps session_exec.simps(2)) (simp del: session_step.simps)
    show "outstanding (fst (path_due t (percent addr) (path_new t0))) \<noteq> None"
      using path_due_sends [OF path(2)] by simp
    show "contains (ss_connections s2) addr"
      using \<open>addr \<in> u\<close> by (simp add: s2(7) contains_def)
    show "session_wf (le_flags env) s2"
      by (rule session_wf_step [OF crates(4) wf1 s2(1)])
  qed (use s2 tokens new(6,7) in \<open>simp_all add: channel_new_def\<close>)
qed

text \<open>
  A prober that gets its echo back marks the path verified; then packets go out to the probed
  address and are accepted from it.
\<close>

lemma verified_exchange:
  assumes order: "hash_order (le_iter env)" and s: "session_wf (le_flags env) s" "quiet s"
      "length (ch_items (ss_to_internet s)) \<le> 64" "ch_items (ss_from_local s) = []" "ch_items (lp_sender (ss_local s)) = []"
    and probed: "remote_token (ss_probes s) = Some token" "length token = 16" "local_token (ss_probes s) \<noteq> token"
      "paths (ss_probes s) addr = Some p" "outstanding p \<noteq> None" "contains (ss_connections s) addr"
    and raw: "normalize_ipv4_mapped_source raw = addr"
    and data: "length out \<le> 65536" "classify_packet inc = Ok KData" "length inc \<le> 65536"
  obtains t p' where "session_exec env s ([SocketReceive (frame token, raw), RoutePacket, ProbeTake now percent] @
      [LoopbackReceive (out, wg), OutboundTake, OutboundForward] @
      [SocketReceive (inc, raw), RoutePacket, InboundTake, InboundForward]) = Some t"
    and "paths (ss_probes t) addr = Some p'" "verified p'" "(out, addr) \<in> set (ch_items (ss_to_internet t))"
    and "ch_items (lp_sender (ss_local t)) = [(inc, wg)]"
proof -
  obtain st p' where ack: "packet_action now percent (ss_probes s) (frame token) (normalize_ipv4_mapped_source raw) = (st, Acknowledged)"
    "paths st addr = Some p'" "verified p'"
    using outstanding_acknowledges [OF probed(1-5), of now percent] raw by auto
  from take_acknowledgement [OF s(1,2) probed(2) ack(1), of env] obtain s1 where
    s1: "session_exec env s [SocketReceive (frame token, raw), RoutePacket, ProbeTake now percent] = Some s1"
    "ss_probes s1 = st" "ss_to_internet s1 = ss_to_internet s" "ss_connections s1 = ss_connections s" "quiet s1"
    "ss_local s1 = ss_local s" "ss_from_local s1 = ss_from_local s"
    by blast
  have wf1: "session_wf (le_flags env) s1"
    by (rule session_exec_wf [OF order s(1) s1(1)])
  have "addr \<in> set (addresses (le_iter env) (ss_connections s1))"
    using address_order.candidates_listing_bound [OF address_order.intro, OF order, of "ss_connections s1"] wf1 probed(6)
    by (simp add: session_wf_def s1(4))
  with send_data [OF order wf1 s1(5) _ data(1), of wg] s(3-5) s1(3,6,7) obtain s2 where
    s2: "session_exec env s1 [LoopbackReceive (out, wg), OutboundTake, OutboundForward] = Some s2"
    "(out, addr) \<in> set (ch_items (ss_to_internet s2))" "ss_connections s2 = ss_connections s1" "ss_probes s2 = st"
    "lp_addr (ss_local s2) = Some wg" "ch_items (lp_sender (ss_local s2)) = []" "quiet s2"
    by (auto simp: s1(2))
  have wf2: "session_wf (le_flags env) s2"
    by (rule session_exec_wf [OF order wf1 s2(1)])
  from deliver_data [OF wf2 s2(7) _ data(2,3) s2(5), of raw env] probed(6) s1(4) s2(3,6) raw obtain t where
    t: "session_exec env s2 [SocketReceive (inc, raw), RoutePacket, InboundTake, InboundForward] = Some t"
    "ch_items (lp_sender (ss_local t)) = [(inc, wg)]" "ss_probes t = ss_probes s2" "ss_to_internet t = ss_to_internet s2"
    by (auto simp: UDP_QUEUE_CAPACITY_def)
  show ?thesis
  proof (rule that)
    show "session_exec env s ([SocketReceive (frame token, raw), RoutePacket, ProbeTake now percent] @
        [LoopbackReceive (out, wg), OutboundTake, OutboundForward] @
        [SocketReceive (inc, raw), RoutePacket, InboundTake, InboundForward]) = Some t"
      by (simp only: session_exec_append s1(1) s2(1) t(1) bind.bind_lunit)
  qed (use ack s2(2,4) t in \<open>auto simp del: session_exec.simps\<close>)
qed

end
