(* ===== verification/Adversary.thy ===== *)
theory Adversary
  imports Tunnel
begin

text \<open>
  Two running connections on a network with an off-path attacker. The attacker receives what
  is sent to its own addresses, puts anything into the DHT and sends any datagram under any
  source address, except that it cannot guess a run token and cannot seal a record under the
  peers' keys; the peers' own records do not list its addresses. The network delivers what the peers send zero or more times, in any order, to
  either of them.
\<close>

section \<open>What a connection is spared\<close>

definition stun_request :: "bytes \<Rightarrow> bool" where
  "stun_request packet \<longleftrightarrow> (\<exists>tid. packet = stun_header BINDING_REQUEST 0 tid)"

text \<open>
  The inputs of a task step that the attacker does not control: a frame with the connection's
  token comes from an address that is not the attacker's, a record that decrypts lists no
  such address, and the STUN client sends binding requests (to whatever server).
\<close>

definition benign :: "listen_env \<Rightarrow> socket_addr set \<Rightarrow> bytes \<Rightarrow> task_step \<Rightarrow> bool" where
  "benign env evil token l =
     (case l of
        SocketReceive d \<Rightarrow> take (64 * 1024) (fst d) = frame token \<longrightarrow> normalize_ipv4_mapped_source (snd d) \<notin> evil
      | DhtTake now_system v \<Rightarrow> \<forall>a\<in>evil. \<not> listed_by_peer env [v] a
      | StunSend request server \<Rightarrow> stun_request request
      | _ \<Rightarrow> True)"

text \<open>The attacker's addresses appear nowhere a connection would send control frames or data to.\<close>

definition spared :: "socket_addr set \<Rightarrow> (bytes option \<times> socket_addr set) option \<Rightarrow> bool" where
  "spared evil h \<longleftrightarrow> (\<forall>token u. h = Some (token, u) \<longrightarrow> disjnt u evil)"

definition clean_queues :: "socket_addr set \<Rightarrow> bytes \<Rightarrow> session \<Rightarrow> bool" where
  "clean_queues evil token s \<longleftrightarrow>
     (\<forall>(p, raw) \<in> set (ch_items (ss_from_internet s)). p = frame token \<longrightarrow> normalize_ipv4_mapped_source raw \<notin> evil) \<and>
     (\<forall>(p, a) \<in> set (ch_items (probe_rx (ss_rx s))). p = frame token \<longrightarrow> a \<notin> evil) \<and>
     (\<forall>(p, a) \<in> set (ch_items (ss_to_internet s)). a \<in> evil \<longrightarrow> stun_request p)"

definition clean :: "socket_addr set \<Rightarrow> bytes \<Rightarrow> session \<Rightarrow> bool" where
  "clean evil token s \<longleftrightarrow>
     local_token (ss_probes s) = token \<and> clean_queues evil token s \<and>
     (\<forall>a\<in>evil. \<not> contains (ss_connections s) a) \<and> disjnt (dom (paths (ss_probes s))) evil \<and>
     (\<forall>p a. hold_admit s = Some (p, a) \<longrightarrow> a \<notin> evil) \<and> (\<forall>p a. hold_echo s = Some (p, a) \<longrightarrow> a \<notin> evil) \<and>
     spared evil (hold_replace s) \<and> spared evil (hold_paths s)"

section \<open>Every task keeps the attacker out\<close>

text \<open>The steps that change neither what \<^const>\<open>clean\<close> speaks about nor the queues it speaks about.\<close>

definition neutral_step :: "task_step \<Rightarrow> bool" where
  "neutral_step l = (case l of InboundTake \<Rightarrow> True | InboundForward \<Rightarrow> True | LoopbackReceive _ \<Rightarrow> True
     | OutboundTake \<Rightarrow> True | StunTake \<Rightarrow> True | LoopbackSend \<Rightarrow> True | _ \<Rightarrow> False)"

lemma clean_neutral:
  assumes "clean evil token s" and "session_step env s l = Some t" and "neutral_step l"
  shows "clean evil token t"
proof -
  have "ss_connections t = ss_connections s \<and> ss_probes t = ss_probes s \<and> ss_to_internet t = ss_to_internet s \<and>
    ss_from_internet t = ss_from_internet s \<and> probe_rx (ss_rx t) = probe_rx (ss_rx s) \<and>
    hold_admit t = hold_admit s \<and> hold_echo t = hold_echo s \<and> hold_replace t = hold_replace s \<and> hold_paths t = hold_paths s"
    using assms(2,3) by (cases l) (auto simp: neutral_step_def split: option.splits prod.splits if_splits)
  with assms(1) show ?thesis
    by (simp add: clean_def clean_queues_def)
qed

text \<open>Queueing for the Internet keeps a clean connection clean when the new datagrams go elsewhere.\<close>

lemma clean_send:
  assumes "clean evil token s" and "set (ch_items c) \<subseteq> set (ch_items (ss_to_internet s)) \<union> D"
    and "\<And>p a. (p, a) \<in> D \<Longrightarrow> a \<in> evil \<Longrightarrow> stun_request p"
  shows "clean evil token (s\<lparr>ss_to_internet := c\<rparr>)"
  using assms by (fastforce simp: clean_def clean_queues_def)

lemma clean_receive:
  assumes "clean evil token s" and "benign env evil token (SocketReceive d)"
    and "session_step env s (SocketReceive d) = Some t"
  shows "clean evil token t"
proof -
  from assms(3) obtain c b where
    c: "res_ok (try_send (ss_from_internet s) (take (64 * 1024) (fst d), snd d)) = Some (c, b)"
    and t: "t = s\<lparr>ss_from_internet := c\<rparr>"
    by auto
  from try_send_step(2) [OF c] assms(1,2) show ?thesis
    unfolding t by (fastforce simp: clean_def clean_queues_def benign_def)
qed

lemma clean_route:
  assumes "clean evil token s" and "session_step env s RoutePacket = Some t"
  shows "clean evil token t"
proof -
  from assms(2) obtain packet raw rest rx where
    d: "mpsc_try_recv (ss_from_internet s) = Some ((packet, raw), rest)"
    and rx: "res_ok (route_packet classify_packet (ss_rx s) (packet, raw)) = Some rx"
    and t: "t = s\<lparr>ss_from_internet := rest, ss_rx := rx\<rparr>"
    by (auto split: option.splits)
  have "\<forall>(p, a) \<in> set (ch_items (probe_rx rx)). p = frame token \<longrightarrow> a \<notin> evil"
    using assms(1) recv_step(2) [OF d] route_packet_step(2) [OF rx]
    by (fastforce simp: clean_def clean_queues_def split: if_splits)
  with assms(1) recv_step(2) [OF d] show ?thesis
    by (auto simp: t clean_def clean_queues_def)
qed

lemma clean_probe_take:
  assumes "clean evil token s" and "session_step env s (ProbeTake now percent) = Some t"
  shows "clean evil token t"
proof -
  obtain packet source rest where recv: "mpsc_try_recv (probe_rx (ss_rx s)) = Some ((packet, source), rest)"
    and t: "t = s\<lparr>ss_rx := (ss_rx s)\<lparr>probe_rx := rest\<rparr>,
      ss_probes := fst (packet_action now percent (ss_probes s) packet source),
      hold_admit := (if snd (packet_action now percent (ss_probes s) packet source) = EchoAndAdmit
                     then Some (packet, source) else None)\<rparr>"
    using assms(2) by (rule probe_take_Some)
  have "snd (packet_action now percent (ss_probes s) packet source) = EchoAndAdmit \<Longrightarrow> source \<notin> evil"
    using assms(1) recv_step(2) [OF recv]
    by (auto simp: clean_def clean_queues_def packet_action_echo parse_frame_iff)
  with assms(1) recv_step(2) [OF recv] show ?thesis
    by (auto simp: t clean_def clean_queues_def)
qed

lemma clean_schedule:
  assumes "hash_order (le_iter env)" and "session_wf (le_flags env) s" and "clean evil token s"
    and "session_step env s (ProbeSchedule now percent) = Some t"
  shows "clean evil token t"
proof -
  define due where "due = due_frames (le_iter env) now percent (ss_probes s)"
  from assms(4) obtain c where c: "res_ok (send_each try_send (ss_to_internet s) (snd due)) = Some c"
    and t: "t = s\<lparr>ss_probes := fst due, ss_to_internet := c\<rparr>"
    by (auto simp: schedule_tick_def Let_def case_prod_unfold due_def)
  have "finite (dom (paths (ss_probes s)))"
    using assms(2) by (simp add: session_wf_def probe_wf_def)
  then have "snd ` set (snd due) \<subseteq> dom (paths (ss_probes s))"
    using due_frames_closed [OF assms(1), of "ss_probes s"] hash_order.iter_set [OF assms(1)]
    by (cases "remote_token (ss_probes s)") (auto simp: due_def due_frames_def split: option.splits)
  then have "\<And>p a. (p, a) \<in> set (snd due) \<Longrightarrow> a \<notin> evil"
    using assms(3) by (fastforce simp: clean_def disjnt_iff)
  then have "clean evil token (s\<lparr>ss_to_internet := c\<rparr>)"
    using send_each_step [OF c] by (intro clean_send [OF assms(3), where D = "set (snd due)"]) auto
  then show ?thesis
    unfolding t due_def by (simp add: clean_def clean_queues_def due_frames_fields due_frames_dom)
qed

lemma clean_outbound:
  assumes "hash_order (le_iter env)" and "session_wf (le_flags env) s" and "clean evil token s"
    and "session_step env s OutboundForward = Some t"
  shows "clean evil token t"
proof -
  from assms(4) obtain packet c where t: "t = s\<lparr>ss_to_internet := c, hold_outbound := None\<rparr>"
    and c: "res_ok (send_each try_send (ss_to_internet s)
      (map (Pair packet) (addresses (le_iter env) (ss_connections s)))) = Some c"
    by (auto split: option.splits)
  have "set (addresses (le_iter env) (ss_connections s)) = {a. contains (ss_connections s) a}"
    using address_order.candidates_listing_bound [OF address_order.intro, OF assms(1)] assms(2)
    by (simp add: session_wf_def)
  then have "clean evil token (s\<lparr>ss_to_internet := c\<rparr>)"
    using send_each_step [OF c] assms(3)
    by (intro clean_send [where D = "set (map (Pair packet) (addresses (le_iter env) (ss_connections s)))"])
      (auto simp: clean_def)
  then show ?thesis
    by (simp add: t clean_def clean_queues_def)
qed

lemma clean_dht_take:
  assumes "hash_order (le_iter env)" and "session_wf (le_flags env) s" and "clean evil token s"
    and "benign env evil token (DhtTake now_system v)" and "session_step env s (DhtTake now_system v) = Some t"
  shows "clean evil token t"
proof (cases "accept_value env now_system (ss_last_timestamp s) v")
  case None
  with assms(3,5) show ?thesis by (auto split: if_splits)
next
  case (Some msg)
  have "finite (advertised (ss_connections s))"
    using assms(2) by (simp add: session_wf_def vetted_def)
  note sound = updated_peers_sound [OF assms(1) this, of "le_flags env" msg] advertised_peers_sound [of "le_flags env" msg]
  have "set (ip_addr_list msg) \<inter> evil = {}"
    using assms(4) Some by (auto simp: benign_def listed_by_peer_def accept_value_Some)
  moreover have "advertised (ss_connections s) \<inter> evil = {}"
    using assms(3) by (auto simp: clean_def contains_def)
  ultimately have "updated_peers (le_iter env) (le_flags env) (advertised (ss_connections s)) msg \<inter> evil = {}"
    using sound by blast
  then have "spared evil (Some (record_token env msg,
      updated_peers (le_iter env) (le_flags env) (advertised (ss_connections s)) msg))"
    by (simp add: spared_def disjnt_def)
  with Some assms(3,5) show ?thesis
    by (auto simp: clean_def clean_queues_def split: if_splits)
qed

lemma clean_dht_paths:
  assumes "hash_order (le_iter env)" and "session_wf (le_flags env) s" and "clean evil token s"
    and "session_step env s (DhtPaths now) = Some t"
  shows "clean evil token t"
proof -
  from assms(4) obtain tok u where h: "hold_paths s = Some (tok, u)"
    and t: "t = s\<lparr>ss_probes := update_remote now (ss_probes s) tok (le_iter env u), hold_paths := None\<rparr>"
    by (auto split: option.splits)
  have "finite u" and "card u \<le> 64" and "disjnt u evil"
    using assms(2,3) h by (simp_all add: session_wf_def hold_ok_def vetted_def clean_def spared_def)
  then have "disjnt (dom (paths (update_remote now (ss_probes s) tok (le_iter env u)))) evil"
    by (simp add: update_remote_dom [OF assms(1)])
  with assms(3) show ?thesis
    by (simp add: t clean_def clean_queues_def spared_def)
qed

lemma clean_echo:
  assumes "clean evil token s" and "session_step env s ProbeEcho = Some t"
  shows "clean evil token t"
proof -
  from assms(2) obtain d c b where d: "hold_echo s = Some d" "res_ok (try_send (ss_to_internet s) d) = Some (c, b)"
    and t: "t = s\<lparr>ss_to_internet := c, hold_echo := None\<rparr>"
    by (auto split: option.splits)
  have "clean evil token (s\<lparr>ss_to_internet := c\<rparr>)"
    using try_send_step(2) [OF d(2)] assms(1) d(1) by (intro clean_send [where D = "{d}"]) (auto simp: clean_def)
  then show ?thesis by (simp add: t clean_def clean_queues_def)
qed

lemma clean_replace:
  assumes "clean evil token s" and "session_step env s DhtReplace = Some t"
  shows "clean evil token t"
proof -
  from assms(2) obtain tok u where h: "hold_replace s = Some (tok, u)"
    and t: "t = s\<lparr>ss_connections := replace_advertised (ss_connections s) u, hold_replace := None,
      hold_paths := Some (tok, u)\<rparr>"
    by (auto split: option.splits)
  have "disjnt u evil"
    using assms(1) h by (simp add: clean_def spared_def)
  then have "\<forall>a\<in>evil. \<not> contains (replace_advertised (ss_connections s) u) a"
    using assms(1) by (auto simp: clean_def contains_def disjnt_iff)
  with assms(1) \<open>disjnt u evil\<close> show ?thesis
    by (simp add: t clean_def clean_queues_def spared_def)
qed

lemma clean_lookup:
  assumes "clean evil token s" and "benign env evil token (StunSend request server)"
    and "session_step env s (StunSend request server) = Some t"
  shows "clean evil token t"
proof -
  from assms(3) obtain c b where c: "res_ok (try_send (ss_to_internet s) (request, server)) = Some (c, b)"
    and t: "t = s\<lparr>ss_to_internet := c\<rparr>"
    by auto
  show ?thesis
    unfolding t using try_send_step(2) [OF c] assms(1,2)
    by (intro clean_send [where D = "{(request, server)}"]) (auto simp: benign_def)
qed

lemma clean_step:
  assumes "hash_order (le_iter env)" and "session_wf (le_flags env) s" and "clean evil token s"
    and "benign env evil token l" and step: "session_step env s l = Some t"
  shows "clean evil token t"
proof (cases l)
  case (SocketReceive d)
  show ?thesis by (rule clean_receive [OF assms(3-5) [unfolded SocketReceive]])
next
  case RoutePacket
  show ?thesis by (rule clean_route [OF assms(3) step [unfolded RoutePacket]])
next
  case (ProbeTake now percent)
  show ?thesis by (rule clean_probe_take [OF assms(3) step [unfolded ProbeTake]])
next
  case ProbeAdmit
  with assms(3) step show ?thesis
    by (auto simp: clean_def clean_queues_def ascending_addresses.candidates.admit_member split: option.splits)
next
  case ProbeEcho
  show ?thesis by (rule clean_echo [OF assms(3) step [unfolded ProbeEcho]])
next
  case (ProbeSchedule now percent)
  show ?thesis by (rule clean_schedule [OF assms(1-3) step [unfolded ProbeSchedule]])
next
  case OutboundForward
  show ?thesis by (rule clean_outbound [OF assms(1-3) step [unfolded OutboundForward]])
next
  case (DhtTake now_system v)
  show ?thesis by (rule clean_dht_take [OF assms(1-5) [unfolded DhtTake]])
next
  case DhtReplace
  show ?thesis by (rule clean_replace [OF assms(3) step [unfolded DhtReplace]])
next
  case (DhtPaths now)
  show ?thesis by (rule clean_dht_paths [OF assms(1-3) step [unfolded DhtPaths]])
next
  case (StunSend request server)
  show ?thesis by (rule clean_lookup [OF assms(3-5) [unfolded StunSend]])
next
  case SocketSend
  with assms(3) step show ?thesis
    by (auto simp: clean_def clean_queues_def dest!: recv_step(2))
qed (use clean_neutral [OF assms(3) step] in \<open>simp_all add: neutral_step_def del: session_step.simps\<close>)

section \<open>The network\<close>

datatype side = PeerA | PeerB

text \<open>
  \<open>ns_own\<close> are the addresses under which the network shows a peer's datagrams, \<open>ns_evil\<close> those
  at which the attacker receives.
\<close>

record net_setting =
  ns_env :: "side \<Rightarrow> listen_env"
  ns_token :: "side \<Rightarrow> bytes"
  ns_own :: "side \<Rightarrow> socket_addr set"
  ns_evil :: "socket_addr set"

record net_state =
  nt_host :: "side \<Rightarrow> session"
  nt_sent :: "side \<Rightarrow> bytes set"
  nt_known :: "bytes set"

definition internal_step :: "task_step \<Rightarrow> bool" where
  "internal_step l = (case l of SocketReceive _ \<Rightarrow> False | DhtTake _ _ \<Rightarrow> False | StunSend _ _ \<Rightarrow> False | _ \<Rightarrow> True)"

text \<open>The task steps a peer can take in a state of the network, by where their input comes from.\<close>

inductive net_input :: "net_setting \<Rightarrow> net_state \<Rightarrow> side \<Rightarrow> task_step \<Rightarrow> bool" for N w where
  Internal: "internal_step l \<Longrightarrow> net_input N w i l"
| Lookup: "net_input N w i (StunSend (stun_header BINDING_REQUEST 0 tid) server)"
| Record: "\<forall>a\<in>ns_evil N. \<not> listed_by_peer (ns_env N i) [v] a \<Longrightarrow> net_input N w i (DhtTake now_system v)"
| Deliver: "p \<in> nt_sent w j \<Longrightarrow> normalize_ipv4_mapped_source raw \<in> ns_own N j \<Longrightarrow> net_input N w i (SocketReceive (p, raw))"
| Replay: "p \<in> nt_known w \<Longrightarrow> net_input N w i (SocketReceive (p, raw))"
| Forge: "\<forall>j. take (64 * 1024) p \<noteq> frame (ns_token N j) \<Longrightarrow> net_input N w i (SocketReceive (p, raw))"

definition emitted :: "session \<Rightarrow> task_step \<Rightarrow> datagram set" where
  "emitted s l = (if l = SocketSend then set (take 1 (ch_items (ss_to_internet s))) else {})"

definition net_after :: "net_setting \<Rightarrow> net_state \<Rightarrow> side \<Rightarrow> task_step \<Rightarrow> session \<Rightarrow> net_state" where
  "net_after N w i l t =
     w\<lparr>nt_host := (nt_host w)(i := t),
       nt_sent := (nt_sent w)(i := nt_sent w i \<union> fst ` emitted (nt_host w i) l),
       nt_known := nt_known w \<union> {p. \<exists>a. (p, a) \<in> emitted (nt_host w i) l \<and> a \<in> ns_evil N}\<rparr>"

definition net_step :: "net_setting \<Rightarrow> net_state \<Rightarrow> side \<times> task_step \<Rightarrow> net_state \<Rightarrow> bool" where
  "net_step N w il w' \<longleftrightarrow> (case il of (i, l) \<Rightarrow>
     net_input N w i l \<and> (\<exists>t. session_step (ns_env N i) (nt_host w i) l = Some t \<and> w' = net_after N w i l t))"

definition net_initial :: "net_setting \<Rightarrow> net_state \<Rightarrow> bool" where
  "net_initial N w \<longleftrightarrow> (\<forall>i. session_initial (ns_env N i) (ns_token N i) ([], nt_host w i)) \<and>
     nt_sent w = (\<lambda>_. {}) \<and> nt_known w = {}"

definition net_sound :: "net_setting \<Rightarrow> bool" where
  "net_sound N \<longleftrightarrow> (\<forall>i. hash_order (le_iter (ns_env N i)) \<and> ns_own N i \<inter> ns_evil N = {})"

definition net_inv :: "net_setting \<Rightarrow> net_state \<Rightarrow> bool" where
  "net_inv N w \<longleftrightarrow> (\<forall>i. session_wf (le_flags (ns_env N i)) (nt_host w i) \<and>
     clean (ns_evil N) (ns_token N i) (nt_host w i)) \<and> (\<forall>p\<in>nt_known w. stun_request p)"

section \<open>Secrecy\<close>

lemma stun_request_no_frame:
  assumes "stun_request p"
  shows "p \<noteq> frame token" and "take (64 * 1024) p \<noteq> frame token"
proof -
  have "hd (stun_header BINDING_REQUEST 0 tid) = 0" for tid
    by (simp add: stun_header_def BINDING_REQUEST_def numeral_2_eq_2)
  moreover have "hd (frame token) = 0x50"
    by (simp add: frame_def MAGIC_def)
  moreover have "(0 :: u8) \<noteq> 0x50"
    by simp
  ultimately show "p \<noteq> frame token"
    using assms unfolding stun_request_def by metis
  then show "take (64 * 1024) p \<noteq> frame token"
    using assms by (auto simp: stun_request_def)
qed

lemma net_input_benign:
  assumes "net_sound N" and "net_inv N w" and "net_input N w i l"
  shows "benign (ns_env N i) (ns_evil N) (ns_token N i) l"
  using assms(3)
proof cases
  case Internal
  then show ?thesis by (auto simp: internal_step_def benign_def split: task_step.splits)
next
  case (Deliver p j raw)
  with assms(1) show ?thesis by (auto simp: benign_def net_sound_def)
next
  case (Replay p raw)
  with assms(2) stun_request_no_frame show ?thesis by (auto simp: benign_def net_inv_def)
qed (auto simp: benign_def stun_request_def)

lemma emitted_to_evil:
  assumes "clean evil token s" and "(p, a) \<in> emitted s l" and "a \<in> evil"
  shows "stun_request p"
  using assms by (auto simp: emitted_def clean_def clean_queues_def split: if_splits dest!: in_set_takeD)

interpretation net: invariant_system "net_initial N" "\<lambda>w il w'. net_sound N \<and> net_step N w il w'" "net_inv N" for N
proof
  fix w w' :: net_state and il :: "side \<times> task_step"
  show "net_inv N w" if init: "net_initial N w"
  proof -
    have "session_wf (le_flags (ns_env N i)) (nt_host w i)" for i
      using running.inv_initial [of "ns_env N i" "ns_token N i"] init by (fastforce simp: net_initial_def)
    moreover have "clean (ns_evil N) (ns_token N i) (nt_host w i)" for i
    proof -
      have "session_initial (ns_env N i) (ns_token N i) ([], nt_host w i)"
        using init by (simp add: net_initial_def)
      then obtain b64_decode res p k su where "setup_peer b64_decode (le_flags (ns_env N i)) res p k = Ok su"
        "pr_token res = ns_token N i" "nt_host w i = session_new su"
        by (auto simp: session_initial_def)
      then show ?thesis
        by (auto simp: setup_peer_def bind_loopback_def Let_def result_simps session_new_def clean_def
            clean_queues_def spared_def receivers_new_def channel_new_def contains_def candidate_set_default_def
            probe_new_def)
    qed
    ultimately show ?thesis using init by (simp add: net_inv_def net_initial_def)
  qed
  show "net_inv N w'" if inv: "net_inv N w" and step: "net_sound N \<and> net_step N w il w'"
  proof -
    from step obtain i l t where sound: "net_sound N" and l: "net_input N w i l"
      and t: "session_step (ns_env N i) (nt_host w i) l = Some t" "w' = net_after N w i l t"
      by (auto simp: net_step_def)
    have old: "hash_order (le_iter (ns_env N i))" "session_wf (le_flags (ns_env N i)) (nt_host w i)"
      "clean (ns_evil N) (ns_token N i) (nt_host w i)"
      using inv sound by (auto simp: net_inv_def net_sound_def)
    with session_wf_step [OF old(1,2) t(1)] clean_step [OF old net_input_benign [OF sound inv l] t(1)] inv
      emitted_to_evil [OF old(3), of _ _ l]
    show ?thesis
      by (auto simp: net_inv_def t(2) net_after_def)
  qed
qed


text \<open>
  A concrete run: the first peer asks a STUN server that the attacker runs, the attacker
  replays the request to the second peer under a spoofed address.
\<close>

definition sample_net :: net_setting where
  "sample_net = \<lparr>ns_env = (\<lambda>_. sample_env), ns_token = (\<lambda>i. replicate 16 (if i = PeerA then 1 else 2)),
     ns_own = (\<lambda>_. {SockV4 9 9}), ns_evil = {SockV4 66 6}\<rparr>"

definition sample_host :: "side \<Rightarrow> session" where
  "sample_host i = session_new (sample_su\<lparr>su_probes := probe_new (ns_token sample_net i)\<rparr>)"

definition sample_start :: net_state where
  "sample_start = \<lparr>nt_host = sample_host, nt_sent = (\<lambda>_. {}), nt_known = {}\<rparr>"

lemma sample_net_initial: "net_initial sample_net sample_start"
proof -
  have "session_initial sample_env (replicate 16 b) ([], session_new (sample_su\<lparr>su_probes := probe_new (replicate 16 b)\<rparr>))" for b
    unfolding session_initial_def using sample_setup_peer_token [of "replicate 16 b"]
    by (fastforce simp del: replicate.simps)
  then show ?thesis
    by (simp add: net_initial_def sample_start_def sample_host_def sample_net_def del: replicate.simps)
qed

lemma net_steps_Cons:
  assumes "net_input N w i l" and "session_step (ns_env N i) (nt_host w i) l = Some t"
    and "steps (net_step N) (net_after N w i l t) ls u"
  shows "steps (net_step N) w ((i, l) # ls) u"
  using assms by (auto simp: net_step_def simp del: session_step.simps intro!: steps_Cons)

lemmas sample_host_simps = sample_host_def session_new_def sample_su_def channel_new_def receivers_new_def
  UDP_QUEUE_CAPACITY_def

lemma sample_net_run:
  defines "request \<equiv> stun_header BINDING_REQUEST 0 5"
  obtains w where "steps (net_step sample_net) sample_start
      [(PeerA, StunSend request (SockV4 66 6)), (PeerA, SocketSend), (PeerB, SocketReceive (request, SockV4 9 9))] w"
    and "nt_known w = {request}"
proof -
  let ?a = "(sample_host PeerA)\<lparr>ss_to_internet := (channel_new 256)\<lparr>ch_items := [(request, SockV4 66 6)]\<rparr>\<rparr>"
  let ?b = "(sample_host PeerB)\<lparr>ss_from_internet := (channel_new 256)\<lparr>ch_items := [(request, SockV4 9 9)]\<rparr>\<rparr>"
  let ?w1 = "net_after sample_net sample_start PeerA (StunSend request (SockV4 66 6)) ?a"
  let ?w2 = "net_after sample_net ?w1 PeerA SocketSend (sample_host PeerA)"
  let ?w3 = "net_after sample_net ?w2 PeerB (SocketReceive (request, SockV4 9 9)) ?b"
  have hosts: "nt_host sample_start = sample_host" "nt_host ?w1 PeerA = ?a" "nt_host ?w2 PeerB = sample_host PeerB"
    by (simp_all add: net_after_def sample_start_def)
  have known: "nt_known ?w2 = {request}" "nt_known ?w3 = {request}"
    by (simp_all add: net_after_def sample_start_def emitted_def sample_net_def)
  show ?thesis
  proof (rule that)
    show "steps (net_step sample_net) sample_start
      [(PeerA, StunSend request (SockV4 66 6)), (PeerA, SocketSend), (PeerB, SocketReceive (request, SockV4 9 9))] ?w3"
    proof (intro net_steps_Cons steps_Nil)
      show "net_input sample_net sample_start PeerA (StunSend request (SockV4 66 6))"
        unfolding request_def by (rule Lookup)
      show "net_input sample_net ?w1 PeerA SocketSend"
        by (rule Internal) (simp add: internal_step_def)
      show "net_input sample_net ?w2 PeerB (SocketReceive (request, SockV4 9 9))"
        by (rule Replay) (simp add: known)
    qed (unfold hosts, simp_all add: sample_host_simps try_send_eq mpsc_try_recv_def request_def)
  qed (rule known)
qed


end
