(* ===== verification/Flow.thy ===== *)
theory Flow
  imports Tunnel "HOL-Library.Sublist"
begin

text \<open>
  What a running connection promises its users: no task gets stuck or stops by itself, and in
  each direction the connection is a queue that may lose packets but neither reorders,
  duplicates nor invents them, however the tasks interleave.
\<close>

section \<open>Progress\<close>

text \<open>
  When a task has something to do: its queue holds a datagram and it is not in the middle of
  another one, or it holds what the step needs. The sockets, the DHT and the timers decide
  about their own steps.
\<close>

fun task_ready :: "session \<Rightarrow> task_step \<Rightarrow> bool" where
  "task_ready s RoutePacket = (ch_items (ss_from_internet s) \<noteq> [])"
| "task_ready s (ProbeTake _ _) =
     (ch_items (probe_rx (ss_rx s)) \<noteq> [] \<and> hold_admit s = None \<and> hold_echo s = None)"
| "task_ready s ProbeAdmit = (hold_admit s \<noteq> None)"
| "task_ready s ProbeEcho = (hold_echo s \<noteq> None)"
| "task_ready s InboundTake = (ch_items (data_rx (ss_rx s)) \<noteq> [] \<and> hold_inbound s = None)"
| "task_ready s InboundForward = (hold_inbound s \<noteq> None)"
| "task_ready s OutboundTake = (ch_items (ss_from_local s) \<noteq> [] \<and> hold_outbound s = None)"
| "task_ready s OutboundForward = (hold_outbound s \<noteq> None)"
| "task_ready s (DhtTake _ _) = (hold_replace s = None \<and> hold_paths s = None)"
| "task_ready s DhtReplace = (hold_replace s \<noteq> None)"
| "task_ready s (DhtPaths _) = (hold_paths s \<noteq> None)"
| "task_ready s StunTake = (ch_items (stun_rx (ss_rx s)) \<noteq> [])"
| "task_ready s SocketSend = (ch_items (ss_to_internet s) \<noteq> [])"
| "task_ready s LoopbackSend = (ch_items (lp_sender (ss_local s)) \<noteq> [])"
| "task_ready s _ = True"

lemma recv_None: "mpsc_try_recv c = None \<longleftrightarrow> ch_items c = []"
  by (simp add: mpsc_try_recv_def split: list.split)

lemma open_queues:
  assumes "session_wf flags s"
  shows "\<not> ch_closed (ss_to_internet s)" "\<not> ch_closed (ss_from_internet s)" "\<not> ch_closed (ss_from_local s)"
    "\<not> ch_closed (lp_sender (ss_local s))" "\<not> ch_closed (probe_rx (ss_rx s))" "\<not> ch_closed (stun_rx (ss_rx s))"
    "\<not> ch_closed (data_rx (ss_rx s))"
  using assms by (simp_all add: session_wf_def rx_ok_def chan_ok_def)

lemma route_packet_open:
  assumes "session_wf flags s"
  shows "\<exists>rx. res_ok (route_packet classify_packet (ss_rx s) d) = Some rx"
  using open_queues [OF assms]
  by (cases d) (simp add: route_packet_def classify_packet_eq Let_def try_send_eq split: internet_packet_kind.split)

lemma send_each_open_ok: "\<not> ch_closed c \<Longrightarrow> \<exists>c'. res_ok (send_each try_send c xs) = Some c'"
  using send_each_open [of c xs] by auto

lemma task_progress:
  assumes "session_wf (le_flags env) s"
  shows "session_step env s l \<noteq> None \<longleftrightarrow> task_ready s l"
proof (cases l)
  case RoutePacket
  with route_packet_open [OF assms] show ?thesis
    by (cases "mpsc_try_recv (ss_from_internet s)") (auto simp: recv_None [symmetric])
next
  case (ProbeTake now percent)
  then show ?thesis
    by (cases "hold_admit s"; cases "hold_echo s") (auto simp: recv_None [symmetric] Let_def split: option.splits prod.splits)
next
  case (ProbeSchedule now percent)
  with send_each_open_ok [OF open_queues(1) [OF assms]] show ?thesis
    by (auto simp: schedule_tick_def Let_def split: prod.split)
next
  case OutboundForward
  with send_each_open_ok [OF open_queues(1) [OF assms]] show ?thesis
    by (auto split: option.split)
next
  case (DhtTake now_system v)
  then show ?thesis by (cases "hold_replace s"; cases "hold_paths s") (auto split: option.split)
qed (use open_queues [OF assms] in \<open>auto simp: recv_None [symmetric] try_send_eq split: option.splits\<close>)



section \<open>The abstract queue\<close>

text \<open>
  A queue that may lose: it takes an element at the back or refuses it, gives one at the
  front, and between the two may drop any of those it holds.
\<close>

datatype 'a fifo_label = Put 'a | Get 'a | Silent

inductive fifo_step :: "'a list \<Rightarrow> 'a fifo_label \<Rightarrow> 'a list \<Rightarrow> bool" where
  Accept: "fifo_step q (Put x) (q @ [x])"
| Refuse: "fifo_step q (Put x) q"
| Emit: "fifo_step (x # q) (Get x) q"
| Lose: "subseq q' q \<Longrightarrow> fifo_step q Silent q'"

inductive_cases fifo_PutE [elim!]: "fifo_step q (Put x) q'"
inductive_cases fifo_GetE [elim!]: "fifo_step q (Get x) q'"
inductive_cases fifo_SilentE [elim!]: "fifo_step q Silent q'"

fun puts :: "'a fifo_label list \<Rightarrow> 'a list" where
  "puts [] = []"
| "puts (Put x # ls) = x # puts ls"
| "puts (_ # ls) = puts ls"

fun gets :: "'a fifo_label list \<Rightarrow> 'a list" where
  "gets [] = []"
| "gets (Get x # ls) = x # gets ls"
| "gets (_ # ls) = gets ls"

lemma subseq_insert [simp]: "subseq (xs @ ys) (xs @ z # ys)"
  by (simp add: subseq_append' list_emb_Cons)

text \<open>What comes out, followed by what is still inside, is in order among what went in.\<close>

lemma fifo_order: "steps fifo_step q ls q' \<Longrightarrow> subseq (gets ls @ q') (q @ puts ls)"
proof (induction rule: steps.induct)
  case (steps_Cons q l t ls u)
  show ?case
  proof (cases l)
    case (Put x)
    with steps_Cons show ?thesis
      by (auto intro: subseq_order.trans [OF _ subseq_insert])
  next
    case (Get x)
    with steps_Cons show ?thesis by auto
  next
    case Silent
    with steps_Cons.hyps(1) have "subseq (t @ puts ls) (q @ puts ls)"
      by auto
    with Silent steps_Cons.IH show ?thesis
      by (auto intro: subseq_order.trans)
  qed
qed simp

section \<open>Interface: a system that implements the queue\<close>

text \<open>A run of a labelled system together with what is observed of each step.\<close>

inductive observed ::
    "('s \<Rightarrow> 'l \<Rightarrow> 's \<Rightarrow> bool) \<Rightarrow> ('s \<Rightarrow> 'l \<Rightarrow> 'm) \<Rightarrow> 's \<Rightarrow> 'l list \<Rightarrow> 'm list \<Rightarrow> 's \<Rightarrow> bool"
  for step :: "'s \<Rightarrow> 'l \<Rightarrow> 's \<Rightarrow> bool" and observe :: "'s \<Rightarrow> 'l \<Rightarrow> 'm" where
  observed_Nil: "observed step observe s [] [] s"
| observed_Cons: "step s l t \<Longrightarrow> observed step observe t ls tr u \<Longrightarrow> observed step observe s (l # ls) (observe s l # tr) u"

text \<open>
  A system implements the queue through the list it holds if every step, seen through
  \<open>observe\<close>, is a step of the queue; then so is every run, and its outputs are in order among
  its inputs.
\<close>

locale fifo_implementation =
  fixes step :: "'s \<Rightarrow> 'l \<Rightarrow> 's \<Rightarrow> bool"
    and inv :: "'s \<Rightarrow> bool"
    and content :: "'s \<Rightarrow> 'a list"
    and observe :: "'s \<Rightarrow> 'l \<Rightarrow> 'a fifo_label"
  assumes step_inv: "inv s \<Longrightarrow> step s l t \<Longrightarrow> inv t"
    and step_simulates: "inv s \<Longrightarrow> step s l t \<Longrightarrow> fifo_step (content s) (observe s l) (content t)"
begin

lemma run_simulates: "observed step observe s ls tr t \<Longrightarrow> inv s \<Longrightarrow> steps fifo_step (content s) tr (content t)"
  by (induction rule: observed.induct) (auto intro: steps.intros step_inv step_simulates)

lemma run_order:
  "observed step observe s ls tr t \<Longrightarrow> inv s \<Longrightarrow> content s = [] \<Longrightarrow>
   steps fifo_step [] tr (content t) \<and> subseq (gets tr @ content t) (puts tr)"
  using run_simulates [of s ls tr t] fifo_order [of "content s" tr "content t"] by simp

end

section \<open>From the Internet to WireGuard\<close>

definition is_data :: "bytes \<Rightarrow> bool" where
  "is_data packet \<longleftrightarrow> classify_packet packet = Ok KData"

definition inbound_content :: "session \<Rightarrow> bytes list" where
  "inbound_content s = map fst (ch_items (lp_sender (ss_local s))) @ (case hold_inbound s of None \<Rightarrow> [] | Some p \<Rightarrow> [p])
     @ map fst (ch_items (data_rx (ss_rx s))) @ filter is_data (map fst (ch_items (ss_from_internet s)))"

definition inbound_label :: "session \<Rightarrow> task_step \<Rightarrow> bytes fifo_label" where
  "inbound_label s l =
     (case l of
        SocketReceive d \<Rightarrow> (let p = take (64 * 1024) (fst d) in if is_data p then Put p else Silent)
      | LoopbackSend \<Rightarrow> (case ch_items (lp_sender (ss_local s)) of [] \<Rightarrow> Silent | d # _ \<Rightarrow> Get (fst d))
      | _ \<Rightarrow> Silent)"

lemma recv_Some: "mpsc_try_recv c = Some (x, c') \<Longrightarrow> ch_items c = x # ch_items c'"
  by (auto simp: mpsc_try_recv_def split: list.splits)

lemma try_send_items:
  "res_ok (try_send c x) = Some (c', stored) \<Longrightarrow> ch_items c' = (if stored then ch_items c @ [x] else ch_items c)"
  by (auto simp: try_send_eq split: if_splits)

lemma route_data_items:
  assumes "res_ok (route_packet classify_packet rx (packet, raw)) = Some rx'"
  shows "ch_items (data_rx rx') = ch_items (data_rx rx) \<or>
    is_data packet \<and> ch_items (data_rx rx') = ch_items (data_rx rx) @ [(packet, normalize_ipv4_mapped_source raw)]"
  using assms
  by (auto simp: route_packet_def is_data_def classify_packet_eq Let_def try_send_eq split: if_splits)

lemma inbound_route:
  assumes "session_step env s RoutePacket = Some t"
  shows "subseq (inbound_content t) (inbound_content s)"
proof -
  from assms obtain packet raw rest rx where
    d: "mpsc_try_recv (ss_from_internet s) = Some ((packet, raw), rest)"
    and rx: "res_ok (route_packet classify_packet (ss_rx s) (packet, raw)) = Some rx"
    and t: "t = s\<lparr>ss_from_internet := rest, ss_rx := rx\<rparr>"
    by (auto split: option.splits)
  from route_data_items [OF rx] show ?thesis
    by (auto simp: t inbound_content_def recv_Some [OF d] subseq_append')
qed

text \<open>The steps that leave the inbound direction alone.\<close>

definition inbound_idle :: "task_step \<Rightarrow> bool" where
  "inbound_idle l = (case l of SocketReceive _ \<Rightarrow> False | RoutePacket \<Rightarrow> False | InboundTake \<Rightarrow> False
     | InboundForward \<Rightarrow> False | LoopbackSend \<Rightarrow> False | _ \<Rightarrow> True)"

lemma inbound_idle_step:
  assumes "session_step env s l = Some t" and "inbound_idle l"
  shows "inbound_content t = inbound_content s \<and> inbound_label s l = Silent"
  using assms
  by (cases l) (auto simp: inbound_idle_def inbound_content_def inbound_label_def Let_def
      split: option.splits prod.splits if_splits)

lemma inbound_simulates:
  assumes "session_step env s l = Some t"
  shows "fifo_step (inbound_content s) (inbound_label s l) (inbound_content t)"
proof (cases "inbound_idle l")
  case True
  with inbound_idle_step [OF assms] show ?thesis by (simp add: Lose)
next
  case False
  then consider d where "l = SocketReceive d" | "l = RoutePacket" | "l = InboundTake" | "l = InboundForward" | "l = LoopbackSend"
    by (cases l) (auto simp: inbound_idle_def)
  then show ?thesis
  proof cases
    case 1
    with assms obtain c b where c: "res_ok (try_send (ss_from_internet s) (take (64 * 1024) (fst d), snd d)) = Some (c, b)"
      and t: "t = s\<lparr>ss_from_internet := c\<rparr>"
      by auto
    show ?thesis
      using Accept [of "inbound_content s"] 
      by (auto simp: 1 t inbound_content_def inbound_label_def Let_def try_send_items [OF c] intro: Refuse Lose)
  next
    case 2
    with inbound_route assms show ?thesis by (auto simp: inbound_label_def intro: Lose)
  next
    case 3
    with assms show ?thesis
      by (auto simp: inbound_content_def inbound_label_def intro!: Lose dest!: recv_Some split: option.splits if_splits)
  next
    case 4
    with assms show ?thesis
      by (auto simp: inbound_content_def inbound_label_def intro!: Lose dest!: try_send_items split: option.splits if_splits)
  next
    case 5
    with assms show ?thesis
      by (auto simp: inbound_content_def inbound_label_def intro!: Emit dest!: recv_Some)
  qed
qed

section \<open>From WireGuard to one address\<close>

text \<open>
  The send queue also carries control frames and STUN requests, which are 20 bytes long or
  begin with the magic of the control protocol. WireGuard's messages are neither.
\<close>

definition payload :: "bytes \<Rightarrow> bool" where
  "payload packet \<longleftrightarrow> \<not> classify packet \<and> length packet \<noteq> 20"

definition outbound_content :: "socket_addr \<Rightarrow> session \<Rightarrow> bytes list" where
  "outbound_content a s =
     map fst (filter (\<lambda>d. snd d = a \<and> payload (fst d)) (ch_items (ss_to_internet s)))
     @ filter payload (case hold_outbound s of None \<Rightarrow> [] | Some p \<Rightarrow> [p])
     @ filter payload (map fst (ch_items (ss_from_local s)))"

definition outbound_label :: "socket_addr \<Rightarrow> session \<Rightarrow> task_step \<Rightarrow> bytes fifo_label" where
  "outbound_label a s l =
     (case l of
        LoopbackReceive d \<Rightarrow> (let p = take (64 * 1024) (fst d) in if payload p then Put p else Silent)
      | SocketSend \<Rightarrow>
          (case ch_items (ss_to_internet s) of
             [] \<Rightarrow> Silent | d # _ \<Rightarrow> if snd d = a \<and> payload (fst d) then Get (fst d) else Silent)
      | _ \<Rightarrow> Silent)"

text \<open>What the STUN client and the probe handler put into the send queue is no payload.\<close>

definition stun_sized :: "task_step \<Rightarrow> bool" where
  "stun_sized l = (case l of StunSend request server \<Rightarrow> length request = 20 | _ \<Rightarrow> True)"

definition control_held :: "session \<Rightarrow> bool" where
  "control_held s \<longleftrightarrow> pred_option (\<lambda>d. classify (fst d)) (hold_admit s) \<and> pred_option (\<lambda>d. classify (fst d)) (hold_echo s)"

lemma control_held_step:
  assumes "control_held s" and "session_step env s l = Some t"
  shows "control_held t"
proof (cases l)
  case (ProbeTake now percent)
  with assms show ?thesis
    by (auto simp: control_held_def packet_action_echo parse_frame_iff case_prod_unfold Let_def
        split: option.splits if_splits)
qed (use assms in \<open>auto simp: control_held_def Let_def split: option.splits prod.splits if_splits\<close>)

text \<open>Queueing several datagrams appends some of them, in order.\<close>

lemma send_each_appends:
  "res_ok (send_each try_send c xs) = Some c' \<Longrightarrow> \<exists>ys. ch_items c' = ch_items c @ ys \<and> subseq ys xs"
proof (induction xs arbitrary: c)
  case (Cons x xs)
  then obtain c1 b where c1: "res_ok (try_send c x) = Some (c1, b)" "res_ok (send_each try_send c1 xs) = Some c'"
    by (cases "try_send c x") auto
  from Cons.IH [OF this(2)] obtain ys where "ch_items c' = ch_items c1 @ ys" "subseq ys xs"
    by blast
  with try_send_items [OF c1(1)] show ?case
    by (cases b) auto
qed simp

lemma subseq_set: "subseq xs ys \<Longrightarrow> set xs \<subseteq> set ys"
  by (auto simp: subseq_conv_nths dest: in_set_nthsD)

lemma no_payload_appended:
  assumes "res_ok (send_each try_send c xs) = Some c'" and "\<And>d. d \<in> set xs \<Longrightarrow> \<not> payload (fst d)"
  shows "filter (\<lambda>d. snd d = a \<and> payload (fst d)) (ch_items c') = filter (\<lambda>d. snd d = a \<and> payload (fst d)) (ch_items c)"
proof -
  obtain ys where "ch_items c' = ch_items c @ ys" "subseq ys xs"
    using send_each_appends [OF assms(1)] by blast
  with assms(2) show ?thesis
    by (auto simp: filter_empty_conv dest!: subseq_set)
qed

lemma due_frames_control:
  assumes "hash_order iter" and "finite (dom (paths st))" and "d \<in> set (snd (due_frames iter now percent st))"
  shows "\<not> payload (fst d)"
  using assms due_frames_closed [OF assms(1,2)]
  by (cases "remote_token st") (auto simp: due_frames_def payload_def)

lemma outbound_schedule:
  assumes "hash_order (le_iter env)" and "session_wf (le_flags env) s"
    and "session_step env s (ProbeSchedule now percent) = Some t"
  shows "outbound_content a t = outbound_content a s"
proof -
  let ?due = "due_frames (le_iter env) now percent (ss_probes s)"
  from assms(3) obtain c where c: "res_ok (send_each try_send (ss_to_internet s) (snd ?due)) = Some c"
    and t: "t = s\<lparr>ss_probes := fst ?due, ss_to_internet := c\<rparr>"
    by (auto simp: schedule_tick_def Let_def case_prod_unfold)
  have "finite (dom (paths (ss_probes s)))"
    using assms(2) by (simp add: session_wf_def probe_wf_def)
  from no_payload_appended [OF c due_frames_control [OF assms(1) this]] show ?thesis
    by (simp add: t outbound_content_def)
qed

lemma filter_distinct: "distinct xs \<Longrightarrow> subseq (filter (\<lambda>b. b = a) xs) [a]"
proof (induction xs)
  case (Cons x xs)
  have "a \<notin> set xs \<Longrightarrow> filter (\<lambda>b. b = a) xs = []"
    by (auto simp: filter_empty_conv)
  with Cons show ?case by auto
qed simp

text \<open>A packet is sent to each candidate at most once.\<close>

lemma outbound_forward:
  assumes "hash_order (le_iter env)" and "session_wf (le_flags env) s"
    and "session_step env s OutboundForward = Some t"
  shows "subseq (outbound_content a t) (outbound_content a s)"
proof -
  let ?P = "\<lambda>d. snd d = a \<and> payload (fst d)"
  from assms(3) obtain packet c where h: "hold_outbound s = Some packet"
    and c: "res_ok (send_each try_send (ss_to_internet s)
      (map (Pair packet) (addresses (le_iter env) (ss_connections s)))) = Some c"
    and t: "t = s\<lparr>ss_to_internet := c, hold_outbound := None\<rparr>"
    by (auto split: option.splits)
  obtain ys where ys: "ch_items c = ch_items (ss_to_internet s) @ ys"
    "subseq ys (map (Pair packet) (addresses (le_iter env) (ss_connections s)))"
    using send_each_appends [OF c] by blast
  have "distinct (addresses (le_iter env) (ss_connections s))"
    using address_order.candidates_listing_bound [OF address_order.intro, OF assms(1)] assms(2)
    by (simp add: session_wf_def)
  then have "subseq (filter (\<lambda>b. b = a) (addresses (le_iter env) (ss_connections s))) [a]"
    by (rule filter_distinct)
  from subseq_map [OF this, of "\<lambda>_. packet"]
  have "subseq (map fst (filter ?P (map (Pair packet) (addresses (le_iter env) (ss_connections s))))) (filter payload [packet])"
    by (simp add: filter_map o_def)
  moreover have "subseq (map fst (filter ?P ys))
      (map fst (filter ?P (map (Pair packet) (addresses (le_iter env) (ss_connections s)))))"
    using ys(2) by (intro subseq_map subseq_filter)
  ultimately have "subseq (map fst (filter ?P ys)) (filter payload [packet])"
    by (rule subseq_order.trans [rotated])
  then show ?thesis
    by (simp add: t outbound_content_def h ys(1) subseq_append' del: filter.simps)
qed

text \<open>The steps that leave the outbound direction alone.\<close>

definition outbound_idle :: "task_step \<Rightarrow> bool" where
  "outbound_idle l = (case l of ProbeSchedule _ _ \<Rightarrow> False | LoopbackReceive _ \<Rightarrow> False | OutboundTake \<Rightarrow> False
     | OutboundForward \<Rightarrow> False | SocketSend \<Rightarrow> False | _ \<Rightarrow> True)"

lemma outbound_idle_frame:
  assumes "session_step env s l = Some t" and "outbound_idle l"
  shows "ss_from_local t = ss_from_local s \<and> hold_outbound t = hold_outbound s \<and> outbound_label a s l = Silent \<and>
    (ss_to_internet t = ss_to_internet s \<or>
     (\<exists>d b. res_ok (try_send (ss_to_internet s) d) = Some (ss_to_internet t, b) \<and>
        (l = ProbeEcho \<and> hold_echo s = Some d \<or> (\<exists>server. l = StunSend (fst d) server))))"
proof (cases l)
  case ProbeEcho
  with assms(1) show ?thesis by (auto simp: outbound_label_def split: option.splits)
next
  case (StunSend request server)
  with assms(1) show ?thesis by (auto simp: outbound_label_def)
qed (use assms in \<open>auto simp: outbound_idle_def outbound_label_def Let_def split: option.splits prod.splits if_splits\<close>)

lemma outbound_idle_step:
  assumes "session_step env s l = Some t" and "outbound_idle l" and "stun_sized l" and "control_held s"
  shows "outbound_content a t = outbound_content a s \<and> outbound_label a s l = Silent"
proof -
  note frame = outbound_idle_frame [OF assms(1,2), of a]
  have "\<not> payload (fst d)" if "l = ProbeEcho \<and> hold_echo s = Some d \<or> (\<exists>server. l = StunSend (fst d) server)" for d
    using that assms(3,4) by (auto simp: payload_def stun_sized_def control_held_def)
  with frame have "filter (\<lambda>d. snd d = a \<and> payload (fst d)) (ch_items (ss_to_internet t)) =
      filter (\<lambda>d. snd d = a \<and> payload (fst d)) (ch_items (ss_to_internet s))"
    by (auto dest!: try_send_items)
  with frame show ?thesis
    by (simp add: outbound_content_def)
qed

lemma outbound_simulates:
  assumes "hash_order (le_iter env)" and "session_wf (le_flags env) s" and "control_held s"
    and "stun_sized l" and step: "session_step env s l = Some t"
  shows "fifo_step (outbound_content a s) (outbound_label a s l) (outbound_content a t)"
proof (cases "outbound_idle l")
  case True
  with outbound_idle_step [OF step _ assms(4,3)] show ?thesis by (simp add: Lose)
next
  case False
  then consider now percent where "l = ProbeSchedule now percent" | d where "l = LoopbackReceive d" | "l = OutboundTake"
    | "l = OutboundForward" | "l = SocketSend"
    by (cases l) (auto simp: outbound_idle_def)
  then show ?thesis
  proof cases
    case 1
    with outbound_schedule [OF assms(1,2)] step show ?thesis by (auto simp: outbound_label_def intro: Lose)
  next
    case 2
    with step obtain c b where c: "res_ok (try_send (ss_from_local s) (take (64 * 1024) (fst d), snd d)) = Some (c, b)"
      and t: "t = s\<lparr>ss_from_local := c\<rparr>"
      by auto
    show ?thesis
      using Accept [of "outbound_content a s"]
      by (auto simp: 2 t outbound_content_def outbound_label_def Let_def try_send_items [OF c] intro: Refuse Lose)
  next
    case 3
    with step show ?thesis
      by (auto simp: outbound_content_def outbound_label_def intro!: Lose dest!: recv_Some split: option.splits if_splits)
  next
    case 4
    with outbound_forward [OF assms(1,2)] step show ?thesis by (auto simp: outbound_label_def intro: Lose)
  next
    case 5
    with step show ?thesis
      by (auto simp: outbound_content_def outbound_label_def intro: Emit Lose dest!: recv_Some)
  qed
qed

section \<open>Both directions\<close>

definition flow_step :: "listen_env \<Rightarrow> session \<Rightarrow> task_step \<Rightarrow> session \<Rightarrow> bool" where
  "flow_step env s l t \<longleftrightarrow> hash_order (le_iter env) \<and> stun_sized l \<and> session_step env s l = Some t"

definition flow_inv :: "listen_env \<Rightarrow> session \<Rightarrow> bool" where
  "flow_inv env s \<longleftrightarrow> session_wf (le_flags env) s \<and> control_held s"

lemma flow_inv_step: "flow_inv env s \<Longrightarrow> flow_step env s l t \<Longrightarrow> flow_inv env t"
  using session_wf_step control_held_step unfolding flow_inv_def flow_step_def by blast

interpretation inbound: fifo_implementation "flow_step env" "flow_inv env" inbound_content inbound_label for env
  by unfold_locales (auto simp: flow_step_def simp del: session_step.simps intro: flow_inv_step [unfolded flow_step_def]
      inbound_simulates)

interpretation outbound: fifo_implementation "flow_step env" "flow_inv env" "outbound_content a" "outbound_label a" for env a
  by unfold_locales (auto simp: flow_step_def flow_inv_def simp del: session_step.simps
      intro: session_wf_step control_held_step outbound_simulates)

text \<open>What is observed of an execution.\<close>

fun flow_trace :: "(session \<Rightarrow> task_step \<Rightarrow> 'm) \<Rightarrow> listen_env \<Rightarrow> session \<Rightarrow> task_step list \<Rightarrow> 'm list" where
  "flow_trace observe env s [] = []"
| "flow_trace observe env s (l # ls) =
     observe s l # (case session_step env s l of None \<Rightarrow> [] | Some t \<Rightarrow> flow_trace observe env t ls)"

lemma flow_trace_observed:
  "session_exec env s ls = Some t \<Longrightarrow> hash_order (le_iter env) \<Longrightarrow> list_all stun_sized ls \<Longrightarrow>
   observed (flow_step env) observe s ls (flow_trace observe env s ls) t"
proof (induction ls arbitrary: s)
  case (Cons l ls)
  then obtain u where "session_step env s l = Some u" "session_exec env u ls = Some t"
    by (auto simp del: session_step.simps split: option.splits)
  with Cons show ?case
    by (auto simp: flow_step_def simp del: session_step.simps intro: observed_Cons)
qed (simp add: observed_Nil)

lemma session_new_flow:
  assumes "setup_peer b64_decode (le_flags env) res p i = Ok su" and "length (pr_token res) = 16"
  shows "flow_inv env (session_new su)" "inbound_content (session_new su) = []" "outbound_content a (session_new su) = []"
proof -
  have "su_local_peer su = \<lparr>lp_sender = channel_new UDP_QUEUE_CAPACITY, lp_addr = None\<rparr>"
    "su_to_internet su = channel_new UDP_QUEUE_CAPACITY" "su_receivers su = receivers_new"
    using assms(1) by (auto simp: setup_peer_def bind_loopback_def Let_def result_simps)
  then show "inbound_content (session_new su) = []" "outbound_content a (session_new su) = []"
    by (simp_all add: inbound_content_def outbound_content_def session_new_def receivers_new_def channel_new_def)
  show "flow_inv env (session_new su)"
    using session_new_wf(1) [OF assms] by (simp add: flow_inv_def control_held_def session_new_def)
qed

text \<open>
  \<^bold>\<open>C8\<close>. A connection is a pair of lossy queues: however its tasks interleave, whatever arrives
  and however the candidates change meanwhile, every run is, towards WireGuard, a run of the
  abstract queue that takes the data packets the Internet socket receives and gives what is
  sent to WireGuard, and towards each address a run of the queue that takes WireGuard's
  packets and gives those sent to that address. So in both directions packets may be lost but
  are never reordered, duplicated or invented (a datagram is read up to 64 KiB); what is still in the queues comes after
  what was sent.
\<close>

theorem connection_is_lossy_fifo:
  assumes "hash_order (le_iter env)" and "setup_peer b64_decode (le_flags env) res p i = Ok su"
    and "length (pr_token res) = 16" and "session_exec env (session_new su) ls = Some s" and "list_all stun_sized ls"
  shows "(let tr = flow_trace inbound_label env (session_new su) ls in
      steps fifo_step [] tr (inbound_content s) \<and> subseq (gets tr @ inbound_content s) (puts tr)) \<and>
    (let tr = flow_trace (outbound_label a) env (session_new su) ls in
      steps fifo_step [] tr (outbound_content a s) \<and> subseq (gets tr @ outbound_content a s) (puts tr))"
  using inbound.run_order [OF flow_trace_observed [OF assms(4,1,5)]] session_new_flow [OF assms(2,3)]
    outbound.run_order [OF flow_trace_observed [OF assms(4,1,5)], of a]
  by (simp add: Let_def)

theorem connection_is_lossy_fifo_witness:
  "\<exists>s. session_exec sample_env (session_new sample_su) (sample_steps (SockV4 9 9)) = Some s \<and>
     [9] \<in> set (puts (flow_trace inbound_label sample_env (session_new sample_su) (sample_steps (SockV4 9 9))))"
proof -
  have "normalize_ipv4_mapped_source (SockV4 9 9) = SockV4 9 9"
    by (simp add: normalize_ipv4_mapped_source_def)
  then obtain s where s: "session_exec sample_env (session_new sample_su) (sample_steps (SockV4 9 9)) = Some s"
    "ch_items (lp_sender (ss_local s)) = [([9], SockV4 0x7F000001 7)]"
    using sample_run by blast
  have "list_all stun_sized (sample_steps (SockV4 9 9))"
    by (simp add: sample_steps_def stun_sized_def)
  from connection_is_lossy_fifo [OF sample_order sample_setup_peer sample_token(2) s(1) this]
  have "subseq (gets (flow_trace inbound_label sample_env (session_new sample_su) (sample_steps (SockV4 9 9))) @ inbound_content s)
      (puts (flow_trace inbound_label sample_env (session_new sample_su) (sample_steps (SockV4 9 9))))"
    by (simp add: Let_def)
  moreover have "[9] \<in> set (inbound_content s)"
    by (simp add: inbound_content_def s(2))
  ultimately show ?thesis
    using s(1) subseq_set by fastforce
qed

end
