(* ===== verification/Unit_Tests.thy ===== *)
theory Unit_Tests
  imports Tunnel
begin

text \<open>
  The unit tests of the repository, run against the model: each test is a predicate that makes
  the assertions of the Rust test on the definitions of the component, and is shown to hold by
  evaluation. Where a test uses the clock, a random token, a hash order or a third-party
  decoder, the predicate takes them as arguments and holds for all that the test allows.
\<close>

section \<open>Literals\<close>

text \<open>\<open>b"..."\<close> literals and \<open>SocketAddr::from(([a, b, c, d], port))\<close>.\<close>

definition byte_string :: "string \<Rightarrow> bytes" where
  "byte_string s = map of_char s"

definition addr_v4 :: "bytes \<Rightarrow> u16 \<Rightarrow> socket_addr" where
  "addr_v4 octets port = SockV4 (from_be octets) port"

definition addr_v4_mapped :: "bytes \<Rightarrow> u16 \<Rightarrow> socket_addr" where
  "addr_v4_mapped octets port = SockV6 (ipv4_mapped (from_be octets)) port 0 0"

text \<open>\<open>str::contains\<close> and the \<open>Display\<close> of an \<open>Ipv4Addr\<close>.\<close>

definition str_contains :: "string \<Rightarrow> string \<Rightarrow> bool" where
  "str_contains haystack needle =
     list_ex (\<lambda>i. take (length needle) (drop i haystack) = needle) [0 ..< Suc (length haystack)]"

fun ipv4_display :: "bytes \<Rightarrow> string" where
  "ipv4_display [] = []"
| "ipv4_display [octet] = show_nat (unat octet)"
| "ipv4_display (octet # rest) = show_nat (unat octet) @ ''.'' @ ipv4_display rest"

section \<open>\<open>src/stun/codec.rs\<close>\<close>

definition test_encode_address :: bool where
  "test_encode_address \<longleftrightarrow>
     attribute_encode (ChangedAddress (addr_v4 [127, 0, 1, 2] 54321)) [] =
       Ok [0x00, 0x05, 0x00, 0x08, 0x00, 0x01, 0xd4, 0x31, 0x7f, 0x00, 0x01, 0x02]"

definition test_encode_binding_request :: bool where
  "test_encode_binding_request \<longleftrightarrow>
     stun_encode (0x123456789,
        Bind \<lparr>response_address = None, bind_change_request = CR_IpAndPort, username = Some (byte_string ''foo'')\<rparr>) [] =
       Ok [0x00, 0x01, 0x00, 0x10,
           0x21, 0x12, 0xa4, 0x42, 0x00, 0x00, 0x00, 0x00,
           0x00, 0x00, 0x00, 0x01, 0x23, 0x45, 0x67, 0x89,
           0x00, 0x03, 0x00, 0x04, 0x00, 0x00, 0x00, 0x60,
           0x00, 0x06, 0x00, 0x04, 0x66, 0x6f, 0x6f, 0x00]"

definition test_decodes_a_standard_xor_mapped_address :: bool where
  "test_decodes_a_standard_xor_mapped_address \<longleftrightarrow>
     (let transaction_id = 0x0123456789abcdef :: u64;
          ip = [203, 0, 113, 9]; port = 3478 :: u16;
          response = to_be 2 BINDING_RESPONSE @ to_be 2 (12 :: u16)
            @ to_be 8 (push_bit 32 (ucast MAGIC_COOKIE) :: u64) @ to_be 8 transaction_id
            @ to_be 2 XOR_MAPPED_ADDRESS @ to_be 2 (8 :: u16) @ [0, 1]
            @ to_be 2 (port XOR ucast (drop_bit 16 MAGIC_COOKIE))
            @ map2 (XOR) ip (to_be 4 MAGIC_COOKIE)
      in (case decode_const transaction_id response of
            Inr (Some (BindResponse binding)) \<Rightarrow> mapped_address binding = addr_v4 ip port
          | _ \<Rightarrow> False))"

definition test_rejects_a_truncated_xor_mapped_address :: bool where
  "test_rejects_a_truncated_xor_mapped_address \<longleftrightarrow>
     (let transaction_id = 0x0123456789abcdef :: u64;
          response = to_be 2 BINDING_RESPONSE @ to_be 2 (8 :: u16)
            @ to_be 8 (push_bit 32 (ucast MAGIC_COOKIE) :: u64) @ to_be 8 transaction_id
            @ to_be 2 XOR_MAPPED_ADDRESS @ to_be 2 (1 :: u16) @ [0, 0, 0, 0]
      in (case decode_const transaction_id response of Inl e \<Rightarrow> e \<noteq> Panic | Inr _ \<Rightarrow> False))"

lemma codec_tests_pass:
  "test_encode_address" "test_encode_binding_request" "test_decodes_a_standard_xor_mapped_address"
  "test_rejects_a_truncated_xor_mapped_address"
  by code_simp+

section \<open>\<open>src/stun/mod.rs\<close>\<close>

definition test_accepts_only_the_configured_stun_server :: bool where
  "test_accepts_only_the_configured_stun_server \<longleftrightarrow>
     (let server = addr_v4 [192, 0, 2, 1] 3478
      in is_expected_stun_source server server \<and>
         \<not> is_expected_stun_source (addr_v4 [192, 0, 2, 2] 3478) server \<and>
         \<not> is_expected_stun_source (addr_v4 [192, 0, 2, 1] 3479) server)"

definition test_accepts_ipv4_mapped_source_from_dual_stack_socket :: bool where
  "test_accepts_ipv4_mapped_source_from_dual_stack_socket \<longleftrightarrow>
     (let server = addr_v4 [192, 0, 2, 1] 3478
      in is_expected_stun_source (addr_v4_mapped [192, 0, 2, 1] 3478) server \<and>
         \<not> is_expected_stun_source (addr_v4_mapped [192, 0, 2, 2] 3478) server \<and>
         \<not> is_expected_stun_source (addr_v4_mapped [192, 0, 2, 1] 3479) server)"

lemma stun_tests_pass:
  "test_accepts_only_the_configured_stun_server" "test_accepts_ipv4_mapped_source_from_dual_stack_socket"
  by code_simp+

section \<open>\<open>src/utils.rs\<close>\<close>

text \<open>
  The loopback of the operating system hands a datagram over unchanged: what the sender task
  transmits is what the peer's socket receives, and conversely.
\<close>

definition test_forwards_datagrams_in_both_directions :: "socket_addr \<Rightarrow> bool" where
  "test_forwards_datagrams_in_both_directions peer_addr \<longleftrightarrow>
     (let (sent, _, _, ended) = udp_sender [(byte_string ''outbound'', peer_addr)] False [Ok 8]
      in sent = [(byte_string ''outbound'', peer_addr)] \<and> ended = None) \<and>
     (let (rx, ended) = udp_receiver (channel_new UDP_QUEUE_CAPACITY) [Ok (byte_string ''inbound'', peer_addr)]
      in map_option fst (mpsc_try_recv rx) = Some (byte_string ''inbound'', peer_addr) \<and> ended = None)"

definition test_drops_datagrams_when_a_bounded_queue_is_full :: bool where
  "test_drops_datagrams_when_a_bounded_queue_is_full \<longleftrightarrow>
     (case try_send (channel_new 1) (1 :: int) of
        Inl _ \<Rightarrow> False
      | Inr (sender, stored) \<Rightarrow> stored \<and>
          (case try_send sender 2 of
             Inl _ \<Rightarrow> False
           | Inr (receiver, stored') \<Rightarrow> \<not> stored' \<and> map_option fst (mpsc_try_recv receiver) = Some 1))"

definition test_retries_only_network_unreachable_udp_send_errors :: bool where
  "test_retries_only_network_unreachable_udp_send_errors \<longleftrightarrow>
     should_retry_udp_send (IoError NetworkUnreachable ''network is unreachable'') \<and>
     should_retry_udp_send (IoError NetworkUnreachable ''Network is unreachable (os error 101)'') \<and>
     \<not> should_retry_udp_send (IoError PermissionDenied ''permission denied'')"

definition test_reports_an_unexpected_clean_task_exit :: bool where
  "test_reports_an_unexpected_clean_task_exit \<longleftrightarrow>
     (case spawn_completed monitor_new ''clean exit'' (Ok ()) of
        None \<Rightarrow> False
      | Some failure \<Rightarrow> failed_task failure = ''clean exit'' \<and> failure_error failure = ''task ended unexpectedly'')"

definition test_reports_a_task_panic :: bool where
  "test_reports_a_task_panic \<longleftrightarrow>
     (case spawn_completed monitor_new ''panic'' (Err Panic) of
        None \<Rightarrow> False
      | Some failure \<Rightarrow> failed_task failure = ''panic'' \<and> failure_error failure = ''task panicked'')"

lemma utils_tests_pass:
  "test_forwards_datagrams_in_both_directions peer_addr" "test_drops_datagrams_when_a_bounded_queue_is_full"
  "test_retries_only_network_unreachable_udp_send_errors" "test_reports_an_unexpected_clean_task_exit"
  "test_reports_a_task_panic"
  by (simp_all add: test_forwards_datagrams_in_both_directions_def byte_string_def channel_new_def try_send_eq
      mpsc_try_recv_def UDP_QUEUE_CAPACITY_def test_drops_datagrams_when_a_bounded_queue_is_full_def
      test_retries_only_network_unreachable_udp_send_errors_def should_retry_udp_send_def
      test_reports_an_unexpected_clean_task_exit_def test_reports_a_task_panic_def spawn_completed_def
      report_failure_def monitor_new_def)

section \<open>\<open>src/probe.rs\<close>\<close>

definition test_frames_are_exact :: bool where
  "test_frames_are_exact \<longleftrightarrow>
     (let token = replicate 16 7; packet = frame token
      in length packet = FRAME_LEN \<and> parse_frame packet = Some token \<and> classify packet \<and>
         classify (byte_string ''P2PC-short'') \<and> parse_frame (byte_string ''P2PC-short'') = None \<and>
         \<not> classify (byte_string ''not-control''))"

definition test_accepts_only_exactly_sized_base64_tokens :: "(string \<Rightarrow> bytes option) \<Rightarrow> bool" where
  "test_accepts_only_exactly_sized_base64_tokens b64_decode \<longleftrightarrow>
     decode_token b64_decode ''AAAAAAAAAAAAAAAAAAAAAA=='' = Some (replicate 16 0) \<and>
     decode_token b64_decode ''AAAA'' = None \<and> decode_token b64_decode ''not base64'' = None"

definition test_valid_local_token_is_admitted :: "bytes \<Rightarrow> instant \<Rightarrow> instant \<Rightarrow> nat \<Rightarrow> bool" where
  "test_valid_local_token_is_admitted token t1 t2 percent \<longleftrightarrow>
     (let controller = probe_new token; source = addr_v4 [192, 0, 2, 10] 12345;
          (controller, action) = packet_action t1 percent controller (frame token) source;
          (controller, action') = packet_action t2 percent controller (frame (replicate 16 9)) source
      in action = EchoAndAdmit \<and> action' = DropPacket)"

definition test_valid_local_token_adds_a_peer_reflexive_candidate :: "bytes \<Rightarrow> instant \<Rightarrow> nat \<Rightarrow> bool" where
  "test_valid_local_token_adds_a_peer_reflexive_candidate token now percent \<longleftrightarrow>
     (let source = addr_v4 [192, 0, 2, 10] 12345;
          ((_, connections, to_internet), ended) =
            handle_packets (probe_new token, candidate_set_default, channel_new 1) [(now, percent, frame token, source)]
      in map_option (\<lambda>r. snd (fst r)) (mpsc_try_recv to_internet) = Some source \<and>
         contains connections source \<and> ended \<noteq> Ok ())"

definition test_acknowledgement_must_match_an_outstanding_same_family_path ::
    "(socket_addr set \<Rightarrow> socket_addr list) \<Rightarrow> bytes \<Rightarrow> instant list \<Rightarrow> (socket_addr \<Rightarrow> nat) \<Rightarrow> bool" where
  "test_acknowledgement_must_match_an_outstanding_same_family_path iter token ts percent \<longleftrightarrow>
     (let remote = replicate 16 5; ipv4 = addr_v4 [192, 0, 2, 10] 12345;
          ipv6 = SockV6 0x20010db8000000000000000000000010 12345 0 0;
          controller = update_remote (ts ! 0) (probe_new token) (Some remote) [ipv4];
          (controller, unsolicited) = packet_action (ts ! 1) (percent ipv4) controller (frame remote) ipv4;
          (controller, frames) = due_frames iter (ts ! 2) percent controller;
          (controller, elsewhere) = packet_action (ts ! 3) (percent ipv4) controller (frame remote) ipv6;
          (controller, answer) = packet_action (ts ! 4) (percent ipv4) controller (frame remote) ipv4
      in unsolicited = DropPacket \<and> length frames = 1 \<and> elsewhere = DropPacket \<and> answer = Acknowledged)"

text \<open>What the standard base64 alphabet makes of the three texts of the token test.\<close>

lemma token_test_passes:
  assumes "b64_decode ''AAAAAAAAAAAAAAAAAAAAAA=='' = Some (replicate 16 0)" and "b64_decode ''AAAA'' = Some [0, 0, 0]"
    and "b64_decode ''not base64'' = None"
  shows "test_accepts_only_exactly_sized_base64_tokens b64_decode"
  using assms by (simp add: test_accepts_only_exactly_sized_base64_tokens_def decode_token_def del: replicate.simps)

lemma probe_tests_pass:
  assumes "length token = 16" and "token \<noteq> replicate 16 9"
  shows "test_frames_are_exact" and "test_valid_local_token_is_admitted token t1 t2 percent"
    and "test_valid_local_token_adds_a_peer_reflexive_candidate token now percent"
proof -
  show "test_frames_are_exact"
    by code_simp
  show "test_valid_local_token_is_admitted token t1 t2 percent"
    using assms
    by (simp add: test_valid_local_token_is_admitted_def packet_action_def probe_new_def retain_recent_def
        MAX_REPLY_SOURCES_def Let_def del: replicate.simps)
  show "test_valid_local_token_adds_a_peer_reflexive_candidate token now percent"
    using assms
    by (simp add: test_valid_local_token_adds_a_peer_reflexive_candidate_def handle_packet_def packet_action_def
        probe_new_def retain_recent_def MAX_REPLY_SOURCES_def Let_def channel_new_def try_send_eq mpsc_try_recv_def
        add_peer_reflexive_def contains_def candidate_set_default_def MAX_PEER_REFLEXIVE_CANDIDATES_def)
qed

lemma acknowledgement_test_passes:
  assumes "hash_order iter" and "length token = 16" and "token \<noteq> replicate 16 5" and "ts ! 0 \<le> ts ! 2"
  shows "test_acknowledgement_must_match_an_outstanding_same_family_path iter token ts percent"
proof -
  let ?a = "addr_v4 [192, 0, 2, 10] 12345"
  have iter: "iter {?a} = [?a]"
    using hash_order.iter_length [OF assms(1), of "{?a}"] hash_order.iter_set [OF assms(1), of "{?a}"]
    by (cases "iter {?a}") auto
  have neq: "SockV6 ip port flow scope \<noteq> ?a" for ip port flow scope
    by (simp add: addr_v4_def)
  have start: "update_remote t (probe_new token) (Some remote) [?a] =
      \<lparr>local_token = token, remote_token = Some remote, paths = [?a \<mapsto> path_new t], reply_sources = Map.empty\<rparr>" for t remote
    by (auto simp: update_remote_def probe_new_def MAX_PROBE_PATHS_def Let_def fun_eq_iff restrict_map_def)
  from assms(2,4) assms(3) [symmetric] iter neq show ?thesis
    by (simp add: test_acknowledgement_must_match_an_outstanding_same_family_path_def start retain_recent_def
        packet_action_def due_frames_def path_new_def path_due_def path_timed_out_def Let_def del: replicate.simps)
qed

section \<open>\<open>src/transport.rs\<close>\<close>

text \<open>The socket opens on an ephemeral port and hands over the IPv4 datagram the sender's socket sent.\<close>

definition test_dual_stack_internet_socket_receives_ipv4_datagrams ::
    "socket_calls \<Rightarrow> u16 \<Rightarrow> u16 \<Rightarrow> (datagram, error) result list \<Rightarrow> bool" where
  "test_dual_stack_internet_socket_receives_ipv4_datagrams calls port sender_port outcomes \<longleftrightarrow>
     open_internet_socket calls 0 = Ok port \<and>
     (case mpsc_try_recv (fst (udp_receiver (channel_new UDP_QUEUE_CAPACITY) outcomes)) of
        None \<Rightarrow> False
      | Some ((packet, source), _) \<Rightarrow> packet = byte_string ''ipv4'' \<and> sock_port source = sender_port)"

text \<open>The test repeats the classifier of \<open>setup_connection\<close> with literal constants.\<close>

definition router_test_classify :: "bytes \<Rightarrow> (internet_packet_kind, error) result" where
  "router_test_classify packet =
     (if starts_with packet (byte_string ''P2PC'') then
        (if length packet = 20 then Ok KProbe else Ok KDrop)
      else if length packet > 20 then
        rbind (slice packet 4 12) (\<lambda>field.
          if field = to_be 8 (0x2112A44200000000 :: u64) then Ok KStun else Ok KData)
      else Ok KData)"

definition test_receive_router_gives_control_frames_priority_over_data :: bool where
  "test_receive_router_gives_control_frames_priority_over_data \<longleftrightarrow>
     router_test_classify (byte_string ''P2PC'' @ replicate 16 0) = Ok KProbe \<and>
     router_test_classify (byte_string ''P2PC-short'') = Ok KDrop \<and>
     router_test_classify (byte_string ''wireguard'') = Ok KData"

definition test_normalizes_ipv4_mapped_sources_before_candidate_matching :: bool where
  "test_normalizes_ipv4_mapped_sources_before_candidate_matching \<longleftrightarrow>
     normalize_ipv4_mapped_source (addr_v4_mapped [192, 0, 2, 10] 12345) = addr_v4 [192, 0, 2, 10] 12345"

fun admit_all :: "candidate_set \<Rightarrow> socket_addr list \<Rightarrow> candidate_set \<times> bool list" where
  "admit_all cs [] = (cs, [])"
| "admit_all cs (a # as) =
     (let (cs', admitted) = add_peer_reflexive cs a; (cs'', rest) = admit_all cs' as in (cs'', admitted # rest))"

definition test_peer_reflexive_candidates_are_bounded :: "(socket_addr set \<Rightarrow> socket_addr list) \<Rightarrow> bool" where
  "test_peer_reflexive_candidates_are_bounded iter \<longleftrightarrow>
     (let (candidates, admitted) = admit_all candidate_set_default
            (map (\<lambda>port. addr_v4 [192, 0, 2, 1] (word_of_nat port)) [10000 ..< 10000 + MAX_PEER_REFLEXIVE_CANDIDATES])
      in list_all id admitted \<and>
         \<not> snd (add_peer_reflexive candidates (addr_v4 [192, 0, 2, 2] 20000)) \<and>
         length (addresses iter candidates) = MAX_PEER_REFLEXIVE_CANDIDATES)"

definition test_peer_reflexive_candidates_survive_advertised_candidate_refreshes :: bool where
  "test_peer_reflexive_candidates_survive_advertised_candidate_refreshes \<longleftrightarrow>
     (let reflexive = addr_v4 [192, 0, 2, 1] 10000; advertised_addr = addr_v4 [192, 0, 2, 2] 10001;
          (candidates, admitted) = add_peer_reflexive candidate_set_default reflexive;
          candidates = replace_advertised candidates {advertised_addr}
      in admitted \<and> contains candidates reflexive \<and> contains candidates advertised_addr)"

lemma dual_stack_test_passes:
  assumes "open_internet_socket calls 0 = Ok port"
    and "outcomes = [Ok (byte_string ''ipv4'', SockV6 (ipv4_mapped 0x7F000001) sender_port 0 0)]"
  shows "test_dual_stack_internet_socket_receives_ipv4_datagrams calls port sender_port outcomes"
  using assms
  by (simp add: test_dual_stack_internet_socket_receives_ipv4_datagrams_def byte_string_def channel_new_def try_send_eq
      mpsc_try_recv_def UDP_QUEUE_CAPACITY_def)

text \<open>Distinct new addresses are all admitted while there is room.\<close>

lemma admit_all_fresh:
  assumes "distinct as" and "finite (peer_reflexive cs)" and "\<forall>a\<in>set as. \<not> contains cs a"
    and "card (peer_reflexive cs) + length as \<le> MAX_PEER_REFLEXIVE_CANDIDATES"
  shows "admit_all cs as = (cs\<lparr>peer_reflexive := peer_reflexive cs \<union> set as\<rparr>, replicate (length as) True)"
  using assms
proof (induction as arbitrary: cs)
  case (Cons a as)
  let ?cs = "cs\<lparr>peer_reflexive := insert a (peer_reflexive cs)\<rparr>"
  have "add_peer_reflexive cs a = (?cs, True)"
    using Cons.prems by (auto simp: add_peer_reflexive_def contains_def)
  moreover have "\<forall>b\<in>set as. \<not> contains ?cs b" and "a \<notin> peer_reflexive cs"
    using Cons.prems by (auto simp: contains_def)
  ultimately show ?case
    using Cons.IH [of ?cs] Cons.prems by simp
qed simp

lemma bounded_test_passes:
  assumes "hash_order iter"
  shows "test_peer_reflexive_candidates_are_bounded iter"
proof -
  define ports where "ports = [10000 ..< 10000 + MAX_PEER_REFLEXIVE_CANDIDATES]"
  let ?as = "map (\<lambda>port. addr_v4 [192, 0, 2, 1] (word_of_nat port)) ports"
  have ports: "distinct ports" "length ports = MAX_PEER_REFLEXIVE_CANDIDATES" "\<forall>p\<in>set ports. p < 65536"
    by (auto simp: ports_def MAX_PEER_REFLEXIVE_CANDIDATES_def)
  then have "inj_on (\<lambda>port. addr_v4 [192, 0, 2, 1] (word_of_nat port)) (set ports)"
    by (auto simp: inj_on_def addr_v4_def word_of_nat_eq_iff take_bit_nat_eq_self)
  with ports have dist: "distinct ?as"
    by (simp add: distinct_map)
  then have card: "card (set ?as) = MAX_PEER_REFLEXIVE_CANDIDATES"
    using ports by (simp only: distinct_card length_map)
  have "from_be [192, 0, 2, 2] \<noteq> (from_be [192, 0, 2, 1] :: u32)"
    by code_simp
  then have new: "addr_v4 [192, 0, 2, 2] 20000 \<notin> set ?as"
    by (auto simp: addr_v4_def)
  have "admit_all candidate_set_default ?as =
      (candidate_set_default\<lparr>peer_reflexive := set ?as\<rparr>, replicate (length ?as) True)"
    using admit_all_fresh [OF dist, of candidate_set_default] ports
    by (simp add: candidate_set_default_def contains_def)
  moreover have "length (addresses iter (candidate_set_default\<lparr>peer_reflexive := set ?as\<rparr>)) = MAX_PEER_REFLEXIVE_CANDIDATES"
    using card hash_order.iter_length [OF assms] by (simp add: addresses_def candidate_set_default_def)
  ultimately show ?thesis
    using card new unfolding test_peer_reflexive_candidates_are_bounded_def ports_def [symmetric]
    by (simp add: add_peer_reflexive_def candidate_set_default_def list_all_iff)
qed

text \<open>The copy in the test is the classifier of the program, so what the test shows holds of it.\<close>

lemma router_test_classify_eq: "router_test_classify packet = classify_packet packet"
proof -
  have "byte_string ''P2PC'' = MAGIC" and "to_be 8 (0x2112A44200000000 :: u64) = to_be 8 cookie_word"
    by code_simp+
  then show ?thesis
    by (simp only: router_test_classify_def classify_packet_def classify_def FRAME_LEN_def)
qed

lemma transport_tests_pass:
  "test_receive_router_gives_control_frames_priority_over_data"
  "test_normalizes_ipv4_mapped_sources_before_candidate_matching"
  "test_peer_reflexive_candidates_survive_advertised_candidate_refreshes"
  by code_simp+

section \<open>\<open>src/candidates.rs\<close>\<close>

definition test_accepts_the_full_unprivileged_port_range :: bool where
  "test_accepts_the_full_unprivileged_port_range \<longleftrightarrow>
     \<not> is_usable_peer_addr (addr_v4 [192, 0, 2, 1] 1024) \<and> is_usable_peer_addr (addr_v4 [192, 0, 2, 1] 1025) \<and>
     is_usable_peer_addr (addr_v4 [192, 0, 2, 1] 65535)"

definition test_derives_the_legacy_dht_key_in_publisher_order :: bool where
  "test_derives_the_legacy_dht_key_in_publisher_order \<longleftrightarrow>
     dht_key (PublicKey (replicate 32 0x11)) (PublicKey (replicate 32 0x22)) = replicate 32 0x11 @ replicate 32 0x22"

definition test_ipv4_only_mode_does_not_publish_a_local_ipv6_candidate :: bool where
  "test_ipv4_only_mode_does_not_publish_a_local_ipv6_candidate \<longleftrightarrow>
     local_ipv6_candidate (Some (IpV6 1)) 12345 False = None \<and>
     local_ipv6_candidate (Some (IpV6 1)) 12345 True = Some (sock_new (IpV6 1) 12345)"

definition test_ipv4_only_mode_does_not_retain_an_old_ipv6_peer ::
    "(socket_addr set \<Rightarrow> socket_addr list) \<Rightarrow> bool" where
  "test_ipv4_only_mode_does_not_retain_an_old_ipv6_peer iter \<longleftrightarrow>
     (let ipv4 = addr_v4 [192, 0, 2, 1] 12345; ipv6 = sock_new (IpV6 1) 12345; known = {ipv4, ipv6}
      in set (retained_known_connections iter known True) = {ipv4})"

text \<open>\<open>quote\<close> stands for the double quotes of the JSON text.\<close>

definition test_malformed_dht_messages_are_ignored :: "listen_env \<Rightarrow> bool" where
  "test_malformed_dht_messages_are_ignored env \<longleftrightarrow>
     (let quote = [CHR 0x22]
      in parse_dht_message env (byte_string (''{'' @ quote @ ''timestamp'' @ quote @ '':{}}'')) = None)"

definition test_rejects_dht_timestamps_outside_the_freshness_window :: bool where
  "test_rejects_dht_timestamps_outside_the_freshness_window \<longleftrightarrow>
     (let now = int (from_secs 1000000)
      in is_fresh_dht_timestamp now now \<and>
         is_fresh_dht_timestamp (now + int MAX_DHT_FUTURE_SKEW) now \<and>
         \<not> is_fresh_dht_timestamp (now + int MAX_DHT_FUTURE_SKEW + int (from_secs 1)) now \<and>
         \<not> is_fresh_dht_timestamp (now - int (from_secs (10 * 60 + 1))) now)"

lemma candidates_tests_pass:
  "test_accepts_the_full_unprivileged_port_range" "test_derives_the_legacy_dht_key_in_publisher_order"
  "test_ipv4_only_mode_does_not_publish_a_local_ipv6_candidate"
  by code_simp+

lemma freshness_test_passes: "test_rejects_dht_timestamps_outside_the_freshness_window"
  by (simp add: test_rejects_dht_timestamps_outside_the_freshness_window_def is_fresh_iff from_secs_def
      MAX_DHT_MESSAGE_AGE_def MAX_DHT_FUTURE_SKEW_def)

lemma retained_test_passes:
  assumes "hash_order iter"
  shows "test_ipv4_only_mode_does_not_retain_an_old_ipv6_peer iter"
  using hash_order.iter_set [OF assms]
  by (auto simp: test_ipv4_only_mode_does_not_retain_an_old_ipv6_peer_def retained_known_connections_def addr_v4_def
      Let_def)

text \<open>\<open>serde_json\<close> rejects a message whose timestamp has no fields.\<close>

lemma malformed_test_passes:
  assumes "le_from_slice env (byte_string (''{'' @ [CHR 0x22] @ ''timestamp'' @ [CHR 0x22] @ '':{}}'')) = Err e"
  shows "test_malformed_dht_messages_are_ignored env"
  using assms by (simp add: test_malformed_dht_messages_are_ignored_def parse_dht_message_def Let_def)

section \<open>\<open>src/crypto.rs\<close>\<close>

definition LEGACY_CRYPTO_BOX_FIXTURE :: string where
  "LEGACY_CRYPTO_BOX_FIXTURE = ''MzMzMzMzMzMzMzMzMzMzMzMzMzMzMzMzpWED4HGlH8yRoxt9BCfpllp5qfjdkM0Y6OY7RfCMsjCPcg==''"

definition test_matches_the_legacy_crypto_box_fixture ::
    "(bytes \<Rightarrow> bytes) \<Rightarrow> box_fun \<Rightarrow> box_fun \<Rightarrow> b64_encoder \<Rightarrow> b64_decoder \<Rightarrow> bool" where
  "test_matches_the_legacy_crypto_box_fixture derive seal unseal b64_encode b64_decode \<longleftrightarrow>
     (let our_secret = SecretKey (replicate 32 0x11); their_secret = SecretKey (replicate 32 0x22);
          crypto = crypto_box_new (public_key_of derive their_secret) our_secret;
          nonce = replicate NONCE_BYTES 0x33
      in (case encrypt_with_nonce seal crypto (byte_string ''legacy DHT fixture'') nonce of
            Inl _ \<Rightarrow> False
          | Inr encrypted \<Rightarrow> b64_encode encrypted = LEGACY_CRYPTO_BOX_FIXTURE) \<and>
         (case b64_decode LEGACY_CRYPTO_BOX_FIXTURE of
            Inl _ \<Rightarrow> False
          | Inr fixture \<Rightarrow> decrypt unseal crypto fixture = Some (byte_string ''legacy DHT fixture'')))"

text \<open>
  The test holds whenever the box seals and opens the fixture's ciphertext under that nonce and
  the fixture is the text of the nonce followed by the ciphertext: the layout of the envelope.
\<close>

lemma fixture_test_passes:
  assumes "seal (derive (replicate 32 0x22)) (replicate 32 0x11) (replicate 24 0x33) (byte_string ''legacy DHT fixture'') = Some c"
    and "unseal (derive (replicate 32 0x22)) (replicate 32 0x11) (replicate 24 0x33) c = Some (byte_string ''legacy DHT fixture'')"
    and "b64_encode (replicate 24 0x33 @ c) = LEGACY_CRYPTO_BOX_FIXTURE"
    and "b64_decode LEGACY_CRYPTO_BOX_FIXTURE = Ok (replicate 24 0x33 @ c)"
  shows "test_matches_the_legacy_crypto_box_fixture derive seal unseal b64_encode b64_decode"
  using assms
  by (simp add: test_matches_the_legacy_crypto_box_fixture_def Let_def encrypt_with_nonce_def decrypt_def crypto_box_new_def
      public_key_of_def NONCE_BYTES_def del: replicate_Suc)

section \<open>\<open>src/nat.rs\<close>\<close>

definition test_parses_the_default_ipv4_gateway :: bool where
  "test_parses_the_default_ipv4_gateway \<longleftrightarrow>
     (let routes = ''Iface'' @ tab # ''Destination'' @ tab # ''Gateway'' @ tab # ''Flags'' @ nl #
            ''wlan0'' @ tab # ''00000000'' @ tab # ''0101A8C0'' @ tab # ''0003'' @ nl #
            ''wlan0'' @ tab # ''0001A8C0'' @ tab # ''00000000'' @ tab # ''0001'' @ [nl]
      in (case parse_default_ipv4_gateway routes of
            None \<Rightarrow> False
          | Some gateway \<Rightarrow> ipv4_display (to_be 4 gateway) = ''192.168.1.1''))"

lemma show_hex_numeral: "show_hex (numeral k) n = show_hex (pred_numeral k) (n div 16) @ [hex_char (n mod 16)]"
  using show_hex.simps(2) [of "pred_numeral k" n] by (simp only: numeral_eq_Suc [of k])

lemma hex_fields:
  "show_hex 8 0x0101A8C0 = ''0101A8C0''" "show_hex 8 0x0001A8C0 = ''0001A8C0''" "show_hex 8 0 = ''00000000''"
  "show_hex 4 3 = ''0003''" "show_hex 4 (Suc 0) = ''0001''"
  by (simp_all add: show_hex_numeral hex_char_def char_of_def bit_0)

text \<open>The table of the test is what the kernel prints for its two routes.\<close>

lemma nat_test_passes: "test_parses_the_default_ipv4_gateway"
proof -
  let ?header = "''Iface'' @ tab # ''Destination'' @ tab # ''Gateway'' @ tab # ''Flags''"
  let ?routes = "[\<lparr>rt_iface = ''wlan0'', rt_destination = 0, rt_gateway = 0x0101A8C0, rt_flags = 3, rt_rest = []\<rparr>,
      \<lparr>rt_iface = ''wlan0'', rt_destination = 0x0001A8C0, rt_gateway = 0, rt_flags = 1, rt_rest = []\<rparr>]"
  have table: "''Iface'' @ tab # ''Destination'' @ tab # ''Gateway'' @ tab # ''Flags'' @ nl #
      ''wlan0'' @ tab # ''00000000'' @ tab # ''0101A8C0'' @ tab # ''0003'' @ nl #
      ''wlan0'' @ tab # ''0001A8C0'' @ tab # ''00000000'' @ tab # ''0001'' @ [nl] =
      concat (map (\<lambda>l. l @ [nl]) (?header # map print_route ?routes))"
    by (simp add: print_route_def hex_fields)
  have "plain_text ?header" and "list_all (\<lambda>c. \<not> is_whitespace c) ''wlan0''"
    by code_simp+
  then have "parse_default_ipv4_gateway (concat (map (\<lambda>l. l @ [nl]) (?header # map print_route ?routes))) =
      Some (from_be (rev (to_be 4 (0x0101A8C0 :: u32))))"
    by (subst printed_gateway) (simp_all add: route_printable_def is_default_route_def plain_text_def)
  moreover have "ipv4_display (to_be 4 (from_be (rev (to_be 4 (0x0101A8C0 :: u32))) :: u32)) = ''192.168.1.1''"
    by code_simp
  ultimately show ?thesis
    unfolding test_parses_the_default_ipv4_gateway_def Let_def table by (simp only: option.case)
qed

section \<open>\<open>src/config.rs\<close>\<close>

definition test_debug_output_redacts_the_secret_key :: "(peer list \<Rightarrow> string) \<Rightarrow> bool" where
  "test_debug_output_redacts_the_secret_key peers_debug \<longleftrightarrow>
     (let connection = \<lparr>conn_secret_key = ''not-a-real-secret'', conn_peers = []\<rparr>;
          debug_output = connection_debug peers_debug connection
      in str_contains debug_output ''<redacted>'' \<and> \<not> str_contains debug_output (conn_secret_key connection))"

definition test_out_port_accepts_ephemeral_or_unprivileged_ports :: bool where
  "test_out_port_accepts_ephemeral_or_unprivileged_ports \<longleftrightarrow>
     parse_out_port ''0'' = Ok 0 \<and> parse_out_port ''1025'' = Ok 1025 \<and>
     res_ok (parse_out_port ''1024'') = None \<and> res_ok (parse_out_port ''65536'') = None"

lemma config_tests_pass:
  "test_debug_output_redacts_the_secret_key (\<lambda>_. ''[]'')" "test_out_port_accepts_ephemeral_or_unprivileged_ports"
  by (simp_all add: test_debug_output_redacts_the_secret_key_def str_contains_def connection_debug_def Let_def
      test_out_port_accepts_ephemeral_or_unprivileged_ports_def parse_out_port_def from_str_radix_def to_digit_def)

section \<open>\<open>src/service.rs\<close>\<close>

definition test_malformed_peer_key_fails_startup_validation_without_echoing_it :: "b64_decoder \<Rightarrow> bool" where
  "test_malformed_peer_key_fails_startup_validation_without_echoing_it b64_decode \<longleftrightarrow>
     (let p = \<lparr>peer_local_port = 10001, peer_public_key = ''not-a-key'', peer_name = Some ''desktop''\<rparr>
      in (case parse_peer_key b64_decode p 0 of
            Inr _ \<Rightarrow> False
          | Inl e \<Rightarrow> str_contains (error_text e) ''peer 0 (desktop)'' \<and>
              \<not> str_contains (error_text e) (peer_public_key p)))"

definition test_invalid_configuration_is_rejected_before_service_setup :: "b64_decoder \<Rightarrow> bool" where
  "test_invalid_configuration_is_rejected_before_service_setup b64_decode \<longleftrightarrow>
     res_ok (validate_connections b64_decode [\<lparr>conn_secret_key = ''not-a-key'', conn_peers = []\<rparr>]) = None"

text \<open>The base64 engine reports the first byte outside its alphabet, here the hyphen.\<close>

lemma service_tests_pass:
  assumes "b64_decode ''not-a-key'' = Err ''Invalid symbol 45, offset 3.''"
  shows "test_malformed_peer_key_fails_startup_validation_without_echoing_it b64_decode"
    and "test_invalid_configuration_is_rejected_before_service_setup b64_decode"
proof -
  let ?message = "''Failed to parse public key for peer '' @ show_nat 0 @ '' ('' @ ''desktop'' @ ''): '' @
      ''Base64 decode error: '' @ ''Invalid symbol 45, offset 3.''"
  have "str_contains ?message ''peer 0 (desktop)''" "\<not> str_contains ?message ''not-a-key''"
    by code_simp+
  moreover have "parse_peer_key b64_decode
      \<lparr>peer_local_port = 10001, peer_public_key = ''not-a-key'', peer_name = Some ''desktop''\<rparr> 0 = Err (Anyhow ?message)"
    using assms by (simp add: parse_peer_key_def public_key_try_from_def decode_base64_key_def error_text_def)
  ultimately show "test_malformed_peer_key_fails_startup_validation_without_echoing_it b64_decode"
    unfolding test_malformed_peer_key_fails_startup_validation_without_echoing_it_def Let_def
    by (simp only: sum.case error_text_def error.case peer.select_convs simp_thms)
  show "test_invalid_configuration_is_rejected_before_service_setup b64_decode"
    using assms
    by (simp add: test_invalid_configuration_is_rejected_before_service_setup_def validate_connections_def
        secret_key_try_from_def decode_base64_key_def)
qed

section \<open>\<open>src/keygen.rs\<close>\<close>

text \<open>Permission bits are octal in the code: \<open>0o600\<close> is \<open>0x180\<close> and \<open>0o777\<close> is \<open>0x1FF\<close>.\<close>

definition test_overriding_a_private_key_file_truncates_and_secures_it :: "string \<Rightarrow> u16 \<Rightarrow> bool" where
  "test_overriding_a_private_key_file_truncates_and_secures_it path mode \<longleftrightarrow>
     (let fs = \<lparr>fs_nodes = [path \<mapsto> RegularFile ''this previous key material is deliberately longer'' mode],
                fs_denied = (\<lambda>_. False), fs_umask = 0\<rparr>;
          flags = \<lparr>gf_path = Some path, gf_pub_path = None, gf_insecure_priv = False, gf_override_files = True\<rparr>
      in (case open_key_files (Ok ()) (Ok ()) flags fs of
            (fs', Inr (Some private_file, _)) \<Rightarrow>
              (case fs_nodes (fst (write_all None ''replacement'' fs' private_file)) path of
                 Some (RegularFile content mode') \<Rightarrow> content = ''replacement'' \<and> mode' AND 0x1FF = 0x180
               | _ \<Rightarrow> False)
          | _ \<Rightarrow> False))"

definition test_overriding_a_key_file_rejects_a_symlink :: "string \<Rightarrow> string \<Rightarrow> u16 \<Rightarrow> bool" where
  "test_overriding_a_key_file_rejects_a_symlink target link mode \<longleftrightarrow>
     (let fs = \<lparr>fs_nodes = [target \<mapsto> RegularFile ''do-not-overwrite'' mode, link \<mapsto> SymlinkNode target],
                fs_denied = (\<lambda>_. False), fs_umask = 0\<rparr>;
          flags = \<lparr>gf_path = Some link, gf_pub_path = None, gf_insecure_priv = False, gf_override_files = True\<rparr>;
          (fs', files) = open_key_files (Ok ()) (Ok ()) flags fs
      in res_ok files = None \<and> fs_nodes fs' target = Some (RegularFile ''do-not-overwrite'' mode))"

lemma keygen_tests_pass:
  "test_overriding_a_private_key_file_truncates_and_secures_it path mode"
  "target \<noteq> link \<Longrightarrow> test_overriding_a_key_file_rejects_a_symlink target link mode"
  by (simp_all add: test_overriding_a_private_key_file_truncates_and_secures_it_def
      test_overriding_a_key_file_rejects_a_symlink_def open_key_files_def open_private_key_file_def open_output_file_def
      configure_output_file_def open_options_new_def public_path_of_def open_file_def open_existing_def create_file_def
      set_mode_def write_all_def write_at_start_def Let_def)

end
