(* ===== verification/Spec2Isabelle.thy ===== *)
theory Spec2Isabelle
  imports Adversary Flow Unit_Tests
begin

text \<open>
  \<^bold>\<open>p2p-tunnler\<close> connects two WireGuard peers directly through NATs. Each peer keeps one UDP
  socket towards the Internet and one loopback socket towards its WireGuard. It learns its
  public address from a STUN server, publishes its addresses and a random run token as an
  encrypted record in a DHT, reads the other peer's record there, and probes the listed
  addresses with 20-byte control frames that carry the other's token. A peer that receives its
  own token admits the source and echoes the frame; the prober then knows that the path works.
  WireGuard packets go to every candidate address; packets from candidates go to WireGuard.

  \<^bold>\<open>Theories and sources.\<close>
  \<^item> \<open>Prelude\<close>: machine integers, byte strings, results and early returns, panics as values,
    slices, big-endian codes, durations in nanoseconds, and the interfaces the components
    interpret: \<open>fixed_codec\<close> and \<open>strict_codec\<close> (what a decoder owes its encoder), \<open>bounded_queue\<close>,
    \<open>invariant_system\<close> (labelled transition systems with an invariant), \<open>rate_limited\<close>.
  \<^item> \<open>Net\<close>: what the program uses of \<open>std::net\<close>, and the unspecified iteration order of hash
    containers (\<open>hash_order\<close>). \<open>Text\<close>: decimal and radix numbers, lines and fields.
  \<^item> \<open>Utils\<close> (\<open>src/utils.rs\<close>): bounded channels, the first-failure monitor, the tasks around a
    socket. \<open>Transport\<close> (\<open>src/transport.rs\<close>): candidate set, receive router, the two forwarding
    tasks, opening the sockets; \<open>candidate_table\<close> is what the other tasks rely on.
  \<^item> \<open>Stun_Codec\<close> (\<open>src/stun/codec.rs\<close>) and \<open>Stun\<close> (\<open>src/stun/mod.rs\<close>): the wire format and one
    lookup with its three-second budget.
  \<^item> \<open>Probe\<close> and \<open>Probe_Protocol\<close> (\<open>src/probe.rs\<close>): frames, the controller with its three
    operations, the packet and scheduler tasks; runs of the controller under any interleaving.
  \<^item> \<open>Crypto\<close> (\<open>src/crypto.rs\<close>), \<open>Config\<close> (\<open>src/config.rs\<close>), \<open>Nat_Mapping\<close> (\<open>src/nat.rs\<close>), \<open>Dht\<close>
    (\<open>src/dht.rs\<close>), \<open>Keygen\<close> (\<open>src/keygen.rs\<close>): keys and envelopes, flags and tunnel files, router
    mappings, the DHT node, key files.
  \<^item> \<open>Candidates\<close> (\<open>src/message.rs\<close>, \<open>src/candidates.rs\<close>): records, listener, publisher, gathering.
  \<^item> \<open>Service\<close> (\<open>src/service.rs\<close>): packet classes, validation, set-up, supervision. \<open>Session\<close>: the
    tasks \<open>setup_connection\<close> spawns for one peer, interleaved at every lock boundary over their
    shared state. \<open>App\<close> (\<open>src/app.rs\<close>, \<open>src/main.rs\<close>): the four commands.
  \<^item> \<open>Tunnel\<close>: two sessions facing each other; the theorems about them are in this theory.
    \<open>Adversary\<close>: the two sessions on a network that loses, repeats and reorders datagrams, with
    an off-path attacker. \<open>Flow\<close>: progress of the tasks, and the abstract queue that each direction
    of a connection implements. \<open>Unit_Tests\<close>: the repository's unit tests as predicates over the
    model, shown to hold.

  \<^bold>\<open>How code becomes definitions.\<close> A struct is a record with the source's fields, an enum a
  datatype, an operation a function that returns the new state; errors and panics are values
  of \<open>result\<close>, and \<open>Context\<close> keeps the chain of causes that \<open>anyhow\<close> prints. Integers keep their width where they can wrap. A task is what one iteration does
  (\<open>forward_inbound\<close>, \<open>handle_packet\<close>, \<open>loopback_forward\<close>, \<open>listen_value\<close>); \<open>session_step\<close> splits
  these at the points where another task can run, and \<open>tasks_refine_loop_bodies\<close> shows that
  the split steps implement the loop bodies. Instants, random bytes, the percentages drawn by
  \<open>jitter\<close>, the results of system calls and the hash iteration order are arguments. The crates
  \<open>crypto_box\<close>, \<open>base64\<close>, \<open>serde_json\<close>, \<open>opendht\<close>, \<open>crab_nat\<close> and \<open>igd_next\<close> are parameters; where a
  theorem relies on them the documented law is a named hypothesis (\<open>box_agreement\<close>,
  \<open>box_authentic\<close>, \<open>b64_inverse\<close>, \<open>json_inverse\<close>), and its witness instantiates them.

  \<^bold>\<open>What is shown.\<close>
  \<^item> Who can reach WireGuard: \<open>only_vouched_traffic\<close> for every interleaving of the tasks,
    \<open>inbound_delivers_admitted\<close>, \<open>peer_reflexive_history\<close>, \<open>advertised_candidates_sound\<close>; and
    who cannot: \<open>off_path_attacker_excluded\<close>, for every behaviour of network and attacker.
  \<^item> What a verified path means: \<open>verified_path_authentic\<close>; how two peers get there:
    \<open>published_record_received\<close>, \<open>peers_connect\<close>; and from two fresh sessions to packets at
    WireGuard on both sides: \<open>tunnel_comes_up\<close>.
  \<^item> What happens to traffic: \<open>connection_is_lossy_fifo\<close> (each direction loses packets but neither
    invents, repeats nor reorders them, for every interleaving) and \<open>tasks_never_stop\<close> (no
    reachable state blocks a task that has work).
  \<^item> Untrusted input: decoding never panics and accepts exactly the STUN grammar, an address is
    reported only by the configured server in time, a lookup is what its first relevant answer
    says (\<open>stun_lookup_exact\<close>), replayed records are rejected, the envelope opens only for what the peer sealed.
  \<^item> Bounds: queues and tables of a session, echo and probe rates, the probe schedule, the
    lookup deadline, lease renewal, the outgoing port.
  \<^item> Round trips of attributes, addresses, frames, envelopes and the kernel's routing table.
  \<^item> Configuration: \<open>cli_config_new_exact\<close> says which tunnel files load and to what.
  \<^item> Errors and supervision: nothing starts on a bad configuration, the first task that stops
    ends the service under its name, key files are stored whole.
  Four theorems document where the code and its intent part: \<open>filter_ipv6_admits_ipv6_source\<close>,
  \<open>renewal_before_expiry\<close>, \<open>lease_lifecycle\<close> (a removal on shutdown that the documentation does not
  expect) and \<open>generate_open_errors\<close> (a key that is destroyed and not replaced).

  \<^bold>\<open>Loops and fuel.\<close> Most loops run on the list of events they are given and need no fuel; the
  theorems hold for every list. The retry loop of the UDP sender and the attribute loop of the
  decoder are functions on the remaining outcomes and the remaining bytes. \<open>dht_tick_loop\<close>
  takes the number of iterations to run; \<open>dht_tick_loop_ends\<close> says for each number whether the
  loop has ended by then. The STUN wait loop ends with the arrivals or the budget
  (\<open>stun_lookup_deadline\<close>).

  \<^bold>\<open>Not modelled.\<close> The \<open>clap\<close> and YAML parsers (derived code; their results are arguments), the
  log lines, the key files on systems that are not Unix, and the two unit tests that check the
  JSON text \<open>serde_json\<close> writes and reads. An attacker on the path
  between the peers, who sees the run token, is outside the model of \<open>Adversary\<close>; the tunnelled
  traffic is then protected by WireGuard itself. Nothing is said about fair scheduling of the
  tasks.
\<close>

section \<open>Properties across components\<close>

text \<open>
  \<^bold>\<open>C5\<close>. A published record arrives: what one peer publishes for the other is put under the DHT
  key the other listens on, and a connection that receives that value while it is fresh and
  newer than the last one accepts it whatever its own state. Its probe controller then uses
  exactly the publisher's run token, and each of the first 64 published addresses that are
  usable and of an admitted family is a candidate and a probe path, a new one that is due at
  once unless the token was known already.
\<close>

theorem published_record_received:
  assumes crates: "box_agreement derive seal (le_unseal env)" "json_inverse to_vec (le_from_slice env)"
      "b64_inverse b64_encode (le_b64_decode env)" "hash_order (le_iter env)"
    and pair: "le_box env = crypto_box_new (public_key_of derive b) a"
    and published: "length nonce = 24" "length (local_token st) = 16"
      "publish_record to_vec seal (crypto_box_new (public_key_of derive a) b) (local_token_base64 b64_encode st)
         ts nonce addrs = Ok value"
    and fresh: "is_fresh_dht_timestamp ts now_system" "\<And>seen. ss_last_timestamp s = Some seen \<Longrightarrow> seen < ts"
    and s: "session_wf (le_flags env) s" "hold_replace s = None" "hold_paths s = None"
  shows "publish_key derive b (public_key_of derive a) = listen_key derive a (public_key_of derive b) \<and>
    (\<exists>s'. session_exec env s [DhtTake now_system value, DhtReplace, DhtPaths now] = Some s' \<and>
       remote_token (ss_probes s') = Some (local_token st) \<and>
       (\<forall>addr \<in> set (take 64 (filter is_usable_peer_addr
            (filter (\<lambda>a. \<not> filter_ipv6 (le_flags env) \<or> is_ipv4 (sock_ip a)) addrs))).
          contains (ss_connections s') addr \<and>
          (\<exists>p. paths (ss_probes s') addr = Some p \<and>
             (remote_token (ss_probes s) \<noteq> Some (local_token st) \<longrightarrow> p = path_new now))))"
proof -
  obtain u where u: "session_exec env s [DhtTake now_system value, DhtReplace, DhtPaths now] =
      Some (s\<lparr>ss_last_timestamp := Some ts, ss_connections := replace_advertised (ss_connections s) u,
        ss_probes := update_remote now (ss_probes s) (Some (local_token st)) (le_iter env u),
        hold_replace := None, hold_paths := None\<rparr>)" "select_paths {} (le_iter env u) = u"
    and listed: "set (take 64 (filter is_usable_peer_addr
      (filter (\<lambda>a. \<not> filter_ipv6 (le_flags env) \<or> is_ipv4 (sock_ip a)) addrs))) \<subseteq> u"
    using record_applied [OF assms, of now] by blast
  have "contains (replace_advertised (ss_connections s) u) addr \<and>
      (\<exists>p. paths (update_remote now (ss_probes s) (Some (local_token st)) (le_iter env u)) addr = Some p \<and>
      (remote_token (ss_probes s) \<noteq> Some (local_token st) \<longrightarrow> p = path_new now))" if "addr \<in> u" for addr
    using that by (auto simp: contains_def replace_advertised_def update_remote_paths u(2))
  then show ?thesis
    using listed u(1) keys_meet [of derive b a] by (auto simp del: session_exec.simps)
qed

text \<open>
  \<^bold>\<open>C3\<close>. Two peers connect: when one connection holds the other's run token and a path to it is
  due, its next scheduler tick sends the control frame; when the network shows that frame to
  the other connection under any source, that connection admits the source and sends the echo
  back to it; when the echo comes back from the probed address, the path is verified and
  nothing more is sent, so the exchange ends; and from then on the other connection delivers
  data from that source to its WireGuard.
\<close>

theorem peers_connect:
  assumes order: "hash_order (le_iter env_a)" "hash_order (le_iter env_b)"
    and wf: "session_wf (le_flags env_a) a" "session_wf (le_flags env_b) b"
    and quiet: "quiet a" "quiet b" "ch_items (ss_to_internet a) = []" "ch_items (ss_to_internet b) = []"
    and token: "remote_token (ss_probes a) = Some (local_token (ss_probes b))"
      "local_token (ss_probes a) \<noteq> local_token (ss_probes b)"
    and path: "paths (ss_probes a) addr_b = Some p" "next_probe p \<le> t" "normalize_ipv4_mapped_source raw_b = addr_b"
    and room: "willing t1 (ss_probes b) (normalize_ipv4_mapped_source raw_a)"
      "card (peer_reflexive (ss_connections b)) < 64"
    and data: "classify_packet packet = Ok KData" "length packet \<le> 65536"
      "lp_addr (ss_local b) = Some wg" "length (ch_items (lp_sender (ss_local b))) < UDP_QUEUE_CAPACITY"
  shows "\<exists>a1 b1 a2 b2 p'.
    session_step env_a a (ProbeSchedule t percent) = Some a1 \<and>
    (frame (local_token (ss_probes b)), addr_b) \<in> set (ch_items (ss_to_internet a1)) \<and>
    session_exec env_b b [SocketReceive (frame (local_token (ss_probes b)), raw_a), RoutePacket,
      ProbeTake t1 percent1, ProbeAdmit, ProbeEcho] = Some b1 \<and>
    ch_items (ss_to_internet b1) = [(frame (local_token (ss_probes b)), normalize_ipv4_mapped_source raw_a)] \<and>
    session_exec env_a a1 [SocketReceive (frame (local_token (ss_probes b)), raw_b), RoutePacket,
      ProbeTake t2 percent2] = Some a2 \<and>
    paths (ss_probes a2) addr_b = Some p' \<and> verified p' \<and> last_control_response p' = Some t2 \<and>
    ss_to_internet a2 = ss_to_internet a1 \<and> idle a2 \<and>
    session_exec env_b b1 [SocketReceive (packet, raw_a), RoutePacket, InboundTake, InboundForward] = Some b2 \<and>
    ch_items (lp_sender (ss_local b2)) = ch_items (lp_sender (ss_local b)) @ [(packet, wg)]"
proof -
  let ?token = "local_token (ss_probes b)" and ?src = "normalize_ipv4_mapped_source raw_a"
  have len: "length ?token = 16"
    using wf(2) by (simp add: session_wf_def probe_wf_def)
  obtain a1 where a1: "session_step env_a a (ProbeSchedule t percent) = Some a1"
    "(frame ?token, addr_b) \<in> set (ch_items (ss_to_internet a1))" "quiet a1"
    "paths (ss_probes a1) addr_b = Some (fst (path_due t (percent addr_b) p))"
    "remote_token (ss_probes a1) = Some ?token" "local_token (ss_probes a1) = local_token (ss_probes a)"
    using schedule_sends [OF order(1) wf(1) quiet(3) token(1) path(1,2), of percent] quiet(1) by blast
  obtain st where "packet_action t1 percent1 (ss_probes b) (frame ?token) ?src = (st, EchoAndAdmit)"
    using willing_echoes [OF room(1) len] by blast
  from answer_probe [OF wf(2) quiet(2,4) len this] obtain b1 where
    b1: "session_exec env_b b [SocketReceive (frame ?token, raw_a), RoutePacket, ProbeTake t1 percent1, ProbeAdmit,
      ProbeEcho] = Some b1" "ss_connections b1 = fst (add_peer_reflexive (ss_connections b) ?src)"
    "ch_items (ss_to_internet b1) = [(frame ?token, ?src)]" "ss_local b1 = ss_local b" "quiet b1"
    by blast
  have "outstanding (fst (path_due t (percent addr_b) p)) \<noteq> None"
    using path_due_sends [OF path(2)] by simp
  from outstanding_acknowledges [OF a1(5) len _ a1(4) this] a1(6) token(2) obtain st' p' where
    ack: "packet_action t2 percent2 (ss_probes a1) (frame ?token) addr_b = (st', Acknowledged)"
    "paths st' addr_b = Some p'" "verified p'" "last_control_response p' = Some t2"
    by metis
  from take_acknowledgement [OF session_wf_step [OF order(1) wf(1) a1(1)] a1(3) len, of t2 percent2 raw_b st'] ack(1) path(3)
  obtain a2 where a2: "session_exec env_a a1 [SocketReceive (frame ?token, raw_b), RoutePacket, ProbeTake t2 percent2] = Some a2"
    "ss_probes a2 = st'" "ss_to_internet a2 = ss_to_internet a1" "quiet a2"
    by blast
  have "contains (ss_connections b1) ?src"
    using room(2) by (auto simp: b1(2) add_peer_reflexive_def contains_def MAX_PEER_REFLEXIVE_CANDIDATES_def)
  from deliver_data [OF session_exec_wf [OF order(2) wf(2) b1(1)] b1(5) this data(1,2), of wg] data(3,4) b1(4)
  obtain b2 where "session_exec env_b b1 [SocketReceive (packet, raw_a), RoutePacket, InboundTake, InboundForward] = Some b2"
    "ch_items (lp_sender (ss_local b2)) = ch_items (lp_sender (ss_local b)) @ [(packet, wg)]"
    by auto
  moreover have "idle a2" and "paths (ss_probes a2) addr_b = Some p'"
    using a2(2,4) ack(2) by (simp_all add: quiet_def)
  ultimately show ?thesis
    using a1(1,2) b1(1,3) a2(1,3) ack(3,4) by blast
qed

text \<open>
  \<^bold>\<open>C4\<close>. The tunnel comes up, from the start of both programs to WireGuard packets in both
  directions: one peer reads the other's first record, and at its next tick probes a listed
  address under which the network shows the other; the other, knowing nothing of the first,
  receives the frame under whatever source its NAT shows, admits it, echoes, and sends its
  WireGuard's packet there; back at the first peer the echo verifies the path, its WireGuard's
  packet is queued for the probed address and the other's packet is delivered to WireGuard;
  and the first peer's packet, when it arrives, is delivered at the other end.
\<close>

theorem tunnel_comes_up:
  assumes crates: "box_agreement derive seal (le_unseal env_a)" "json_inverse to_vec (le_from_slice env_a)"
      "b64_inverse b64_encode (le_b64_decode env_a)" "hash_order (le_iter env_a)" "hash_order (le_iter env_b)"
    and pair: "le_box env_a = crypto_box_new (public_key_of derive key_b) key_a"
    and set_up: "setup_peer b64_decode_a (le_flags env_a) res_a peer_a i_a = Ok su_a" "length (pr_token res_a) = 16"
      "setup_peer b64_decode_b (le_flags env_b) res_b peer_b i_b = Ok su_b" "length (pr_token res_b) = 16"
      "pr_token res_a \<noteq> pr_token res_b"
    and published: "length nonce = 24"
      "publish_record to_vec seal (crypto_box_new (public_key_of derive key_a) key_b)
         (local_token_base64 b64_encode (su_probes su_b)) ts nonce addrs = Ok value"
      "is_fresh_dht_timestamp ts now_system"
    and reachable: "addr_b \<in> set (take 64 (filter is_usable_peer_addr
        (filter (\<lambda>a. \<not> filter_ipv6 (le_flags env_a) \<or> is_ipv4 (sock_ip a)) addrs)))"
      "normalize_ipv4_mapped_source raw_b = addr_b" "t0 \<le> t"
    and data: "classify_packet packet_a = Ok KData" "length packet_a \<le> 65536"
      "classify_packet packet_b = Ok KData" "length packet_b \<le> 65536"
  shows "\<exists>a1 b1 a2 b2 p.
    session_exec env_a (session_new su_a) [DhtTake now_system value, DhtReplace, DhtPaths t0, ProbeSchedule t percent] = Some a1 \<and>
    (frame (pr_token res_b), addr_b) \<in> set (ch_items (ss_to_internet a1)) \<and>
    session_exec env_b (session_new su_b) [SocketReceive (frame (pr_token res_b), raw_a), RoutePacket, ProbeTake t1 percent1, ProbeAdmit, ProbeEcho,
      LoopbackReceive (packet_b, wg_b), OutboundTake, OutboundForward] = Some b1 \<and>
    ch_items (ss_to_internet b1) = [(frame (pr_token res_b), normalize_ipv4_mapped_source raw_a), (packet_b, normalize_ipv4_mapped_source raw_a)] \<and>
    session_exec env_a a1 ([SocketReceive (frame (pr_token res_b), raw_b), RoutePacket, ProbeTake t2 percent2] @
      [LoopbackReceive (packet_a, wg_a), OutboundTake, OutboundForward] @
      [SocketReceive (packet_b, raw_b), RoutePacket, InboundTake, InboundForward]) = Some a2 \<and>
    paths (ss_probes a2) addr_b = Some p \<and> verified p \<and> (packet_a, addr_b) \<in> set (ch_items (ss_to_internet a2)) \<and>
    ch_items (lp_sender (ss_local a2)) = [(packet_b, wg_a)] \<and>
    session_exec env_b b1 [SocketReceive (packet_a, raw_a), RoutePacket, InboundTake, InboundForward] = Some b2 \<and>
    ch_items (lp_sender (ss_local b2)) = [(packet_a, wg_b)]"
proof -
  have token: "local_token (su_probes su_b) = pr_token res_b"
    using session_new_fresh(3) [OF set_up(3,4)] by (simp add: session_new_def probe_new_def)
  note len = set_up(4) [folded token]
  obtain a1 p1 where a1: "session_exec env_a (session_new su_a)
      [DhtTake now_system value, DhtReplace, DhtPaths t0, ProbeSchedule t percent] = Some a1"
    "(frame (pr_token res_b), addr_b) \<in> set (ch_items (ss_to_internet a1))" "length (ch_items (ss_to_internet a1)) \<le> 64"
    "remote_token (ss_probes a1) = Some (pr_token res_b)" "local_token (ss_probes a1) = pr_token res_a"
    "paths (ss_probes a1) addr_b = Some p1" "outstanding p1 \<noteq> None" "contains (ss_connections a1) addr_b"
    "ch_items (ss_from_local a1) = []" "ch_items (lp_sender (ss_local a1)) = []" "quiet a1" "session_wf (le_flags env_a) a1"
    unfolding token [symmetric]
    by (rule fresh_peer_probes [OF crates(1-4) pair set_up(1,2) published(1) len published(2,3) reachable(1,3), of percent])
  obtain b1 where b1: "session_exec env_b (session_new su_b) [SocketReceive (frame (pr_token res_b), raw_a), RoutePacket,
      ProbeTake t1 percent1, ProbeAdmit, ProbeEcho, LoopbackReceive (packet_b, wg_b), OutboundTake, OutboundForward] = Some b1"
    "ch_items (ss_to_internet b1) = [(frame (pr_token res_b), normalize_ipv4_mapped_source raw_a),
      (packet_b, normalize_ipv4_mapped_source raw_a)]" "contains (ss_connections b1) (normalize_ipv4_mapped_source raw_a)"
    "lp_addr (ss_local b1) = Some wg_b" "ch_items (lp_sender (ss_local b1)) = []" "quiet b1" "session_wf (le_flags env_b) b1"
    by (rule fresh_peer_answers [OF crates(5) set_up(3,4) data(4), of raw_a t1 percent1 wg_b])
  have "local_token (ss_probes a1) \<noteq> pr_token res_b"
    using a1(5) set_up(5) by simp
  from verified_exchange [OF crates(4) a1(12,11,3,9,10,4) set_up(4) this a1(6-8) reachable(2) data(2-4), of t2 percent2 wg_a]
  obtain a2 p where "session_exec env_a a1 ([SocketReceive (frame (pr_token res_b), raw_b), RoutePacket, ProbeTake t2 percent2] @
      [LoopbackReceive (packet_a, wg_a), OutboundTake, OutboundForward] @
      [SocketReceive (packet_b, raw_b), RoutePacket, InboundTake, InboundForward]) = Some a2"
    "paths (ss_probes a2) addr_b = Some p" "verified p" "(packet_a, addr_b) \<in> set (ch_items (ss_to_internet a2))"
    "ch_items (lp_sender (ss_local a2)) = [(packet_b, wg_a)]" .
  moreover from deliver_data [OF b1(7,6,3) data(1,2) b1(4), of env_b] b1(5) obtain b2 where
    "session_exec env_b b1 [SocketReceive (packet_a, raw_a), RoutePacket, InboundTake, InboundForward] = Some b2"
    "ch_items (lp_sender (ss_local b2)) = [(packet_a, wg_b)]"
    by (auto simp: UDP_QUEUE_CAPACITY_def)
  ultimately show ?thesis
    using a1(1,2) b1(1,2) by (intro exI conjI)
qed

section \<open>Two concrete peers\<close>

definition sample_to_vec :: "message \<Rightarrow> (bytes, error) result" where
  "sample_to_vec msg = (if msg = sample_message then Ok [] else Err Panic)"

lemma sample_published:
  "publish_record sample_to_vec sample_seal (crypto_box_new (public_key_of (\<lambda>k. k) (SecretKey [5])) (SecretKey [3]))
     (local_token_base64 sample_b64_encode (probe_new (replicate 16 9))) 7 (replicate 24 0)
     [SockV4 0xC0000201 8080, SockV4 0x7F000001 8080] = Ok (replicate 24 0 @ [6])"
  by (simp add: publish_record_def sample_to_vec_def sample_message_def local_token_base64_def probe_new_def encrypt_def
      encrypt_with_nonce_def crypto_box_new_def public_key_of_def sample_seal_def sample_tag_def del: replicate.simps)

lemma sample_crates:
  "box_agreement (\<lambda>k. k) sample_seal (le_unseal sample_env)" "json_inverse sample_to_vec (le_from_slice sample_env)"
  "b64_inverse sample_b64_encode (le_b64_decode sample_env)"
  using sample_box(1) sample_b64 by (auto simp: json_inverse_def sample_to_vec_def sample_env_def split: if_splits)

lemma sample_usable:
  "take 64 (filter is_usable_peer_addr (filter (\<lambda>a. \<not> filter_ipv6 (le_flags sample_env) \<or> is_ipv4 (sock_ip a))
     [SockV4 0xC0000201 8080, SockV4 0x7F000001 8080])) = [SockV4 0xC0000201 8080]"
  by (simp add: sample_env_def is_usable_peer_addr_def)

theorem published_record_received_witness:
  "\<exists>s'. session_exec sample_env (session_new sample_su)
      [DhtTake 7 (replicate 24 0 @ [6]), DhtReplace, DhtPaths 0] = Some s' \<and>
     remote_token (ss_probes s') = Some (replicate 16 9) \<and>
     contains (ss_connections s') (SockV4 0xC0000201 8080)"
proof -
  have wf: "session_wf (le_flags sample_env) (session_new sample_su)"
    by (rule session_new_wf(1) [OF sample_setup_peer sample_token(2)])
  show ?thesis
    using published_record_received [OF sample_crates sample_order _ _ _ sample_published _ _ wf, of 7 0]
    unfolding sample_usable
    by (auto simp: sample_env_def public_key_of_def probe_new_def session_new_def is_fresh_iff
        simp del: replicate.simps session_exec.simps)
qed

text \<open>The second peer of the sample pair: the same program with another token.\<close>

definition sample_su_b :: peer_setup where
  "sample_su_b = sample_su\<lparr>su_probes := probe_new (replicate 16 9)\<rparr>"

theorem tunnel_comes_up_witness:
  "\<exists>a1 b1 a2 b2.
    session_exec sample_env (session_new sample_su)
      [DhtTake 7 (replicate 24 0 @ [6]), DhtReplace, DhtPaths 0, ProbeSchedule 1 (\<lambda>_. 100)] = Some a1 \<and>
    session_exec sample_env (session_new sample_su_b) [SocketReceive (frame (replicate 16 9), SockV4 8 8), RoutePacket,
      ProbeTake 2 100, ProbeAdmit, ProbeEcho, LoopbackReceive ([9], SockV4 0x7F000001 7), OutboundTake, OutboundForward] = Some b1 \<and>
    session_exec sample_env a1 ([SocketReceive (frame (replicate 16 9), SockV4 0xC0000201 8080), RoutePacket, ProbeTake 3 100] @
      [LoopbackReceive ([9], SockV4 0x7F000001 5), OutboundTake, OutboundForward] @
      [SocketReceive ([9], SockV4 0xC0000201 8080), RoutePacket, InboundTake, InboundForward]) = Some a2 \<and>
    ch_items (lp_sender (ss_local a2)) = [([9], SockV4 0x7F000001 5)] \<and>
    session_exec sample_env b1 [SocketReceive ([9], SockV4 8 8), RoutePacket, InboundTake, InboundForward] = Some b2 \<and>
    ch_items (lp_sender (ss_local b2)) = [([9], SockV4 0x7F000001 7)]"
proof -
  let ?res = "sample_resources\<lparr>pr_token := replicate 16 9\<rparr>"
  have b: "setup_peer sample_b64_decode (le_flags sample_env) ?res sample_peer 0 = Ok sample_su_b"
    using sample_setup_peer_token unfolding sample_su_b_def by blast
  have tokens: "length (pr_token ?res) = 16" "pr_token sample_resources \<noteq> pr_token ?res" "pr_token ?res = replicate 16 9"
    by (simp_all add: sample_token)
  have "le_box sample_env = crypto_box_new (public_key_of (\<lambda>k. k) (SecretKey [3])) (SecretKey [5])"
    by (simp add: sample_env_def public_key_of_def)
  note up = tunnel_comes_up [OF sample_crates sample_order sample_order this sample_setup_peer sample_token(2) b tokens(1,2)]
  have published: "publish_record sample_to_vec sample_seal (crypto_box_new (public_key_of (\<lambda>k. k) (SecretKey [5])) (SecretKey [3]))
      (local_token_base64 sample_b64_encode (su_probes sample_su_b)) 7 (replicate 24 0)
      [SockV4 0xC0000201 8080, SockV4 0x7F000001 8080] = Ok (replicate 24 0 @ [6])"
    using sample_published by (simp add: sample_su_b_def del: replicate.simps)
  have fresh: "is_fresh_dht_timestamp 7 7" "length (replicate 24 (0 :: u8)) = 24"
    by (simp_all add: is_fresh_iff)
  have reach: "SockV4 0xC0000201 8080 \<in> set (take 64 (filter is_usable_peer_addr
      (filter (\<lambda>a. \<not> filter_ipv6 (le_flags sample_env) \<or> is_ipv4 (sock_ip a)) [SockV4 0xC0000201 8080, SockV4 0x7F000001 8080])))"
    "normalize_ipv4_mapped_source (SockV4 0xC0000201 8080) = SockV4 0xC0000201 8080" "(0 :: instant) \<le> 1"
    unfolding sample_usable by (simp_all add: normalize_ipv4_mapped_source_def)
  have short: "length ([9] :: bytes) \<le> 65536"
    by simp
  show ?thesis
    using up [OF fresh(2) published fresh(1) reach sample_data short sample_data short,
        of "\<lambda>_. 100" "SockV4 8 8" 2 100 "SockV4 0x7F000001 7" 3 100 "SockV4 0x7F000001 5", unfolded tokens(3)]
    by blast
qed

definition sample_prober :: session where
  "sample_prober = (session_new sample_su)\<lparr>ss_probes :=
     \<lparr>local_token = replicate 16 2, remote_token = Some (replicate 16 1), paths = [SockV4 9 9 \<mapsto> path_new 0],
      reply_sources = Map.empty\<rparr>\<rparr>"

definition sample_responder :: session where
  "sample_responder = (session_new sample_su)\<lparr>ss_local := \<lparr>lp_sender = channel_new UDP_QUEUE_CAPACITY,
     lp_addr = Some (SockV4 0x7F000001 7)\<rparr>\<rparr>"

theorem peers_connect_witness:
  "\<exists>a1 a2 b1 b2.
     session_step sample_env sample_prober (ProbeSchedule 0 (\<lambda>_. 100)) = Some a1 \<and>
     session_exec sample_env a1 [SocketReceive (frame (replicate 16 1), SockV4 9 9), RoutePacket, ProbeTake 5 100] = Some a2 \<and>
     map_option verified (paths (ss_probes a2) (SockV4 9 9)) = Some True \<and>
     session_exec sample_env sample_responder [SocketReceive (frame (replicate 16 1), SockV4 8 8), RoutePacket,
       ProbeTake 3 100, ProbeAdmit, ProbeEcho] = Some b1 \<and>
     session_exec sample_env b1 [SocketReceive ([9], SockV4 8 8), RoutePacket, InboundTake, InboundForward] = Some b2 \<and>
     ch_items (lp_sender (ss_local b2)) = [([9], SockV4 0x7F000001 7)]"
proof -
  have "session_wf (le_flags sample_env) (session_new sample_su)"
    by (rule session_new_wf(1) [OF sample_setup_peer sample_token(2)])
  then have wf: "session_wf (le_flags sample_env) sample_prober" "session_wf (le_flags sample_env) sample_responder"
    by (simp_all add: sample_prober_def sample_responder_def session_wf_def probe_wf_def MAX_PROBE_PATHS_def)
  have new: "quiet (session_new sample_su)" "ch_items (ss_to_internet (session_new sample_su)) = []"
    by (simp_all add: quiet_def idle_def session_new_def sample_su_def receivers_new_def channel_new_def)
  then have quiet: "quiet sample_prober" "quiet sample_responder"
    "ch_items (ss_to_internet sample_prober) = []" "ch_items (ss_to_internet sample_responder) = []"
    by (simp_all add: quiet_def idle_def sample_prober_def sample_responder_def)
  have token: "local_token (ss_probes sample_responder) = replicate 16 1"
    by (simp add: sample_responder_def session_new_def sample_su_def probe_new_def)
  have room: "willing 3 (ss_probes sample_responder) (normalize_ipv4_mapped_source (SockV4 8 8))"
    "card (peer_reflexive (ss_connections sample_responder)) < 64"
    by (simp_all add: willing_def retain_recent_def sample_responder_def session_new_def sample_su_def probe_new_def
        candidate_set_default_def MAX_REPLY_SOURCES_def)
  have local: "ss_local sample_responder = \<lparr>lp_sender = channel_new UDP_QUEUE_CAPACITY, lp_addr = Some (SockV4 0x7F000001 7)\<rparr>"
    by (simp add: sample_responder_def)
  have prober: "remote_token (ss_probes sample_prober) = Some (replicate 16 1)"
    "local_token (ss_probes sample_prober) \<noteq> replicate 16 1" "paths (ss_probes sample_prober) (SockV4 9 9) = Some (path_new 0)"
    by (simp_all add: sample_prober_def)
  show ?thesis
    using peers_connect [OF sample_order sample_order wf quiet _ _ prober(3) _ _ room sample_data,
        of 0 "SockV4 9 9" "SockV4 0x7F000001 7" "\<lambda>_. 100" 100 5 100]
    by (auto simp: token prober local path_new_def normalize_ipv4_mapped_source_def channel_new_def UDP_QUEUE_CAPACITY_def
        simp del: replicate.simps session_exec.simps session_step.simps)
qed

end
